theory Spec2Isabelle
  imports Main
begin

section \<open>JavaScript values, objects and errors\<close>

text \<open>
  The executor works on untyped JavaScript values: entities are objects reached by
  reference and compared with \<open>===\<close>, ids may be numbers or strings, and almost every
  decision of the code is a truthiness test. Numbers are modelled as integers (ids,
  levels and versions are integral), \<open>NaN\<close> is a value of its own, dates are their
  millisecond count, arrays are kept by value.
\<close>

datatype jsval =
    JUndefined
  | JNull
  | JNaN
  | JBool bool
  | JNum int
  | JStr string
  | JDate int
  | JRef nat
  | JArr "jsval list"

text \<open>\<open>if (v)\<close>, \<open>!v\<close>, \<open>a || b\<close>: JavaScript's ToBoolean.\<close>

fun truthy :: "jsval \<Rightarrow> bool" where
  "truthy JUndefined = False"
| "truthy JNull = False"
| "truthy JNaN = False"
| "truthy (JBool b) = b"
| "truthy (JNum n) = (n \<noteq> 0)"
| "truthy (JStr s) = (s \<noteq> [])"
| "truthy (JDate d) = True"
| "truthy (JRef r) = True"
| "truthy (JArr xs) = True"

definition jsOr :: "jsval \<Rightarrow> jsval \<Rightarrow> jsval" where
  "jsOr a b = (if truthy a then a else b)"

datatype error =
    TypeError
  | Error string
  | EntityMetadataNotFound
  | Rejected nat

text \<open>
  An \<open>ObjectLiteral\<close> handed to the query runner (column name to value) keeps the order
  in which its keys were first assigned; assigning an existing key replaces the value in
  place.
\<close>

type_synonym objectLiteral = "(string \<times> jsval) list"

fun setKey :: "string \<Rightarrow> jsval \<Rightarrow> objectLiteral \<Rightarrow> objectLiteral" where
  "setKey k v [] = [(k, v)]"
| "setKey k v ((k', v') # kvs) =
     (if k' = k then (k, v) # kvs else (k', v') # setKey k v kvs)"

text \<open>The heap of entity objects: a reference gives the object's own properties.\<close>

type_synonym heap = "nat \<Rightarrow> (string \<rightharpoonup> jsval)"

text \<open>
  \<open>v[p]\<close>: reading a property of \<open>undefined\<close> or \<open>null\<close> throws a TypeError, a missing
  property reads as \<open>undefined\<close>. Only own data properties of entity objects are
  modelled, so a property of a primitive or of an array reads as \<open>undefined\<close>.
\<close>

definition getProp :: "heap \<Rightarrow> jsval \<Rightarrow> string \<Rightarrow> error + jsval" where
  "getProp h v p =
     (case v of
        JUndefined \<Rightarrow> Inl TypeError
      | JNull \<Rightarrow> Inl TypeError
      | JRef r \<Rightarrow> Inr (case h r p of Some x \<Rightarrow> x | None \<Rightarrow> JUndefined)
      | _ \<Rightarrow> Inr JUndefined)"

text \<open>
  \<open>v[p] = x\<close> in strict mode (the compiled modules are strict): only an object takes
  the property, anything else throws.
\<close>

definition setProp :: "heap \<Rightarrow> jsval \<Rightarrow> string \<Rightarrow> jsval \<Rightarrow> error + heap" where
  "setProp h v p x =
     (case v of
        JRef r \<Rightarrow> Inr (h(r := (h r)(p \<mapsto> x)))
      | _ \<Rightarrow> Inl TypeError)"

text \<open>
  \<open>v + 1\<close> and \<open>v++\<close>. On a number both add one. The string forms of objects and the
  numeric forms of strings are not fixed by the executor and are parameters.
\<close>

definition jsPlusOne :: "(jsval \<Rightarrow> string) \<Rightarrow> jsval \<Rightarrow> jsval" where
  "jsPlusOne toStr v =
     (case v of
        JNum n \<Rightarrow> JNum (n + 1)
      | JNull \<Rightarrow> JNum 1
      | JBool b \<Rightarrow> JNum (if b then 2 else 1)
      | JUndefined \<Rightarrow> JNaN
      | JNaN \<Rightarrow> JNaN
      | JStr s \<Rightarrow> JStr (s @ ''1'')
      | _ \<Rightarrow> JStr (toStr v @ ''1''))"

definition jsIncrement :: "(jsval \<Rightarrow> jsval) \<Rightarrow> jsval \<Rightarrow> jsval" where
  "jsIncrement toNum v =
     (case v of
        JNum n \<Rightarrow> JNum (n + 1)
      | JNull \<Rightarrow> JNum 1
      | JBool b \<Rightarrow> JNum (if b then 2 else 1)
      | JUndefined \<Rightarrow> JNaN
      | JNaN \<Rightarrow> JNaN
      | JDate d \<Rightarrow> JNum (d + 1)
      | _ \<Rightarrow> (case toNum v of JNum n \<Rightarrow> JNum (n + 1) | _ \<Rightarrow> JNaN))"

text \<open>Sequencing of computations that may throw.\<close>

definition bindE :: "error + 'a \<Rightarrow> ('a \<Rightarrow> error + 'b) \<Rightarrow> error + 'b" where
  "bindE m f = (case m of Inl e \<Rightarrow> Inl e | Inr x \<Rightarrow> f x)"

text \<open>\<open>xs.forEach(x => ...)\<close> over an accumulator, stopping at the first throw.\<close>

fun foldE :: "('a \<Rightarrow> 'b \<Rightarrow> error + 'b) \<Rightarrow> 'a list \<Rightarrow> 'b \<Rightarrow> error + 'b" where
  "foldE f [] acc = Inr acc"
| "foldE f (x # xs) acc = (case f x acc of Inl e \<Rightarrow> Inl e | Inr acc' \<Rightarrow> foldE f xs acc')"

section \<open>Entity metadata\<close>

text \<open>
  \<open>EntityMetadata\<close>, \<open>ColumnMetadata\<close> and \<open>RelationMetadata\<close> are read-only descriptions
  built elsewhere. Each member the executor reads is a field here, getters included
  (\<open>hasVersionColumn\<close>, \<open>primaryColumns\<close>, ...), so nothing is assumed about how they are
  derived from one another.
\<close>

datatype target = ClassRef nat | SchemaName string

fun truthyTarget :: "target option \<Rightarrow> bool" where
  "truthyTarget None = False"
| "truthyTarget (Some (ClassRef c)) = True"
| "truthyTarget (Some (SchemaName n)) = (n \<noteq> [])"

datatype column = Column
  (c_propertyName: string)
  (c_name: string)
  (c_fullName: string)
  (c_entityTarget: "target option")
  (c_isGenerated: bool)
  (c_isObjectId: bool)
  (c_isVirtual: bool)
  (c_isParentId: bool)
  (c_isDiscriminator: bool)
  (c_isCreateDate: bool)
  (c_isUpdateDate: bool)
  (c_isVersion: bool)
  (c_referencedColumn: "column option")

record tableMetadata =
  t_name :: string
  t_isClassTableChild :: bool
  t_isClosure :: bool

record joinColumn =
  jc_name :: string
  jc_referencedColumn :: column

record joinTable =
  jt_referencedColumn :: column
  jt_inverseReferencedColumn :: column

text \<open>
  The entity metadata reached through a relation (\<open>inverseEntityMetadata\<close>,
  \<open>junctionEntityMetadata\<close>) or as \<open>closureJunctionTable\<close>: the members read there.
\<close>

record linkedMetadata =
  l_table :: tableMetadata
  l_columns :: "column list"
  l_columnsWithoutEmbeddeds :: "column list"
  l_firstPrimaryColumn :: column

record inverseRelation =
  ir_propertyName :: string
  ir_target :: target
  ir_joinTable :: joinTable
  ir_joinColumn :: joinColumn

record relation =
  r_name :: string
  r_propertyName :: string
  r_entityTarget :: target
  r_isOwning :: bool
  r_isManyToManyOwner :: bool
  r_isManyToManyNotOwner :: bool
  r_hasInverseSide :: bool
  r_joinColumn :: joinColumn
  r_joinTable :: joinTable
  r_inverseRelation :: inverseRelation
  r_inverseEntityMetadata :: linkedMetadata
  r_junctionEntityMetadata :: linkedMetadata

datatype embedded = Embedded
  (e_propertyName: string)
  (e_isArray: bool)
  (e_columns: "column list")
  (e_embeddeds: "embedded list")

record metadataFields =
  m_target :: target
  m_targetName :: string
  m_table :: tableMetadata
  m_hasNonNullableColumns :: bool
  m_discriminatorValue :: jsval
  m_generatedColumnIfExist :: "column option"
  m_hasGeneratedColumn :: bool
  m_hasObjectIdColumn :: bool
  m_objectIdColumn :: column
  m_columnsWithoutEmbeddeds :: "column list"
  m_embeddeds :: "embedded list"
  m_relationsWithJoinColumns :: "relation list"
  m_hasCreateDateColumn :: bool
  m_createDateColumn :: column
  m_hasUpdateDateColumn :: bool
  m_updateDateColumn :: column
  m_hasVersionColumn :: bool
  m_versionColumn :: column
  m_hasDiscriminatorColumn :: bool
  m_discriminatorColumn :: column
  m_hasTreeLevelColumn :: bool
  m_treeLevelColumn :: column
  m_hasTreeParentRelation :: bool
  m_treeParentRelation :: relation
  m_hasTreeChildrenRelation :: bool
  m_treeChildrenRelation :: relation
  m_hasParentIdColumn :: bool
  m_parentIdColumn :: column
  m_firstPrimaryColumn :: column
  m_primaryColumns :: "column list"
  m_parentPrimaryColumns :: "column list"
  m_primaryColumnsWithParentIdColumns :: "column list"
  m_closureJunctionTable :: linkedMetadata

datatype metadata = Metadata
  (mfields: metadataFields)
  (parentEntityMetadata: "metadata option")

section \<open>Subjects\<close>

record junctionInsert =
  ji_relation :: relation
  ji_junctionEntities :: "jsval list"

record junctionRemove =
  jr_relation :: relation
  jr_junctionRelationIds :: "jsval list"

record relationUpdate =
  ru_relation :: relation
  ru_value :: jsval

record subject =
  metadata :: metadata
  entity :: jsval
  hasEntity :: bool
  databaseEntity :: jsval
  entityTarget :: target
  mustBeInserted :: bool
  mustBeUpdated :: bool
  mustBeRemoved :: bool
  hasRelationUpdates :: bool
  diffColumns :: "column list"
  diffRelations :: "relation list"
  relationUpdates :: "relationUpdate list"
  junctionInserts :: "junctionInsert list"
  junctionRemoves :: "junctionRemove list"
  newlyGeneratedId :: jsval
  generatedObjectId :: jsval
  parentGeneratedId :: jsval
  treeLevel :: jsval
  date :: jsval

section \<open>Collaborators and execution state\<close>

text \<open>
  A call to the query runner. \<open>delete\<close> may be handed \<open>undefined\<close> conditions (the
  result of \<open>getEntityIdColumnMap\<close> is passed on unchecked).
\<close>

datatype qcall =
    QInsert string objectLiteral "column option"
  | QUpdate string objectLiteral objectLiteral
  | QDelete string "objectLiteral option"
  | QInsertIntoClosureTable string jsval jsval bool

text \<open>
  What the collaborators see, in order. Subjects are named by their position in the
  list handed to \<open>execute\<close>.
\<close>

datatype event =
    Provide
  | IsTransactionActive
  | BeginTransaction
  | CommitTransaction
  | RollbackTransaction
  | BroadcastBeforeEventsForAll "nat list" "nat list" "nat list"
  | BroadcastAfterEventsForAll "nat list" "nat list" "nat list"
  | Query qcall

text \<open>
  The state threaded through one \<open>execute\<close>: the entity heap shared with the caller,
  the subjects (mutated in place by the insert and closure phases), the database behind
  the query runner, the calls made so far, and the number of \<open>new Date()\<close> readings
  taken so far.
\<close>

record 'db state =
  heap :: heap
  subjects :: "subject list"
  db :: 'db
  trace :: "event list"
  clock :: nat

text \<open>
  The collaborators and the members of \<open>Subject\<close>, \<open>ColumnMetadata\<close>,
  \<open>RelationMetadata\<close>, \<open>EntityMetadata\<close> and \<open>OrmUtils\<close> that are called but not
  defined in the sources at hand are parameters. The query runner is a state machine on
  the database; the clock is the sequence of values that \<open>new Date()\<close> returns.
  \<open>preparePersistentValue\<close> is taken not to throw.
\<close>

record 'db env =
  entityMetadatas :: "metadata list"
  preparePersistentValue :: "jsval \<Rightarrow> column \<Rightarrow> jsval"
  columnGetEntityValue :: "column \<Rightarrow> heap \<Rightarrow> jsval \<Rightarrow> error + jsval"
  columnHasEntityValue :: "column \<Rightarrow> heap \<Rightarrow> jsval \<Rightarrow> error + bool"
  relationGetEntityValue :: "relation \<Rightarrow> heap \<Rightarrow> jsval \<Rightarrow> error + jsval"
  getOwnEntityRelationId :: "relation \<Rightarrow> heap \<Rightarrow> jsval \<Rightarrow> error + jsval"
  getInverseEntityRelationId :: "relation \<Rightarrow> heap \<Rightarrow> jsval \<Rightarrow> error + jsval"
  getDatabaseEntityIdMap :: "metadata \<Rightarrow> heap \<Rightarrow> jsval \<Rightarrow> error + objectLiteral option"
  getEntityIdColumnMap :: "metadata \<Rightarrow> heap \<Rightarrow> jsval \<Rightarrow> error + objectLiteral option"
  zipObject :: "string list \<Rightarrow> jsval list \<Rightarrow> objectLiteral"
  jsToString :: "jsval \<Rightarrow> string"
  jsToNumber :: "jsval \<Rightarrow> jsval"
  dateAt :: "nat \<Rightarrow> int"
  runQuery :: "qcall \<Rightarrow> 'db \<Rightarrow> (error + jsval) \<times> 'db"
  isTransactionActive :: "'db \<Rightarrow> bool"
  provide :: "'db \<Rightarrow> error option"
  beginTransaction :: "'db \<Rightarrow> error option \<times> 'db"
  commitTransaction :: "'db \<Rightarrow> error option \<times> 'db"
  rollbackTransaction :: "'db \<Rightarrow> error option \<times> 'db"
  validate :: "subject \<Rightarrow> error option"
  recompute :: "heap \<Rightarrow> subject \<Rightarrow> subject"
  broadcastBefore :: "subject list \<Rightarrow> nat list \<Rightarrow> nat list \<Rightarrow> nat list \<Rightarrow> heap \<Rightarrow> error + heap"
  broadcastAfter :: "subject list \<Rightarrow> nat list \<Rightarrow> nat list \<Rightarrow> nat list \<Rightarrow> heap \<Rightarrow> error + heap"
  backPatchUpdates :: "subject list \<Rightarrow> nat list \<Rightarrow> nat list \<Rightarrow> heap \<Rightarrow> qcall list \<times> error option"

text \<open>\<open>await this.queryRunner.\<dots>\<close>: the call is recorded and the database moves.\<close>

definition query :: "'db env \<Rightarrow> qcall \<Rightarrow> 'db state \<Rightarrow> (error + jsval) \<times> 'db state" where
  "query env c s =
     (case runQuery env c (db s) of
        (r, d) \<Rightarrow> (r, s\<lparr>db := d, trace := trace s @ [Query c]\<rparr>))"

definition queryUnit :: "'db env \<Rightarrow> qcall \<Rightarrow> 'db state \<Rightarrow> (error + unit) \<times> 'db state" where
  "queryUnit env c s =
     (case query env c s of
        (Inl e, s') \<Rightarrow> (Inl e, s')
      | (Inr v, s') \<Rightarrow> (Inr (), s'))"

text \<open>\<open>new Date()\<close>.\<close>

definition newDate :: "'db env \<Rightarrow> 'db state \<Rightarrow> jsval \<times> 'db state" where
  "newDate env s = (JDate (dateAt env (clock s)), s\<lparr>clock := Suc (clock s)\<rparr>)"

text \<open>
  A loop whose body has effects and may fail. \<open>Promise.all(xs.map(f))\<close> and
  \<open>PromiseUtils.runInSequence(xs, f)\<close> are both run this way: in array order, each
  element to completion, stopping at the first failure. For \<open>Promise.all\<close> this fixes one
  completion order among those the event loop allows; the order between different
  elements of one \<open>Promise.all\<close> carries no meaning.
\<close>

fun forEachS :: "('a \<Rightarrow> 's \<Rightarrow> (error + unit) \<times> 's) \<Rightarrow> 'a list \<Rightarrow> 's \<Rightarrow> (error + unit) \<times> 's" where
  "forEachS f [] s = (Inr (), s)"
| "forEachS f (x # xs) s =
     (case f x s of
        (Inl e, s') \<Rightarrow> (Inl e, s')
      | (Inr u, s') \<Rightarrow> forEachS f xs s')"

section \<open>Remove\<close>

text \<open>
  \<open>columns.forEach(column => conditions[column.fullName] =
  subject.databaseEntity[column.propertyName])\<close>
\<close>

definition conditionsOf :: "heap \<Rightarrow> jsval \<Rightarrow> column list \<Rightarrow> error + objectLiteral" where
  "conditionsOf h dbEntity cols =
     foldE (\<lambda>column conds.
              bindE (getProp h dbEntity (c_propertyName column))
                (\<lambda>v. Inr (setKey (c_fullName column) v conds)))
       cols []"

definition removeSubject :: "'db env \<Rightarrow> subject \<Rightarrow> 'db state \<Rightarrow> (error + unit) \<times> 'db state" where
  "removeSubject env sj s =
     (case parentEntityMetadata (metadata sj) of
        Some pm \<Rightarrow>
          (case conditionsOf (heap s) (databaseEntity sj)
                  (m_parentPrimaryColumns (mfields (metadata sj))) of
             Inl e \<Rightarrow> (Inl e, s)
           | Inr parentConditions \<Rightarrow>
               (case queryUnit env
                       (QDelete (t_name (m_table (mfields pm))) (Some parentConditions)) s of
                  (Inl e, s1) \<Rightarrow> (Inl e, s1)
                | (Inr u, s1) \<Rightarrow>
                    (case conditionsOf (heap s1) (databaseEntity sj)
                            (m_primaryColumnsWithParentIdColumns (mfields (metadata sj))) of
                       Inl e \<Rightarrow> (Inl e, s1)
                     | Inr childConditions \<Rightarrow>
                         queryUnit env
                           (QDelete (t_name (m_table (mfields (metadata sj))))
                              (Some childConditions)) s1)))
      | None \<Rightarrow>
          (case getEntityIdColumnMap env (metadata sj) (heap s) (databaseEntity sj) of
             Inl e \<Rightarrow> (Inl e, s)
           | Inr idMap \<Rightarrow>
               queryUnit env (QDelete (t_name (m_table (mfields (metadata sj)))) idMap) s))"

definition executeRemoveOperations ::
  "'db env \<Rightarrow> nat list \<Rightarrow> 'db state \<Rightarrow> (error + unit) \<times> 'db state" where
  "executeRemoveOperations env removeSubjects s =
     forEachS (\<lambda>i st. removeSubject env (subjects st ! i) st) removeSubjects s"

section \<open>Update\<close>

text \<open>
  \<open>getMetadata\<close> of \<open>Connection\<close>: the first metadata whose target is the given one, or
  whose target name is the given string.
\<close>

definition getMetadata :: "'db env \<Rightarrow> target \<Rightarrow> error + metadata" where
  "getMetadata env t =
     (case find (\<lambda>md. m_target (mfields md) = t \<or>
                      (case t of SchemaName n \<Rightarrow> m_targetName (mfields md) = n
                               | ClassRef c \<Rightarrow> False))
             (entityMetadatas env) of
        None \<Rightarrow> Inl EntityMetadataNotFound
      | Some md \<Rightarrow> Inr md)"

text \<open>
  One entry of \<open>valueMaps\<close>: table name, metadata, values. \<open>setValue\<close> is the recurring
  find-or-push followed by \<open>valueMap.values[key] = v\<close>.
\<close>

type_synonym valueMap = "string \<times> metadata \<times> objectLiteral"

fun setValue :: "valueMap list \<Rightarrow> string \<Rightarrow> metadata \<Rightarrow> string \<Rightarrow> jsval \<Rightarrow> valueMap list" where
  "setValue [] t md k v = [(t, md, [(k, v)])]"
| "setValue ((t', md', vals) # rest) t md k v =
     (if t' = t then (t', md', setKey k v vals) # rest
      else (t', md', vals) # setValue rest t md k v)"

definition tableName :: "metadata \<Rightarrow> string" where
  "tableName md = t_name (m_table (mfields md))"

text \<open>The two loops over \<open>diffColumns\<close> and \<open>diffRelations\<close>.\<close>

definition updateDiffs :: "'db env \<Rightarrow> heap \<Rightarrow> subject \<Rightarrow> error + valueMap list" where
  "updateDiffs env h sj =
     bindE
       (foldE (\<lambda>column vms.
            if \<not> truthyTarget (c_entityTarget column) then Inr vms
            else bindE (getMetadata env (the (c_entityTarget column))) (\<lambda>md.
                 bindE (columnGetEntityValue env column h (entity sj)) (\<lambda>v.
                 Inr (setValue vms (tableName md) md (c_fullName column)
                        (preparePersistentValue env v column)))))
          (diffColumns sj) [])
       (\<lambda>vms1.
        foldE (\<lambda>relation vms.
            bindE (getMetadata env (r_entityTarget relation)) (\<lambda>md.
            bindE (relationGetEntityValue env relation h (entity sj)) (\<lambda>v.
            bindE (if v \<noteq> JNull \<and> v \<noteq> JUndefined
                   then getProp h v
                          (c_propertyName (l_firstPrimaryColumn (r_inverseEntityMetadata relation)))
                   else Inr JNull) (\<lambda>x.
            Inr (setValue vms (tableName md) md (r_name relation) x)))))
          (diffRelations sj) vms1)"

text \<open>The update-date entry and the version entry of one metadata (the subject's, then its parent's).\<close>

definition addUpdateDate ::
  "'db env \<Rightarrow> metadata \<Rightarrow> valueMap list \<Rightarrow> 'db state \<Rightarrow> valueMap list \<times> 'db state" where
  "addUpdateDate env md vms s =
     (if m_hasUpdateDateColumn (mfields md) then
        (case newDate env s of
           (d, s') \<Rightarrow>
             (setValue vms (tableName md) md (c_fullName (m_updateDateColumn (mfields md)))
                (preparePersistentValue env d (m_updateDateColumn (mfields md))), s'))
      else (vms, s))"

definition addVersion ::
  "'db env \<Rightarrow> metadata \<Rightarrow> heap \<Rightarrow> jsval \<Rightarrow> valueMap list \<Rightarrow> error + valueMap list" where
  "addVersion env md h ent vms =
     (if m_hasVersionColumn (mfields md) then
        bindE (getProp h ent (c_propertyName (m_versionColumn (mfields md)))) (\<lambda>v.
          Inr (setValue vms (tableName md) md (c_fullName (m_versionColumn (mfields md)))
                 (preparePersistentValue env (jsPlusOne (jsToString env) v)
                    (m_versionColumn (mfields md)))))
      else Inr vms)"

definition addSpecial ::
  "'db env \<Rightarrow> metadata \<Rightarrow> jsval \<Rightarrow> valueMap list \<Rightarrow> 'db state
     \<Rightarrow> (error + valueMap list) \<times> 'db state" where
  "addSpecial env md ent vms s =
     (case addUpdateDate env md vms s of
        (vms1, s1) \<Rightarrow> (addVersion env md (heap s1) ent vms1, s1))"

text \<open>
  \<open>Promise.all(valueMaps.map(valueMap => ...))\<close>: one \<open>update\<close> per physical table,
  keyed by that table's id map of the entity.
\<close>

definition issueUpdate :: "'db env \<Rightarrow> jsval \<Rightarrow> valueMap \<Rightarrow> 'db state \<Rightarrow> (error + unit) \<times> 'db state" where
  "issueUpdate env ent vm s =
     (case vm of (t, md, vals) \<Rightarrow>
        (case getDatabaseEntityIdMap env md (heap s) ent of
           Inl e \<Rightarrow> (Inl e, s)
         | Inr None \<Rightarrow> (Inl (Error ''Internal error. Cannot get id of the updating entity.''), s)
         | Inr (Some idMap) \<Rightarrow> queryUnit env (QUpdate t vals idMap) s))"

definition updateSubject :: "'db env \<Rightarrow> subject \<Rightarrow> 'db state \<Rightarrow> (error + unit) \<times> 'db state" where
  "updateSubject env sj s =
     (case updateDiffs env (heap s) sj of
        Inl e \<Rightarrow> (Inl e, s)
      | Inr vms \<Rightarrow>
          if vms = [] then (Inr (), s)
          else
            (case addSpecial env (metadata sj) (entity sj) vms s of
               (Inl e, s1) \<Rightarrow> (Inl e, s1)
             | (Inr vms1, s1) \<Rightarrow>
                 (case (case parentEntityMetadata (metadata sj) of
                          None \<Rightarrow> (Inr vms1, s1)
                        | Some pm \<Rightarrow> addSpecial env pm (entity sj) vms1 s1) of
                    (Inl e, s2) \<Rightarrow> (Inl e, s2)
                  | (Inr vms2, s2) \<Rightarrow> forEachS (issueUpdate env (entity sj)) vms2 s2)))"

definition executeUpdateOperations ::
  "'db env \<Rightarrow> nat list \<Rightarrow> 'db state \<Rightarrow> (error + unit) \<times> 'db state" where
  "executeUpdateOperations env updateSubjects s =
     forEachS (\<lambda>i st. updateSubject env (subjects st ! i) st) updateSubjects s"

section \<open>Insert\<close>

text \<open>
  \<open>a === b\<close>. Entities are references; arrays and dates, kept by value here, compare by
  content.
\<close>

definition strictEq :: "jsval \<Rightarrow> jsval \<Rightarrow> bool" where
  "strictEq a b = (a = b \<and> a \<noteq> JNaN)"

text \<open>\<open>xs.filter(p)\<close> and \<open>xs.find(p)\<close> for a predicate that may throw.\<close>

fun filterE :: "('a \<Rightarrow> error + bool) \<Rightarrow> 'a list \<Rightarrow> error + 'a list" where
  "filterE p [] = Inr []"
| "filterE p (x # xs) =
     (case p x of
        Inl e \<Rightarrow> Inl e
      | Inr b \<Rightarrow> (case filterE p xs of
                    Inl e \<Rightarrow> Inl e
                  | Inr ys \<Rightarrow> Inr (if b then x # ys else ys)))"

fun findE :: "('a \<Rightarrow> error + bool) \<Rightarrow> 'a list \<Rightarrow> error + 'a option" where
  "findE p [] = Inr None"
| "findE p (x # xs) =
     (case p x of
        Inl e \<Rightarrow> Inl e
      | Inr b \<Rightarrow> if b then Inr (Some x) else findE p xs)"

text \<open>
  \<open>columnNames\<close> and \<open>columnValues\<close> grow in lockstep and are kept as one list of pairs;
  \<open>columnsAndValuesMap\<close> is written but never read and is left out.
\<close>

type_synonym columnAcc = "(string \<times> jsval) list"

definition collectScalarColumns ::
  "'db env \<Rightarrow> heap \<Rightarrow> metadata \<Rightarrow> jsval \<Rightarrow> columnAcc \<Rightarrow> error + columnAcc" where
  "collectScalarColumns env h md ent acc =
     bindE
       (filterE (\<lambda>column.
            if c_isVirtual column \<or> c_isParentId column \<or> c_isDiscriminator column
            then Inr False
            else columnHasEntityValue env column h ent)
          (m_columnsWithoutEmbeddeds (mfields md)))
       (\<lambda>cols.
          foldE (\<lambda>column a.
              bindE (getProp h ent (c_propertyName column)) (\<lambda>v.
                Inr (a @ [(c_fullName column, preparePersistentValue env v column)])))
            cols acc)"

text \<open>\<open>embedded.columns.forEach\<close> on one embedded value.\<close>

definition embeddedColumns ::
  "'db env \<Rightarrow> heap \<Rightarrow> jsval \<Rightarrow> column list \<Rightarrow> columnAcc \<Rightarrow> error + columnAcc" where
  "embeddedColumns env h v cols acc =
     foldE (\<lambda>column a.
         bindE (getProp h v (c_propertyName column)) (\<lambda>x.
           Inr (a @ [(c_fullName column, preparePersistentValue env x column)])))
       cols acc"

text \<open>
  \<open>collectFromEmbeddeds\<close>. An array embedded whose value is not an array fails at
  \<open>.map\<close>.
\<close>

fun collectFromEmbeddeds ::
  "'db env \<Rightarrow> heap \<Rightarrow> jsval \<Rightarrow> embedded list \<Rightarrow> columnAcc \<Rightarrow> error + columnAcc"
and collectFromEmbedded ::
  "'db env \<Rightarrow> heap \<Rightarrow> jsval \<Rightarrow> embedded \<Rightarrow> columnAcc \<Rightarrow> error + columnAcc" where
  "collectFromEmbeddeds env h ent [] acc = Inr acc"
| "collectFromEmbeddeds env h ent (e # es) acc =
     (case collectFromEmbedded env h ent e acc of
        Inl x \<Rightarrow> Inl x
      | Inr acc' \<Rightarrow> collectFromEmbeddeds env h ent es acc')"
| "collectFromEmbedded env h ent (Embedded pn isArr cols subs) acc =
     (case getProp h ent pn of
        Inl x \<Rightarrow> Inl x
      | Inr v \<Rightarrow>
          if \<not> truthy v then Inr acc
          else
            (case (if isArr then
                     (case v of
                        JArr xs \<Rightarrow> foldE (\<lambda>subValue a. embeddedColumns env h subValue cols a) xs acc
                      | _ \<Rightarrow> Inl TypeError)
                   else embeddedColumns env h v cols acc) of
               Inl x \<Rightarrow> Inl x
             | Inr acc1 \<Rightarrow> collectFromEmbeddeds env h v subs acc1))"

text \<open>
  The value of a relation column taken from a subject found among
  \<open>alreadyInsertedSubjects\<close>: the chain of \<open>if\<close>s on the referenced column, each
  overwriting \<open>relationValue\<close>.
\<close>

definition insertedRelationValue :: "'db env \<Rightarrow> relation \<Rightarrow> subject \<Rightarrow> jsval \<Rightarrow> jsval" where
  "insertedRelationValue env relation a rv =
     (let rc = jc_referencedColumn (r_joinColumn relation);
          rv1 = (if (case c_referencedColumn rc of Some rr \<Rightarrow> c_isGenerated rr | None \<Rightarrow> False)
                    \<and> c_isParentId rc
                 then parentGeneratedId a else rv);
          rv2 = (if c_isGenerated rc then newlyGeneratedId a else rv1);
          rv3 = (if c_isObjectId rc then generatedObjectId a else rv2);
          rv4 = (if c_isCreateDate rc \<or> c_isUpdateDate rc
                 then preparePersistentValue env (date a) rc else rv3)
      in if c_isVersion rc then preparePersistentValue env (JNum 1) rc else rv4)"

text \<open>
  The predicate of \<open>this.allSubjects.find\<close> for a relation without value: a subject of
  the inverse side's target whose inverse property points back. For an array the source
  tests \<open>find(subValue => subValue === subValue)\<close>, the first element equal to itself.
\<close>

definition pointsBack :: "heap \<Rightarrow> relation \<Rightarrow> jsval \<Rightarrow> subject \<Rightarrow> error + bool" where
  "pointsBack h relation ent sj =
     (if \<not> hasEntity sj \<or> entityTarget sj \<noteq> ir_target (r_inverseRelation relation)
      then Inr False
      else bindE (getProp h (entity sj) (ir_propertyName (r_inverseRelation relation))) (\<lambda>iv.
             if truthy iv then
               (case iv of
                  JArr xs \<Rightarrow> Inr (case find (\<lambda>x. strictEq x x) xs of
                                   None \<Rightarrow> False | Some x \<Rightarrow> truthy x)
                | _ \<Rightarrow> Inr (strictEq iv ent))
             else Inr False))"

definition relationValue ::
  "'db env \<Rightarrow> heap \<Rightarrow> subject list \<Rightarrow> subject list \<Rightarrow> jsval \<Rightarrow> relation \<Rightarrow> error + jsval" where
  "relationValue env h allSubjects alreadyInsertedSubjects ent relation =
     bindE (relationGetEntityValue env relation h ent) (\<lambda>v.
       if truthy v then
         bindE (getInverseEntityRelationId env relation h v) (\<lambda>relationId.
           let rv = (if truthy relationId then relationId else JUndefined)
           in Inr (case find (\<lambda>a. strictEq (entity a) v) alreadyInsertedSubjects of
                     None \<Rightarrow> rv
                   | Some a \<Rightarrow> insertedRelationValue env relation a rv))
       else if r_hasInverseSide relation then
         bindE (findE (pointsBack h relation ent) allSubjects) (\<lambda>found.
           case found of
             None \<Rightarrow> Inr JUndefined
           | Some inverseSubject \<Rightarrow>
               bindE (getProp h (entity inverseSubject)
                        (c_propertyName (jc_referencedColumn (r_joinColumn relation)))) (\<lambda>x.
                 Inr (if truthy x then x else JUndefined)))
       else Inr JUndefined)"

definition collectRelationColumns ::
  "'db env \<Rightarrow> heap \<Rightarrow> subject list \<Rightarrow> subject list \<Rightarrow> metadata \<Rightarrow> jsval \<Rightarrow> columnAcc
     \<Rightarrow> error + columnAcc" where
  "collectRelationColumns env h allSubjects alreadyInsertedSubjects md ent acc =
     foldE (\<lambda>relation a.
         bindE (relationValue env h allSubjects alreadyInsertedSubjects ent relation) (\<lambda>rv.
           if truthy rv then
             bindE (getProp h ent (r_name relation)) (\<lambda>unused.
               Inr (a @ [(r_name relation, rv)]))
           else Inr a))
       (m_relationsWithJoinColumns (mfields md)) acc"

text \<open>
  The special columns appended last: create date, update date, version, discriminator,
  tree level, parent id.
\<close>

definition collectSpecialColumns ::
  "'db env \<Rightarrow> heap \<Rightarrow> metadata \<Rightarrow> jsval \<Rightarrow> jsval \<Rightarrow> jsval \<Rightarrow> jsval \<Rightarrow> columnAcc
     \<Rightarrow> error + columnAcc" where
  "collectSpecialColumns env h md ent dt parentIdColumnValue discriminatorValue acc =
     (let f = mfields md;
          a1 = (if m_hasCreateDateColumn f
                then acc @ [(c_fullName (m_createDateColumn f),
                             preparePersistentValue env dt (m_createDateColumn f))]
                else acc);
          a2 = (if m_hasUpdateDateColumn f
                then a1 @ [(c_fullName (m_updateDateColumn f),
                            preparePersistentValue env dt (m_updateDateColumn f))]
                else a1);
          a3 = (if m_hasVersionColumn f
                then a2 @ [(c_fullName (m_versionColumn f),
                            preparePersistentValue env (JNum 1) (m_versionColumn f))]
                else a2);
          a4 = (if m_hasDiscriminatorColumn f
                then a3 @ [(c_fullName (m_discriminatorColumn f),
                            preparePersistentValue env
                              (jsOr discriminatorValue (m_discriminatorValue f))
                              (m_discriminatorColumn f))]
                else a3)
      in bindE
           (if m_hasTreeLevelColumn f \<and> m_hasTreeParentRelation f then
              bindE (getProp h ent (r_propertyName (m_treeParentRelation f))) (\<lambda>parentEntity.
              bindE (if truthy parentEntity
                     then bindE (getProp h parentEntity (c_propertyName (m_treeLevelColumn f)))
                            (\<lambda>l. Inr (jsOr l (JNum 0)))
                     else Inr (JNum 0)) (\<lambda>parentLevel.
              Inr (a4 @ [(c_fullName (m_treeLevelColumn f),
                          jsPlusOne (jsToString env) parentLevel)])))
            else Inr a4)
           (\<lambda>a5.
              case parentEntityMetadata md of
                Some pm \<Rightarrow>
                  if m_hasParentIdColumn f then
                    bindE (if truthy parentIdColumnValue then Inr parentIdColumnValue
                           else getProp h ent
                                  (c_propertyName (m_firstPrimaryColumn (mfields pm)))) (\<lambda>x.
                      Inr (a5 @ [(c_fullName (m_parentIdColumn f), x)]))
                  else Inr a5
              | None \<Rightarrow> Inr a5))"

definition collectColumnsAndValues ::
  "'db env \<Rightarrow> heap \<Rightarrow> subject list \<Rightarrow> metadata \<Rightarrow> jsval \<Rightarrow> jsval \<Rightarrow> jsval \<Rightarrow> jsval
     \<Rightarrow> subject list \<Rightarrow> error + objectLiteral" where
  "collectColumnsAndValues env h allSubjects md ent dt parentIdColumnValue discriminatorValue
      alreadyInsertedSubjects =
     bindE (collectScalarColumns env h md ent []) (\<lambda>a1.
     bindE (collectFromEmbeddeds env h ent (m_embeddeds (mfields md)) a1) (\<lambda>a2.
     bindE (collectRelationColumns env h allSubjects alreadyInsertedSubjects md ent a2) (\<lambda>a3.
     bindE (collectSpecialColumns env h md ent dt parentIdColumnValue discriminatorValue a3)
       (\<lambda>a4. Inr (zipObject env (map fst a4) (map snd a4))))))"

text \<open>
  What \<open>insert\<close> stores on the subject once the generated ids are known.
\<close>

definition storeGeneratedIds :: "metadata \<Rightarrow> jsval \<Rightarrow> jsval \<Rightarrow> subject \<Rightarrow> subject" where
  "storeGeneratedIds md newId parentId sj =
     (let sj1 = (if truthy parentId then sj\<lparr>parentGeneratedId := parentId\<rparr> else sj)
      in if truthy newId then
           (if m_hasGeneratedColumn (mfields md) then sj1\<lparr>newlyGeneratedId := newId\<rparr>
            else if m_hasObjectIdColumn (mfields md) then sj1\<lparr>generatedObjectId := newId\<rparr>
            else sj1)
         else sj1)"

definition updateSubjectAt :: "nat \<Rightarrow> (subject \<Rightarrow> subject) \<Rightarrow> 'db state \<Rightarrow> 'db state" where
  "updateSubjectAt i f s = s\<lparr>subjects := (subjects s)[i := f (subjects s ! i)]\<rparr>"

text \<open>
  \<open>insert(subject, alreadyInsertedSubjects)\<close>. The subject and the already inserted
  subjects are positions in the subject list, read from the state at the moment of use,
  as the source reads the shared objects. A class-table child whose metadata has no
  parent metadata fails on the first member read of \<open>undefined\<close>.
\<close>

definition insertSubject ::
  "'db env \<Rightarrow> nat \<Rightarrow> nat list \<Rightarrow> 'db state \<Rightarrow> (error + unit) \<times> 'db state" where
  "insertSubject env i alreadyInserted s =
     (let sj = subjects s ! i; md = metadata sj;
          already = (\<lambda>st. map (\<lambda>j. subjects st ! j) alreadyInserted)
      in if t_isClassTableChild (m_table (mfields md)) then
           (case parentEntityMetadata md of
              None \<Rightarrow> (Inl TypeError, s)
            | Some pm \<Rightarrow>
                (case collectColumnsAndValues env (heap s) (subjects s) pm (entity sj) (date sj)
                        JUndefined (m_discriminatorValue (mfields md)) (already s) of
                   Inl e \<Rightarrow> (Inl e, s)
                 | Inr parentValuesMap \<Rightarrow>
                     (case query env (QInsert (tableName pm) parentValuesMap
                                        (m_generatedColumnIfExist (mfields pm))) s of
                        (Inl e, s1) \<Rightarrow> (Inl e, s1)
                      | (Inr parentGenerated, s1) \<Rightarrow>
                          (case collectColumnsAndValues env (heap s1) (subjects s1) md (entity sj)
                                  (date sj) parentGenerated JUndefined (already s1) of
                             Inl e \<Rightarrow> (Inl e, s1)
                           | Inr childValuesMap \<Rightarrow>
                               (case query env (QInsert (tableName md) childValuesMap
                                                  (m_generatedColumnIfExist (mfields md))) s1 of
                                  (Inl e, s2) \<Rightarrow> (Inl e, s2)
                                | (Inr secondGenerated, s2) \<Rightarrow>
                                    (Inr (),
                                     updateSubjectAt i
                                       (storeGeneratedIds md
                                          (if \<not> truthy parentGenerated \<and> truthy secondGenerated
                                           then secondGenerated else parentGenerated)
                                          parentGenerated) s2))))))
         else
           (case collectColumnsAndValues env (heap s) (subjects s) md (entity sj) (date sj)
                   JUndefined JUndefined (already s) of
              Inl e \<Rightarrow> (Inl e, s)
            | Inr valuesMap \<Rightarrow>
                (case query env (QInsert (tableName md) valuesMap
                                   (m_generatedColumnIfExist (mfields md))) s of
                   (Inl e, s1) \<Rightarrow> (Inl e, s1)
                 | (Inr generated, s1) \<Rightarrow>
                     (Inr (), updateSubjectAt i (storeGeneratedIds md generated JUndefined) s1))))"

text \<open>
  \<open>executeInsertOperations\<close>: the two groups, one \<open>Promise.all\<close> after the other, then
  the pass that writes the relation ids left \<open>NULL\<close> by the first group. That pass only
  reads subjects and entities and calls \<open>queryRunner.update\<close>; it is a parameter giving
  the updates it issues and the error it then throws, if any.
\<close>

definition firstInsertSubjects :: "subject list \<Rightarrow> nat list \<Rightarrow> nat list" where
  "firstInsertSubjects subs insertSubjects =
     filter (\<lambda>i. \<not> m_hasNonNullableColumns (mfields (metadata (subs ! i)))) insertSubjects"

definition secondInsertSubjects :: "subject list \<Rightarrow> nat list \<Rightarrow> nat list" where
  "secondInsertSubjects subs insertSubjects =
     filter (\<lambda>i. m_hasNonNullableColumns (mfields (metadata (subs ! i)))) insertSubjects"

definition executeInsertOperations ::
  "'db env \<Rightarrow> nat list \<Rightarrow> 'db state \<Rightarrow> (error + unit) \<times> 'db state" where
  "executeInsertOperations env insertSubjects s =
     (let firstGroup = firstInsertSubjects (subjects s) insertSubjects;
          secondGroup = secondInsertSubjects (subjects s) insertSubjects
      in case forEachS (\<lambda>i. insertSubject env i []) firstGroup s of
           (Inl e, s1) \<Rightarrow> (Inl e, s1)
         | (Inr u, s1) \<Rightarrow>
             (case forEachS (\<lambda>i. insertSubject env i firstGroup) secondGroup s1 of
                (Inl e, s2) \<Rightarrow> (Inl e, s2)
              | (Inr u, s2) \<Rightarrow>
                  (case backPatchUpdates env (subjects s2) firstGroup insertSubjects (heap s2) of
                     (updates, thrown) \<Rightarrow>
                       (case forEachS (queryUnit env) updates s2 of
                          (Inl e, s3) \<Rightarrow> (Inl e, s3)
                        | (Inr u, s3) \<Rightarrow>
                            (case thrown of
                               Some e \<Rightarrow> (Inl e, s3)
                             | None \<Rightarrow> (Inr (), s3))))))"

section \<open>Closure tables\<close>

text \<open>The id of the new entity: its own property, else the generated id.\<close>

definition closureNewEntityId :: "heap \<Rightarrow> subject \<Rightarrow> error + jsval" where
  "closureNewEntityId h sj =
     (let referencedColumn =
            jc_referencedColumn (r_joinColumn (m_treeParentRelation (mfields (metadata sj))))
      in bindE (getProp h (entity sj) (c_propertyName referencedColumn)) (\<lambda>v.
           Inr (if \<not> truthy v \<and> c_isGenerated referencedColumn
                then newlyGeneratedId sj else v)))"

text \<open>
  The predicate of the search for a subject that has this entity among its children.
  The children property is named by the metadata of the subject being inserted.
\<close>

definition hasAsChild :: "heap \<Rightarrow> subject \<Rightarrow> subject \<Rightarrow> error + bool" where
  "hasAsChild h sj allSubject =
     (if \<not> hasEntity allSubject
         \<or> \<not> t_isClosure (m_table (mfields (metadata allSubject)))
         \<or> \<not> m_hasTreeChildrenRelation (mfields (metadata allSubject))
      then Inr False
      else bindE (getProp h (entity allSubject)
                    (r_propertyName (m_treeChildrenRelation (mfields (metadata sj))))) (\<lambda>children.
             Inr (case children of
                    JArr xs \<Rightarrow> (\<exists>x \<in> set xs. strictEq x (entity sj))
                  | _ \<Rightarrow> False)))"

text \<open>
  The id of the parent, starting from \<open>0\<close>. With a parent entity that has no id and a
  generated referenced column, the parent is looked up among the insert subjects and its
  \<open>newlyGeneratedId\<close> is read without a check for a missing subject.
\<close>

definition closureParentEntityId ::
  "heap \<Rightarrow> subject list \<Rightarrow> nat list \<Rightarrow> subject \<Rightarrow> error + jsval" where
  "closureParentEntityId h allSubjects insertSubjects sj =
     (let f = mfields (metadata sj);
          referencedColumn = jc_referencedColumn (r_joinColumn (m_treeParentRelation f))
      in bindE (getProp h (entity sj) (r_propertyName (m_treeParentRelation f))) (\<lambda>parentEntity.
         bindE (if truthy parentEntity then
                  bindE (getProp h parentEntity (c_propertyName referencedColumn)) (\<lambda>pid.
                    if \<not> truthy pid \<and> c_isGenerated referencedColumn then
                      (case find (\<lambda>x. strictEq (entity x) parentEntity)
                              (map (\<lambda>j. allSubjects ! j) insertSubjects) of
                         None \<Rightarrow> Inl TypeError
                       | Some parentInsertedSubject \<Rightarrow> Inr (newlyGeneratedId parentInsertedSubject))
                    else Inr pid)
                else Inr (JNum 0)) (\<lambda>pid1.
         if \<not> truthy pid1 then
           bindE (findE (hasAsChild h sj) allSubjects) (\<lambda>found.
             case found of
               None \<Rightarrow> Inr pid1
             | Some parentSubject \<Rightarrow>
                 bindE (getProp h (entity parentSubject) (c_propertyName referencedColumn)) (\<lambda>pid2.
                   Inr (if \<not> truthy pid2 \<and> truthy (newlyGeneratedId parentSubject)
                        then newlyGeneratedId parentSubject else pid2)))
         else Inr pid1)))"

definition insertClosureTableValues ::
  "'db env \<Rightarrow> nat list \<Rightarrow> nat \<Rightarrow> 'db state \<Rightarrow> (error + unit) \<times> 'db state" where
  "insertClosureTableValues env insertSubjects i s =
     (let sj = subjects s ! i; f = mfields (metadata sj);
          referencedColumn = jc_referencedColumn (r_joinColumn (m_treeParentRelation f))
      in case closureNewEntityId (heap s) sj of
           Inl e \<Rightarrow> (Inl e, s)
         | Inr newEntityId \<Rightarrow>
             (case closureParentEntityId (heap s) (subjects s) insertSubjects sj of
                Inl e \<Rightarrow> (Inl e, s)
              | Inr parentEntityId \<Rightarrow>
                  (case query env
                          (QInsertIntoClosureTable (t_name (l_table (m_closureJunctionTable f)))
                             newEntityId parentEntityId (m_hasTreeLevelColumn f)) s of
                     (Inl e, s1) \<Rightarrow> (Inl e, s1)
                   | (Inr level, s1) \<Rightarrow>
                       (let s2 = updateSubjectAt i (\<lambda>x. x\<lparr>treeLevel := level\<rparr>) s1
                        in if m_hasTreeLevelColumn f then
                             queryUnit env
                               (QUpdate (t_name (m_table f))
                                  [(c_fullName (m_treeLevelColumn f), level)]
                                  [(c_fullName referencedColumn, newEntityId)]) s2
                           else (Inr (), s2)))))"

definition executeInsertClosureTableOperations ::
  "'db env \<Rightarrow> nat list \<Rightarrow> 'db state \<Rightarrow> (error + unit) \<times> 'db state" where
  "executeInsertClosureTableOperations env insertSubjects s =
     forEachS (insertClosureTableValues env insertSubjects)
       (filter (\<lambda>i. t_isClosure (m_table (mfields (metadata (subjects s ! i))))) insertSubjects) s"

text \<open>
  \<open>insertIntoClosureTable\<close> of the WebSQL query runner, on the rows of the closure table
  (ancestor, descendant, level; the level is \<open>NULL\<close> where it is not written). The two
  statements are read by their SQL meaning: the \<open>INSERT ... SELECT ... UNION ALL
  SELECT\<close> appends a copy of every row whose descendant is the parent, followed by the
  self row; \<open>SELECT MAX(level)\<close> then ranges over the rows whose descendant is the
  parent, \<open>MAX\<close> skipping \<open>NULL\<close>. Ids are interpolated into the SQL text and are
  taken to be numbers; other ids are rejected.
\<close>

type_synonym closureRow = "int \<times> int \<times> int option"

definition closureInsertedRows :: "closureRow list \<Rightarrow> int \<Rightarrow> int \<Rightarrow> bool \<Rightarrow> closureRow list" where
  "closureInsertedRows rows newEntityId parentId hasLevel =
     map (\<lambda>(a, d, l). (a, newEntityId, if hasLevel then map_option (\<lambda>x. x + 1) l else None))
         (filter (\<lambda>(a, d, l). d = parentId) rows)
     @ [(newEntityId, newEntityId, if hasLevel then Some 1 else None)]"

definition closureLevels :: "closureRow list \<Rightarrow> int \<Rightarrow> int list" where
  "closureLevels rows descendant =
     concat (map (\<lambda>(a, d, l). case l of Some x \<Rightarrow> (if d = descendant then [x] else []) | None \<Rightarrow> [])
               rows)"

definition maxLevel :: "closureRow list \<Rightarrow> int \<Rightarrow> int option" where
  "maxLevel rows descendant =
     (case closureLevels rows descendant of
        [] \<Rightarrow> None
      | x # xs \<Rightarrow> Some (fold max xs x))"

definition insertIntoClosureTable ::
  "jsval \<Rightarrow> jsval \<Rightarrow> bool \<Rightarrow> closureRow list \<Rightarrow> (error + jsval) \<times> closureRow list" where
  "insertIntoClosureTable newEntityId parentId hasLevel rows =
     (case (newEntityId, parentId) of
        (JNum n, JNum p) \<Rightarrow>
          (let rows' = rows @ closureInsertedRows rows n p hasLevel
           in (Inr (case maxLevel rows' p of
                      None \<Rightarrow> JNum 1
                    | Some l \<Rightarrow> if l \<noteq> 0 then JNum (l + 1) else JNum 1),
               rows'))
      | _ \<Rightarrow> (Inl (Rejected 0), rows))"

section \<open>Junction tables\<close>

definition junctionJoinTable :: "relation \<Rightarrow> joinTable" where
  "junctionJoinTable relation =
     (if r_isOwning relation then r_joinTable relation
      else ir_joinTable (r_inverseRelation relation))"

definition junctionFirstColumn :: "relation \<Rightarrow> column" where
  "junctionFirstColumn relation =
     (if r_isOwning relation then jt_referencedColumn (junctionJoinTable relation)
      else jt_inverseReferencedColumn (junctionJoinTable relation))"

definition junctionSecondColumn :: "relation \<Rightarrow> column" where
  "junctionSecondColumn relation =
     (if r_isOwning relation then jt_inverseReferencedColumn (junctionJoinTable relation)
      else jt_referencedColumn (junctionJoinTable relation))"

text \<open>The id of the subject's own side; a falsy result is the first error of \<open>insertJunctions\<close>.\<close>

definition junctionOwnId :: "'db env \<Rightarrow> heap \<Rightarrow> subject \<Rightarrow> relation \<Rightarrow> error + jsval" where
  "junctionOwnId env h sj relation =
     bindE (getOwnEntityRelationId env relation h (entity sj)) (\<lambda>ownId.
       Inr (if \<not> truthy ownId then
              (if c_isGenerated (junctionFirstColumn relation) then newlyGeneratedId sj
               else if c_isObjectId (junctionFirstColumn relation) then generatedObjectId sj
               else ownId)
            else ownId))"

text \<open>The id of one newly bound entity.\<close>

definition junctionRelationId ::
  "heap \<Rightarrow> subject list \<Rightarrow> relation \<Rightarrow> jsval \<Rightarrow> error + jsval" where
  "junctionRelationId h insertSubjects relation newBindEntity =
     bindE (if r_isManyToManyOwner relation then
              getProp h newBindEntity
                (c_propertyName (jt_inverseReferencedColumn (r_joinTable relation)))
            else if r_isManyToManyNotOwner relation then
              getProp h newBindEntity
                (c_propertyName (jt_referencedColumn (ir_joinTable (r_inverseRelation relation))))
            else Inr JUndefined) (\<lambda>relationId.
       Inr (if \<not> truthy relationId then
              (case find (\<lambda>x. strictEq (entity x) newBindEntity) insertSubjects of
                 None \<Rightarrow> relationId
               | Some inserted \<Rightarrow>
                   if c_isGenerated (junctionSecondColumn relation)
                   then newlyGeneratedId inserted
                   else if c_isObjectId (junctionSecondColumn relation)
                   then generatedObjectId inserted
                   else relationId)
            else relationId))"

definition notPersisted :: error where
  "notPersisted =
     Error ''Cannot insert object. Looks like its not persisted yet, or cascades are not set on the relation.''"

text \<open>
  One element of \<open>junctionInsert.junctionEntities.map\<close>. Building the message of the
  error reads \<open>newBindEntity.constructor\<close>, which itself throws on \<open>undefined\<close> and
  \<open>null\<close>.
\<close>

definition insertJunctionRow ::
  "'db env \<Rightarrow> nat list \<Rightarrow> relation \<Rightarrow> jsval \<Rightarrow> jsval \<Rightarrow> 'db state
     \<Rightarrow> (error + unit) \<times> 'db state" where
  "insertJunctionRow env insertSubjects relation ownId newBindEntity s =
     (case junctionRelationId (heap s) (map (\<lambda>j. subjects s ! j) insertSubjects)
             relation newBindEntity of
        Inl e \<Rightarrow> (Inl e, s)
      | Inr relationId \<Rightarrow>
          if \<not> truthy relationId then
            (if newBindEntity = JUndefined \<or> newBindEntity = JNull then (Inl TypeError, s)
             else (Inl notPersisted, s))
          else
            queryUnit env
              (QInsert (t_name (l_table (r_junctionEntityMetadata relation)))
                 (zipObject env
                    (map c_fullName (l_columnsWithoutEmbeddeds (r_junctionEntityMetadata relation)))
                    (if r_isOwning relation then [ownId, relationId] else [relationId, ownId]))
                 None) s)"

definition insertJunctions ::
  "'db env \<Rightarrow> nat list \<Rightarrow> nat \<Rightarrow> junctionInsert \<Rightarrow> 'db state \<Rightarrow> (error + unit) \<times> 'db state" where
  "insertJunctions env insertSubjects i junctionInsert s =
     (case junctionOwnId env (heap s) (subjects s ! i) (ji_relation junctionInsert) of
        Inl e \<Rightarrow> (Inl e, s)
      | Inr ownId \<Rightarrow>
          if \<not> truthy ownId then (Inl notPersisted, s)
          else forEachS (insertJunctionRow env insertSubjects (ji_relation junctionInsert) ownId)
                 (ji_junctionEntities junctionInsert) s)"

definition executeInsertJunctionsOperations ::
  "'db env \<Rightarrow> nat list \<Rightarrow> 'db state \<Rightarrow> (error + unit) \<times> 'db state" where
  "executeInsertJunctionsOperations env insertSubjects s =
     forEachS (\<lambda>i st.
         forEachS (insertJunctions env insertSubjects i) (junctionInserts (subjects st ! i)) st)
       [0..<length (subjects s)] s"

text \<open>\<open>columns[0]\<close>, \<open>columns[1]\<close> followed by \<open>.fullName\<close>.\<close>

definition columnAt :: "column list \<Rightarrow> nat \<Rightarrow> error + column" where
  "columnAt cols n = (if n < length cols then Inr (cols ! n) else Inl TypeError)"

definition removeJunctions ::
  "'db env \<Rightarrow> nat \<Rightarrow> junctionRemove \<Rightarrow> 'db state \<Rightarrow> (error + unit) \<times> 'db state" where
  "removeJunctions env i junctionRemove s =
     (let sj = subjects s ! i; relation = jr_relation junctionRemove;
          junctionMetadata = r_junctionEntityMetadata relation;
          ent = (if hasEntity sj then entity sj else databaseEntity sj)
      in case getOwnEntityRelationId env relation (heap s) ent of
           Inl e \<Rightarrow> (Inl e, s)
         | Inr ownId \<Rightarrow>
             forEachS (\<lambda>relationId st.
                 case bindE (columnAt (l_columns junctionMetadata)
                               (if r_isOwning relation then 0 else 1)) (\<lambda>ownColumn.
                      bindE (columnAt (l_columns junctionMetadata)
                               (if r_isOwning relation then 1 else 0)) (\<lambda>relateColumn.
                        Inr (setKey (c_fullName relateColumn) relationId
                               [(c_fullName ownColumn, ownId)]))) of
                   Inl e \<Rightarrow> (Inl e, st)
                 | Inr conditions \<Rightarrow>
                     queryUnit env
                       (QDelete (t_name (l_table junctionMetadata)) (Some conditions)) st)
               (jr_junctionRelationIds junctionRemove) s)"

definition executeRemoveJunctionsOperations ::
  "'db env \<Rightarrow> 'db state \<Rightarrow> (error + unit) \<times> 'db state" where
  "executeRemoveJunctionsOperations env s =
     forEachS (\<lambda>i st.
         forEachS (removeJunctions env i) (junctionRemoves (subjects st ! i)) st)
       [0..<length (subjects s)] s"

section \<open>Relation-only updates\<close>

definition updateRelations :: "'db env \<Rightarrow> subject \<Rightarrow> 'db state \<Rightarrow> (error + unit) \<times> 'db state" where
  "updateRelations env sj s =
     (case foldE (\<lambda>setRelation values.
                bindE (if truthy (ru_value setRelation)
                       then getProp (heap s) (ru_value setRelation)
                              (c_propertyName
                                 (jc_referencedColumn (r_joinColumn (ru_relation setRelation))))
                       else Inr JNull) (\<lambda>v.
                  Inr (setKey (r_name (ru_relation setRelation)) v values)))
             (relationUpdates sj) [] of
        Inl e \<Rightarrow> (Inl e, s)
      | Inr values \<Rightarrow>
          (case getDatabaseEntityIdMap env (metadata sj) (heap s) (databaseEntity sj) of
             Inl e \<Rightarrow> (Inl e, s)
           | Inr None \<Rightarrow>
               (Inl (Error ''Internal error. Cannot get id of the updating entity.''), s)
           | Inr (Some idMap) \<Rightarrow>
               queryUnit env (QUpdate (tableName (metadata sj)) values idMap) s))"

definition executeUpdateRelations ::
  "'db env \<Rightarrow> nat list \<Rightarrow> 'db state \<Rightarrow> (error + unit) \<times> 'db state" where
  "executeUpdateRelations env relationUpdateSubjects s =
     forEachS (\<lambda>i st. updateRelations env (subjects st ! i) st) relationUpdateSubjects s"

section \<open>Materialization on the entities\<close>

definition setPropS :: "jsval \<Rightarrow> string \<Rightarrow> jsval \<Rightarrow> heap \<Rightarrow> (error + unit) \<times> heap" where
  "setPropS v p x h = (case setProp h v p x of Inl e \<Rightarrow> (Inl e, h) | Inr h' \<Rightarrow> (Inr (), h'))"

definition whenS :: "bool \<Rightarrow> ('s \<Rightarrow> (error + unit) \<times> 's) \<Rightarrow> 's \<Rightarrow> (error + unit) \<times> 's" where
  "whenS b m s = (if b then m s else (Inr (), s))"

text \<open>A block of statements, each run if the one before did not throw.\<close>

definition seqS :: "('s \<Rightarrow> (error + unit) \<times> 's) list \<Rightarrow> 's \<Rightarrow> (error + unit) \<times> 's" where
  "seqS ms s = forEachS (\<lambda>m. m) ms s"

definition materializeInserted :: "subject \<Rightarrow> heap \<Rightarrow> (error + unit) \<times> heap" where
  "materializeInserted sj =
     (let f = mfields (metadata sj) in
      seqS
        [whenS (truthy (generatedObjectId sj) \<and> m_hasObjectIdColumn f)
           (setPropS (entity sj) (c_propertyName (m_objectIdColumn f)) (generatedObjectId sj)),
         forEachS (\<lambda>primaryColumn.
             whenS (truthy (newlyGeneratedId sj))
               (setPropS (entity sj) (c_propertyName primaryColumn) (newlyGeneratedId sj)))
           (m_primaryColumns f),
         forEachS (\<lambda>primaryColumn.
             whenS (truthy (parentGeneratedId sj))
               (setPropS (entity sj) (c_propertyName primaryColumn) (parentGeneratedId sj)))
           (m_parentPrimaryColumns f),
         whenS (m_hasUpdateDateColumn f)
           (setPropS (entity sj) (c_propertyName (m_updateDateColumn f)) (date sj)),
         whenS (m_hasCreateDateColumn f)
           (setPropS (entity sj) (c_propertyName (m_createDateColumn f)) (date sj)),
         whenS (m_hasVersionColumn f)
           (setPropS (entity sj) (c_propertyName (m_versionColumn f)) (JNum 1)),
         whenS (m_hasTreeLevelColumn f)
           (setPropS (entity sj) (c_propertyName (m_treeLevelColumn f)) (treeLevel sj))])"

definition materializeUpdated :: "(jsval \<Rightarrow> jsval) \<Rightarrow> subject \<Rightarrow> heap \<Rightarrow> (error + unit) \<times> heap" where
  "materializeUpdated toNum sj =
     (let f = mfields (metadata sj) in
      seqS
        [whenS (m_hasUpdateDateColumn f)
           (setPropS (entity sj) (c_propertyName (m_updateDateColumn f)) (date sj)),
         whenS (m_hasVersionColumn f)
           (\<lambda>h. case getProp h (entity sj) (c_propertyName (m_versionColumn f)) of
                  Inl e \<Rightarrow> (Inl e, h)
                | Inr v \<Rightarrow> setPropS (entity sj) (c_propertyName (m_versionColumn f))
                             (jsIncrement toNum v) h)])"

definition materializeRemoved :: "subject \<Rightarrow> heap \<Rightarrow> (error + unit) \<times> heap" where
  "materializeRemoved sj =
     forEachS (\<lambda>primaryColumn. setPropS (entity sj) (c_propertyName primaryColumn) JUndefined)
       (m_primaryColumns (mfields (metadata sj)))"

definition updateSpecialColumnsInPersistedEntities ::
  "'db env \<Rightarrow> subject list \<Rightarrow> nat list \<Rightarrow> nat list \<Rightarrow> nat list \<Rightarrow> heap \<Rightarrow> (error + unit) \<times> heap" where
  "updateSpecialColumnsInPersistedEntities env subs insertSubjects updateSubjects removeSubjects =
     seqS
       [forEachS (\<lambda>i. materializeInserted (subs ! i)) insertSubjects,
        forEachS (\<lambda>i. materializeUpdated (jsToNumber env) (subs ! i)) updateSubjects,
        forEachS (\<lambda>i. materializeRemoved (subs ! i))
          (filter (\<lambda>i. hasEntity (subs ! i)) removeSubjects)]"

section \<open>execute\<close>

text \<open>Running a step on the heap of the state.\<close>

definition onHeap ::
  "(heap \<Rightarrow> (error + unit) \<times> heap) \<Rightarrow> 'db state \<Rightarrow> (error + unit) \<times> 'db state" where
  "onHeap m s = (case m (heap s) of (r, h) \<Rightarrow> (r, s\<lparr>heap := h\<rparr>))"

definition logEvent :: "event \<Rightarrow> 'db state \<Rightarrow> 'db state" where
  "logEvent ev s = s\<lparr>trace := trace s @ [ev]\<rparr>"

text \<open>A transaction call on the query runner.\<close>

definition transactionCall ::
  "('db \<Rightarrow> error option \<times> 'db) \<Rightarrow> event \<Rightarrow> 'db state \<Rightarrow> (error + unit) \<times> 'db state" where
  "transactionCall f ev s =
     (case f (db s) of
        (r, d) \<Rightarrow> ((case r of Some e \<Rightarrow> Inl e | None \<Rightarrow> Inr ()),
                   s\<lparr>db := d, trace := trace s @ [ev]\<rparr>))"

text \<open>
  The head of the \<open>try\<close> block: the query runner is obtained and, if no transaction is
  active, one is begun. The flag \<open>isTransactionStartedByItself\<close> is set before
  \<open>beginTransaction\<close> is awaited. The result carries the flag.
\<close>

definition acquireTransaction :: "'db env \<Rightarrow> 'db state \<Rightarrow> (error + unit) \<times> bool \<times> 'db state" where
  "acquireTransaction env s =
     (case provide env (db s) of
        Some e \<Rightarrow> (Inl e, False, logEvent Provide s)
      | None \<Rightarrow>
          (let s1 = logEvent IsTransactionActive (logEvent Provide s)
           in if \<not> isTransactionActive env (db s1) then
                (case transactionCall (beginTransaction env) BeginTransaction s1 of
                   (r, s2) \<Rightarrow> (r, True, s2))
              else (Inr (), False, s1)))"

text \<open>The seven phases, each awaited before the next starts.\<close>

definition executePhases ::
  "'db env \<Rightarrow> nat list \<Rightarrow> nat list \<Rightarrow> nat list \<Rightarrow> nat list \<Rightarrow> 'db state
     \<Rightarrow> (error + unit) \<times> 'db state" where
  "executePhases env insertSubjects updateSubjects removeSubjects relationUpdateSubjects =
     seqS
       [executeInsertOperations env insertSubjects,
        executeInsertClosureTableOperations env insertSubjects,
        executeInsertJunctionsOperations env insertSubjects,
        executeRemoveJunctionsOperations env,
        executeUpdateOperations env updateSubjects,
        executeUpdateRelations env relationUpdateSubjects,
        executeRemoveOperations env removeSubjects]"

definition broadcastBeforeEventsForAll ::
  "'db env \<Rightarrow> nat list \<Rightarrow> nat list \<Rightarrow> nat list \<Rightarrow> 'db state \<Rightarrow> (error + unit) \<times> 'db state" where
  "broadcastBeforeEventsForAll env ins upd rem s =
     (let s1 = logEvent (BroadcastBeforeEventsForAll ins upd rem) s
      in case broadcastBefore env (subjects s1) ins upd rem (heap s1) of
           Inl e \<Rightarrow> (Inl e, s1)
         | Inr h \<Rightarrow> (Inr (), s1\<lparr>heap := h\<rparr>))"

definition broadcastAfterEventsForAll ::
  "'db env \<Rightarrow> nat list \<Rightarrow> nat list \<Rightarrow> nat list \<Rightarrow> 'db state \<Rightarrow> (error + unit) \<times> 'db state" where
  "broadcastAfterEventsForAll env ins upd rem s =
     (let s1 = logEvent (BroadcastAfterEventsForAll ins upd rem) s
      in case broadcastAfter env (subjects s1) ins upd rem (heap s1) of
           Inl e \<Rightarrow> (Inl e, s1)
         | Inr h \<Rightarrow> (Inr (), s1\<lparr>heap := h\<rparr>))"

definition recomputeSubjects :: "'db env \<Rightarrow> nat list \<Rightarrow> 'db state \<Rightarrow> (error + unit) \<times> 'db state" where
  "recomputeSubjects env updateSubjects s =
     (Inr (), fold (\<lambda>i st. updateSubjectAt i (recompute env (heap st)) st) updateSubjects s)"

text \<open>The rest of the \<open>try\<close> block, given the flag.\<close>

definition executeBody ::
  "'db env \<Rightarrow> bool \<Rightarrow> nat list \<Rightarrow> nat list \<Rightarrow> nat list \<Rightarrow> nat list \<Rightarrow> 'db state
     \<Rightarrow> (error + unit) \<times> 'db state" where
  "executeBody env startedByItself ins upd rem rel =
     seqS
       [broadcastBeforeEventsForAll env ins upd rem,
        recomputeSubjects env upd,
        executePhases env ins upd rem rel,
        whenS startedByItself (transactionCall (commitTransaction env) CommitTransaction),
        (\<lambda>s. onHeap (updateSpecialColumnsInPersistedEntities env (subjects s) ins upd rem) s),
        broadcastAfterEventsForAll env ins upd rem]"

text \<open>
  The \<open>catch\<close> block: a rollback if the flag is set, whose own failure is dropped, and
  the caught error thrown again.
\<close>

definition catchBlock :: "'db env \<Rightarrow> bool \<Rightarrow> error \<Rightarrow> 'db state \<Rightarrow> (error + unit) \<times> 'db state" where
  "catchBlock env startedByItself e s =
     (Inl e,
      if startedByItself
      then snd (transactionCall (rollbackTransaction env) RollbackTransaction s)
      else s)"

definition nothingToExecute :: "subject list \<Rightarrow> bool" where
  "nothingToExecute subs =
     (filter mustBeInserted subs = [] \<and>
      filter mustBeUpdated subs = [] \<and>
      filter mustBeRemoved subs = [] \<and>
      filter hasRelationUpdates subs = [] \<and>
      list_all (\<lambda>sj. junctionInserts sj = []) subs \<and>
      list_all (\<lambda>sj. junctionRemoves sj = []) subs)"

definition subjectsWhere :: "(subject \<Rightarrow> bool) \<Rightarrow> subject list \<Rightarrow> nat list" where
  "subjectsWhere p subs = filter (\<lambda>i. p (subs ! i)) [0..<length subs]"

text \<open>The \<open>try\<close> block; the result carries the flag for the \<open>catch\<close> block.\<close>

definition executeTry ::
  "'db env \<Rightarrow> nat list \<Rightarrow> nat list \<Rightarrow> nat list \<Rightarrow> nat list \<Rightarrow> 'db state
     \<Rightarrow> (error + unit) \<times> bool \<times> 'db state" where
  "executeTry env ins upd rem rel s =
     (case acquireTransaction env s of
        (Inl e, startedByItself, s1) \<Rightarrow> (Inl e, startedByItself, s1)
      | (Inr u, startedByItself, s1) \<Rightarrow>
          (case executeBody env startedByItself ins upd rem rel s1 of
             (r, s2) \<Rightarrow> (r, startedByItself, s2)))"

definition execute :: "'db env \<Rightarrow> subject list \<Rightarrow> 'db state \<Rightarrow> (error + unit) \<times> 'db state" where
  "execute env subs s =
     (case List.find (\<lambda>sj. validate env sj \<noteq> None) subs of
        Some bad \<Rightarrow> (Inl (the (validate env bad)), s)
      | None \<Rightarrow>
          (let s0 = s\<lparr>subjects := subs\<rparr>
           in if nothingToExecute subs then (Inr (), s0)
              else
                (case executeTry env
                        (subjectsWhere mustBeInserted subs)
                        (subjectsWhere mustBeUpdated subs)
                        (subjectsWhere mustBeRemoved subs)
                        (subjectsWhere hasRelationUpdates subs) s0 of
                   (Inl e, startedByItself, s1) \<Rightarrow> catchBlock env startedByItself e s1
                 | (Inr u, startedByItself, s1) \<Rightarrow> (Inr (), s1))))"

text \<open>
  For stating what a step may do: it leaves the heap alone and only adds query runner
  statements to the trace.
\<close>

definition queriesOnly :: "'db state \<Rightarrow> 'db state \<Rightarrow> bool" where
  "queriesOnly s s' =
     (heap s' = heap s \<and> length (subjects s') = length (subjects s) \<and>
      (\<exists>qs. trace s' = trace s @ map Query qs))"

text \<open>The events added to the trace between two states.\<close>

definition newEvents :: "'db state \<Rightarrow> 'db state \<Rightarrow> event list" where
  "newEvents s s' = drop (length (trace s)) (trace s')"

text \<open>
  What the body of the \<open>try\<close> block may add to the trace: no begin, no rollback, and a
  commit only when the flag is set.
\<close>

definition bodyEvents :: "bool \<Rightarrow> 'db state \<Rightarrow> 'db state \<Rightarrow> bool" where
  "bodyEvents startedByItself s s' =
     (\<exists>new. trace s' = trace s @ new \<and>
        BeginTransaction \<notin> set new \<and> RollbackTransaction \<notin> set new \<and>
        (startedByItself \<or> CommitTransaction \<notin> set new))"

text \<open>
  Replaying statements on the database: the database that results when every statement
  is accepted, \<open>None\<close> as soon as one is rejected.
\<close>

fun acceptedRun :: "'db env \<Rightarrow> qcall list \<Rightarrow> 'db \<Rightarrow> 'db option" where
  "acceptedRun env [] d = Some d"
| "acceptedRun env (c # cs) d =
     (case runQuery env c d of
        (Inl e, d') \<Rightarrow> None
      | (Inr v, d') \<Rightarrow> acceptedRun env cs d')"

text \<open>A step that only issued statements, all of them accepted.\<close>

definition allAccepted :: "'db env \<Rightarrow> 'db state \<Rightarrow> 'db state \<Rightarrow> bool" where
  "allAccepted env s s' =
     (\<exists>qs. trace s' = trace s @ map Query qs \<and> acceptedRun env qs (db s) = Some (db s'))"

section \<open>Example data\<close>

text \<open>
  A small schema and heap on which the theorems below are evaluated.
\<close>

definition exColumn :: "string \<Rightarrow> column" where
  "exColumn n = Column n n n None False False False False False False False False None"

definition exTable :: "string \<Rightarrow> tableMetadata" where
  "exTable n = \<lparr>t_name = n, t_isClassTableChild = False, t_isClosure = False\<rparr>"

definition exLinked :: "string \<Rightarrow> linkedMetadata" where
  "exLinked n = \<lparr>l_table = exTable n, l_columns = [], l_columnsWithoutEmbeddeds = [],
     l_firstPrimaryColumn = exColumn ''id''\<rparr>"

definition exJoinColumn :: joinColumn where
  "exJoinColumn = \<lparr>jc_name = ''id'', jc_referencedColumn = exColumn ''id''\<rparr>"

definition exJoinTable :: joinTable where
  "exJoinTable = \<lparr>jt_referencedColumn = exColumn ''id'', jt_inverseReferencedColumn = exColumn ''id''\<rparr>"

definition exRelation :: "string \<Rightarrow> relation" where
  "exRelation n = \<lparr>r_name = n, r_propertyName = n, r_entityTarget = SchemaName ''e'',
     r_isOwning = True, r_isManyToManyOwner = False, r_isManyToManyNotOwner = False,
     r_hasInverseSide = False, r_joinColumn = exJoinColumn, r_joinTable = exJoinTable,
     r_inverseRelation = \<lparr>ir_propertyName = ''inv'', ir_target = SchemaName ''e'',
        ir_joinTable = exJoinTable, ir_joinColumn = exJoinColumn\<rparr>,
     r_inverseEntityMetadata = exLinked ''e'', r_junctionEntityMetadata = exLinked ''j''\<rparr>"

definition exFields :: "string \<Rightarrow> metadataFields" where
  "exFields n = \<lparr>m_target = SchemaName n, m_targetName = n, m_table = exTable n,
     m_hasNonNullableColumns = False, m_discriminatorValue = JUndefined,
     m_generatedColumnIfExist = None, m_hasGeneratedColumn = False,
     m_hasObjectIdColumn = False, m_objectIdColumn = exColumn ''id'',
     m_columnsWithoutEmbeddeds = [], m_embeddeds = [], m_relationsWithJoinColumns = [],
     m_hasCreateDateColumn = False, m_createDateColumn = exColumn ''createdAt'',
     m_hasUpdateDateColumn = False, m_updateDateColumn = exColumn ''updatedAt'',
     m_hasVersionColumn = False, m_versionColumn = exColumn ''version'',
     m_hasDiscriminatorColumn = False, m_discriminatorColumn = exColumn ''type'',
     m_hasTreeLevelColumn = False, m_treeLevelColumn = exColumn ''level'',
     m_hasTreeParentRelation = False, m_treeParentRelation = exRelation ''parent'',
     m_hasTreeChildrenRelation = False, m_treeChildrenRelation = exRelation ''children'',
     m_hasParentIdColumn = False, m_parentIdColumn = exColumn ''parentId'',
     m_firstPrimaryColumn = exColumn ''id'', m_primaryColumns = [exColumn ''id''],
     m_parentPrimaryColumns = [], m_primaryColumnsWithParentIdColumns = [exColumn ''id''],
     m_closureJunctionTable = exLinked (n @ ''_closure'')\<rparr>"

definition exSubject :: "metadata \<Rightarrow> jsval \<Rightarrow> subject" where
  "exSubject md e = \<lparr>metadata = md, entity = e, hasEntity = True, databaseEntity = JUndefined,
     entityTarget = m_target (mfields md), mustBeInserted = False, mustBeUpdated = False,
     mustBeRemoved = False, hasRelationUpdates = False, diffColumns = [], diffRelations = [],
     relationUpdates = [], junctionInserts = [], junctionRemoves = [],
     newlyGeneratedId = JUndefined, generatedObjectId = JUndefined,
     parentGeneratedId = JUndefined, treeLevel = JUndefined, date = JDate 1000\<rparr>"

definition exEnvOf :: "(qcall \<Rightarrow> 'db \<Rightarrow> (error + jsval) \<times> 'db) \<Rightarrow> 'db env" where
  "exEnvOf run = \<lparr>entityMetadatas = [],
     preparePersistentValue = (\<lambda>v c. v),
     columnGetEntityValue = (\<lambda>c h e. getProp h e (c_propertyName c)),
     columnHasEntityValue = (\<lambda>c h e. bindE (getProp h e (c_propertyName c)) (\<lambda>v. Inr (v \<noteq> JUndefined \<and> v \<noteq> JNull))),
     relationGetEntityValue = (\<lambda>r h e. getProp h e (r_propertyName r)),
     getOwnEntityRelationId = (\<lambda>r h e. getProp h e ''id''),
     getInverseEntityRelationId = (\<lambda>r h e. getProp h e ''id''),
     getDatabaseEntityIdMap = (\<lambda>md h e. bindE (getProp h e ''id'') (\<lambda>v. Inr (if truthy v then Some [(''id'', v)] else None))),
     getEntityIdColumnMap = (\<lambda>md h e. bindE (getProp h e ''id'') (\<lambda>v. Inr (if truthy v then Some [(''id'', v)] else None))),
     zipObject = zip,
     jsToString = (\<lambda>v. ''[object Object]''),
     jsToNumber = (\<lambda>v. JNaN),
     dateAt = (\<lambda>n. 2000 + int n),
     runQuery = run,
     isTransactionActive = (\<lambda>d. False),
     provide = (\<lambda>d. None),
     beginTransaction = (\<lambda>d. (None, d)),
     commitTransaction = (\<lambda>d. (None, d)),
     rollbackTransaction = (\<lambda>d. (None, d)),
     validate = (\<lambda>s. None),
     recompute = (\<lambda>h s. s),
     broadcastBefore = (\<lambda>ss i u r h. Inr h),
     broadcastAfter = (\<lambda>ss i u r h. Inr h),
     backPatchUpdates = (\<lambda>ss a b h. ([], None))\<rparr>"

definition exEnv :: "unit env" where
  "exEnv = exEnvOf (\<lambda>c d. (Inr JUndefined, d))"

definition exHeap :: heap where
  "exHeap = (\<lambda>r. Map.empty)(1 := [''id'' \<mapsto> JNum 7, ''title'' \<mapsto> JStr ''a'', ''version'' \<mapsto> JNum 3])"

definition exState :: "subject list \<Rightarrow> unit state" where
  "exState ss = \<lparr>heap = exHeap, subjects = ss, db = (), trace = [], clock = 0\<rparr>"

definition exCat :: metadata where
  "exCat = Metadata ((exFields ''cat'')\<lparr>m_parentPrimaryColumns := [exColumn ''id'']\<rparr>)
             (Some (Metadata (exFields ''animal'') None))"

definition exRemovedCat :: subject where
  "exRemovedCat = (exSubject exCat (JRef 1))\<lparr>mustBeRemoved := True, databaseEntity := JRef 1\<rparr>"

definition exPost :: metadata where
  "exPost = Metadata ((exFields ''post'')\<lparr>m_hasVersionColumn := True, m_hasUpdateDateColumn := True\<rparr>) None"

definition exUnchanged :: subject where
  "exUnchanged = (exSubject exPost (JRef 1))\<lparr>mustBeUpdated := True\<rparr>"

definition exChanged :: subject where
  "exChanged = (exSubject exPost (JRef 1))\<lparr>mustBeUpdated := True,
     diffColumns := [Column ''title'' ''title'' ''title'' (Some (SchemaName ''post''))
        False False False False False False False False None]\<rparr>"

definition exUpdateEnv :: "unit env" where
  "exUpdateEnv = exEnv\<lparr>entityMetadatas := [exPost]\<rparr>"

definition exIdColumn :: column where
  "exIdColumn = Column ''id'' ''id'' ''id'' None True False False False False False False False None"

definition exTag :: metadata where
  "exTag = Metadata ((exFields ''tag'')\<lparr>m_hasGeneratedColumn := True,
       m_generatedColumnIfExist := Some exIdColumn,
       m_columnsWithoutEmbeddeds := [exColumn ''name'']\<rparr>) None"

definition exTagRelation :: relation where
  "exTagRelation = (exRelation ''tag'')\<lparr>r_joinColumn :=
       \<lparr>jc_name = ''tag'', jc_referencedColumn = exIdColumn\<rparr>\<rparr>"

definition exNote :: metadata where
  "exNote = Metadata ((exFields ''note'')\<lparr>m_hasNonNullableColumns := True,
       m_columnsWithoutEmbeddeds := [exColumn ''text''],
       m_relationsWithJoinColumns := [exTagRelation]\<rparr>) None"

definition exInsertHeap :: heap where
  "exInsertHeap = (\<lambda>r. Map.empty)
     (2 := [''name'' \<mapsto> JStr ''t''],
      3 := [''text'' \<mapsto> JStr ''n'', ''tag'' \<mapsto> JRef 2])"

definition exNewTag :: subject where
  "exNewTag = (exSubject exTag (JRef 2))\<lparr>mustBeInserted := True\<rparr>"

definition exNewNote :: subject where
  "exNewNote = (exSubject exNote (JRef 3))\<lparr>mustBeInserted := True\<rparr>"

definition exInsertState :: "unit state" where
  "exInsertState = \<lparr>heap = exInsertHeap, subjects = [exNewNote, exNewTag], db = (), trace = [], clock = 0\<rparr>"

definition exInsertEnv :: "unit env" where
  "exInsertEnv = exEnv\<lparr>runQuery := (\<lambda>c d.
       case c of
         QInsert t v g \<Rightarrow> (if t = ''tag'' then Inr (JNum 5) else Inr JUndefined, d)
       | _ \<Rightarrow> (Inr JUndefined, d))\<rparr>"

definition exRejectEnv :: "unit env" where
  "exRejectEnv = exEnv\<lparr>runQuery := (\<lambda>c d.
       case c of
         QInsert t v g \<Rightarrow> (if t = ''note'' then Inl (Rejected 1) else Inr (JNum 5), d)
       | _ \<Rightarrow> (Inr JUndefined, d)),
     rollbackTransaction := (\<lambda>d. (Some (Rejected 9), d))\<rparr>"

definition exSubs :: "subject list" where
  "exSubs = [exNewNote, exNewTag]"

definition exAcquired :: "unit state" where
  "exAcquired = snd (snd (acquireTransaction exRejectEnv (exInsertState\<lparr>subjects := exSubs\<rparr>)))"

definition exBroadcast :: "unit state" where
  "exBroadcast =
     snd (broadcastBeforeEventsForAll exRejectEnv (subjectsWhere mustBeInserted exSubs)
            (subjectsWhere mustBeUpdated exSubs) (subjectsWhere mustBeRemoved exSubs) exAcquired)"

definition exPhases :: "(error + unit) \<times> unit state" where
  "exPhases =
     executePhases exRejectEnv (subjectsWhere mustBeInserted exSubs)
       (subjectsWhere mustBeUpdated exSubs) (subjectsWhere mustBeRemoved exSubs)
       (subjectsWhere hasRelationUpdates exSubs)
       (snd (recomputeSubjects exRejectEnv (subjectsWhere mustBeUpdated exSubs) exBroadcast))"

definition exCategoryTree :: metadata where
  "exCategoryTree = Metadata ((exFields ''category'')\<lparr>
       m_table := \<lparr>t_name = ''category'', t_isClassTableChild = False, t_isClosure = True\<rparr>,
       m_hasGeneratedColumn := True, m_generatedColumnIfExist := Some exIdColumn,
       m_hasTreeLevelColumn := True, m_hasTreeParentRelation := True,
       m_treeParentRelation := (exRelation ''parentCategory'')\<lparr>r_joinColumn :=
          \<lparr>jc_name = ''parentCategory'', jc_referencedColumn = exIdColumn\<rparr>\<rparr>,
       m_hasTreeChildrenRelation := True,
       m_treeChildrenRelation := exRelation ''childCategories''\<rparr>) None"

definition exClosureEnv :: "closureRow list env" where
  "exClosureEnv = exEnvOf (\<lambda>c d.
       case c of
         QInsertIntoClosureTable t n p h \<Rightarrow> insertIntoClosureTable n p h d
       | _ \<Rightarrow> (Inr JUndefined, d))"

definition exTreeHeap :: heap where
  "exTreeHeap = (\<lambda>r. Map.empty)
     (10 := [''id'' \<mapsto> JNum 1],
      11 := [''parentCategory'' \<mapsto> JRef 10],
      12 := [''parentCategory'' \<mapsto> JRef 13],
      14 := [''id'' \<mapsto> JNum 3])"


definition exUnsavedParentState :: "closureRow list state" where
  "exUnsavedParentState =
     \<lparr>heap = exTreeHeap,
      subjects = [(exSubject exCategoryTree (JRef 12))
                    \<lparr>mustBeInserted := True, newlyGeneratedId := JNum 4\<rparr>],
      db = [(1, 1, Some 1)], trace = [], clock = 0\<rparr>"

definition exRootState :: "closureRow list state" where
  "exRootState =
     \<lparr>heap = exTreeHeap,
      subjects = [(exSubject exCategoryTree (JRef 14))\<lparr>mustBeInserted := True\<rparr>],
      db = [(1, 1, Some 1)], trace = [], clock = 0\<rparr>"

definition exJunction :: linkedMetadata where
  "exJunction = \<lparr>l_table = exTable ''post_categories'',
     l_columns = [exColumn ''postId'', exColumn ''categoryId''],
     l_columnsWithoutEmbeddeds = [exColumn ''postId'', exColumn ''categoryId''],
     l_firstPrimaryColumn = exColumn ''postId''\<rparr>"

definition exCategories :: relation where
  "exCategories = (exRelation ''categories'')\<lparr>r_isOwning := True, r_isManyToManyOwner := True,
     r_junctionEntityMetadata := exJunction\<rparr>"

definition exPosts :: relation where
  "exPosts = (exRelation ''posts'')\<lparr>r_isOwning := False, r_isManyToManyNotOwner := True,
     r_junctionEntityMetadata := exJunction\<rparr>"

definition exLinkCategories :: junctionInsert where
  "exLinkCategories = \<lparr>ji_relation = exCategories, ji_junctionEntities = [JRef 4]\<rparr>"

definition exLinkPosts :: junctionInsert where
  "exLinkPosts = \<lparr>ji_relation = exPosts, ji_junctionEntities = [JRef 1]\<rparr>"

definition exLinkUnsaved :: junctionInsert where
  "exLinkUnsaved = \<lparr>ji_relation = exCategories, ji_junctionEntities = [JRef 4, JRef 5]\<rparr>"

definition exJunctionState :: "unit state" where
  "exJunctionState =
     \<lparr>heap = (\<lambda>r. Map.empty)(1 := [''id'' \<mapsto> JNum 7], 4 := [''id'' \<mapsto> JNum 9]),
      subjects =
        [(exSubject (Metadata (exFields ''post'') None) (JRef 1))
            \<lparr>junctionInserts := [exLinkCategories]\<rparr>,
         (exSubject (Metadata (exFields ''category'') None) (JRef 4))
            \<lparr>junctionInserts := [exLinkPosts]\<rparr>,
         (exSubject (Metadata (exFields ''post'') None) (JRef 1))
            \<lparr>junctionInserts := [exLinkUnsaved]\<rparr>],
      db = (), trace = [], clock = 0\<rparr>"

definition exGenJoinTable :: joinTable where
  "exGenJoinTable = \<lparr>jt_referencedColumn = exIdColumn, jt_inverseReferencedColumn = exIdColumn\<rparr>"

definition exGenCategories :: relation where
  "exGenCategories = exCategories\<lparr>r_joinTable := exGenJoinTable\<rparr>"

definition exLinkNew :: junctionInsert where
  "exLinkNew = \<lparr>ji_relation = exGenCategories, ji_junctionEntities = [JRef 21, JRef 4]\<rparr>"

definition exNewLinkState :: "unit state" where
  "exNewLinkState =
     \<lparr>heap = (\<lambda>r. Map.empty)(4 := [''id'' \<mapsto> JNum 9]),
      subjects =
        [(exSubject (Metadata (exFields ''post'') None) (JRef 20))
            \<lparr>mustBeInserted := True, newlyGeneratedId := JNum 5, junctionInserts := [exLinkNew]\<rparr>,
         (exSubject (Metadata (exFields ''category'') None) (JRef 21))
            \<lparr>mustBeInserted := True, newlyGeneratedId := JNum 6\<rparr>],
      db = (), trace = [], clock = 0\<rparr>"

definition exDanglingSubs :: "subject list" where
  "exDanglingSubs =
     [(exSubject (Metadata (exFields ''post'') None) (JRef 1))\<lparr>junctionInserts := [exLinkUnsaved]\<rparr>]"

definition exDanglingAcquired :: "unit state" where
  "exDanglingAcquired =
     snd (snd (acquireTransaction exEnv (exJunctionState\<lparr>subjects := exDanglingSubs\<rparr>)))"

definition exDanglingBroadcast :: "unit state" where
  "exDanglingBroadcast =
     snd (broadcastBeforeEventsForAll exEnv (subjectsWhere mustBeInserted exDanglingSubs)
            (subjectsWhere mustBeUpdated exDanglingSubs) (subjectsWhere mustBeRemoved exDanglingSubs)
            exDanglingAcquired)"

definition exDanglingInserted :: "unit state" where
  "exDanglingInserted =
     snd (executeInsertOperations exEnv (subjectsWhere mustBeInserted exDanglingSubs)
            (snd (recomputeSubjects exEnv (subjectsWhere mustBeUpdated exDanglingSubs)
                    exDanglingBroadcast)))"

definition exDanglingClosure :: "unit state" where
  "exDanglingClosure =
     snd (executeInsertClosureTableOperations exEnv (subjectsWhere mustBeInserted exDanglingSubs)
            exDanglingInserted)"

section \<open>Auxiliary facts\<close>

lemmas ex_defs = exColumn_def exTable_def exLinked_def exJoinColumn_def exJoinTable_def
  exRelation_def exFields_def exSubject_def exEnvOf_def exEnv_def exHeap_def exState_def exCat_def



lemmas ex2_defs = exRemovedCat_def exPost_def exUnchanged_def exChanged_def exUpdateEnv_def


lemma setValue_tables:
  "set (map fst (setValue vms t md k v)) = insert t (set (map fst vms))"
  by (induction vms t md k v rule: setValue.induct) auto

lemma addUpdateDate_tables:
  assumes "addUpdateDate env md vms s = (vms', s')"
  shows "set (map fst vms') =
           (if m_hasUpdateDateColumn (mfields md) then insert (tableName md) (set (map fst vms))
            else set (map fst vms))"
proof (cases "m_hasUpdateDateColumn (mfields md)")
  case True
  with assms have "vms' = setValue vms (tableName md) md (c_fullName (m_updateDateColumn (mfields md)))
      (preparePersistentValue env (JDate (dateAt env (clock s))) (m_updateDateColumn (mfields md)))"
    by (simp add: addUpdateDate_def newDate_def)
  with True show ?thesis by (simp only: setValue_tables if_True)
next
  case False
  with assms show ?thesis by (simp add: addUpdateDate_def)
qed

lemma addUpdateDate_state:
  assumes "addUpdateDate env md vms s = (vms', s')"
  shows "trace s' = trace s \<and> heap s' = heap s \<and> subjects s' = subjects s \<and> db s' = db s"
  using assms by (cases "m_hasUpdateDateColumn (mfields md)") (auto simp: addUpdateDate_def newDate_def)

lemma addVersion_tables:
  assumes "addVersion env md h ent vms = Inr vms'"
  shows "set (map fst vms') =
           (if m_hasVersionColumn (mfields md) then insert (tableName md) (set (map fst vms))
            else set (map fst vms))"
proof (cases "m_hasVersionColumn (mfields md)")
  case True
  with assms obtain x where
    "vms' = setValue vms (tableName md) md (c_fullName (m_versionColumn (mfields md))) x"
    by (cases "getProp h ent (c_propertyName (m_versionColumn (mfields md)))")
       (auto simp: addVersion_def bindE_def)
  with True show ?thesis by (simp only: setValue_tables if_True)
next
  case False
  with assms show ?thesis by (simp add: addVersion_def)
qed

lemma addSpecial_tables:
  assumes "addSpecial env md ent vms s = (Inr vms', s')"
  shows "set (map fst vms') =
           (if m_hasVersionColumn (mfields md) \<or> m_hasUpdateDateColumn (mfields md)
            then insert (tableName md) (set (map fst vms))
            else set (map fst vms))"
proof -
  obtain vms1 s1 where u: "addUpdateDate env md vms s = (vms1, s1)"
    by (cases "addUpdateDate env md vms s")
  with assms have v: "addVersion env md (heap s1) ent vms1 = Inr vms'"
    by (auto simp: addSpecial_def)
  show ?thesis
    unfolding addVersion_tables[OF v] addUpdateDate_tables[OF u]
    by (cases "m_hasVersionColumn (mfields md)"; cases "m_hasUpdateDateColumn (mfields md)") simp_all
qed

lemma addSpecial_state:
  assumes "addSpecial env md ent vms s = (r, s')"
  shows "trace s' = trace s \<and> heap s' = heap s \<and> subjects s' = subjects s \<and> db s' = db s"
proof -
  obtain vms1 s1 where u: "addUpdateDate env md vms s = (vms1, s1)"
    by (cases "addUpdateDate env md vms s")
  with assms have "s' = s1" by (auto simp: addSpecial_def)
  with addUpdateDate_state[OF u] show ?thesis by simp
qed

lemma query_state:
  assumes "query env c s = (r, s')"
  shows "trace s' = trace s @ [Query c] \<and> heap s' = heap s \<and> subjects s' = subjects s
         \<and> clock s' = clock s \<and> r = fst (runQuery env c (db s)) \<and> db s' = snd (runQuery env c (db s))"
  using assms unfolding query_def
  by (cases "runQuery env c (db s)") auto

lemma queryUnit_state:
  assumes "queryUnit env c s = (r, s')"
  shows "trace s' = trace s @ [Query c] \<and> heap s' = heap s \<and> subjects s' = subjects s
         \<and> clock s' = clock s \<and> db s' = snd (runQuery env c (db s))"
proof -
  obtain r0 s0 where q: "query env c s = (r0, s0)" by (cases "query env c s")
  with assms have "s' = s0" by (cases r0) (auto simp: queryUnit_def)
  with query_state[OF q] show ?thesis by simp
qed


lemma issueUpdate_state:
  assumes "issueUpdate env ent vm s = (Inr u, s')"
  shows "heap s' = heap s \<and> subjects s' = subjects s \<and>
         (\<exists>idMap. getDatabaseEntityIdMap env (fst (snd vm)) (heap s) ent = Inr (Some idMap) \<and>
                  trace s' = trace s @ [Query (QUpdate (fst vm) (snd (snd vm)) idMap)])"
proof -
  obtain t md vals where vm: "vm = (t, md, vals)" by (cases vm)
  show ?thesis
  proof (cases "getDatabaseEntityIdMap env md (heap s) ent")
    case (Inl e)
    with assms vm show ?thesis by (simp add: issueUpdate_def)
  next
    case (Inr m)
    show ?thesis
    proof (cases m)
      case None
      with Inr assms vm show ?thesis by (simp add: issueUpdate_def)
    next
      case (Some idMap)
      with Inr assms vm have "queryUnit env (QUpdate t vals idMap) s = (Inr u, s')"
        by (simp add: issueUpdate_def)
      from queryUnit_state[OF this] Inr Some vm show ?thesis by simp
    qed
  qed
qed

lemma issueUpdates_trace:
  "forEachS (issueUpdate env ent) vms s = (Inr u, s') \<Longrightarrow>
   \<exists>new. trace s' = trace s @ new \<and> length new = length vms \<and>
     (\<forall>vm \<in> set vms. \<exists>idMap. Query (QUpdate (fst vm) (snd (snd vm)) idMap) \<in> set new)"
proof (induction vms arbitrary: s)
  case Nil
  then show ?case by simp
next
  case (Cons vm vms)
  obtain r1 s1 where a0: "issueUpdate env ent vm s = (r1, s1)"
    by (cases "issueUpdate env ent vm s")
  with Cons.prems obtain u1 where r1: "r1 = Inr u1"
    by (cases r1) auto
  with a0 Cons.prems have b: "forEachS (issueUpdate env ent) vms s1 = (Inr u, s')"
    by simp
  from issueUpdate_state a0 r1 obtain idMap where
    t1: "trace s1 = trace s @ [Query (QUpdate (fst vm) (snd (snd vm)) idMap)]" by blast
  from Cons.IH[OF b] obtain new where
    t2: "trace s' = trace s1 @ new" and l2: "length new = length vms" and
    m2: "\<forall>vm \<in> set vms. \<exists>idMap. Query (QUpdate (fst vm) (snd (snd vm)) idMap) \<in> set new"
    by blast
  let ?new = "Query (QUpdate (fst vm) (snd (snd vm)) idMap) # new"
  have "trace s' = trace s @ ?new" using t1 t2 by simp
  moreover have "length ?new = length (vm # vms)" using l2 by simp
  moreover have "\<forall>x \<in> set (vm # vms). \<exists>idMap. Query (QUpdate (fst x) (snd (snd x)) idMap) \<in> set ?new"
  proof
    fix x assume "x \<in> set (vm # vms)"
    then consider "x = vm" | "x \<in> set vms" by auto
    then show "\<exists>idMap. Query (QUpdate (fst x) (snd (snd x)) idMap) \<in> set ?new"
    proof cases
      case 1
      then show ?thesis by (intro exI[of _ idMap]) simp
    next
      case 2
      with m2 obtain im where "Query (QUpdate (fst x) (snd (snd x)) im) \<in> set new" by blast
      then show ?thesis by (intro exI[of _ im]) simp
    qed
  qed
  ultimately show ?case by blast
qed

lemma updateSubject_success:
  assumes "updateSubject env sj s = (Inr u, s')" and "updateDiffs env (heap s) sj = Inr vms"
    and "vms \<noteq> []"
  shows "\<exists>vms1 s1 vms2 s2.
           addSpecial env (metadata sj) (entity sj) vms s = (Inr vms1, s1) \<and>
           (case parentEntityMetadata (metadata sj) of
              None \<Rightarrow> (Inr vms1, s1)
            | Some pm \<Rightarrow> addSpecial env pm (entity sj) vms1 s1) = (Inr vms2, s2) \<and>
           forEachS (issueUpdate env (entity sj)) vms2 s2 = (Inr u, s')"
proof -
  obtain r1 s1 where a: "addSpecial env (metadata sj) (entity sj) vms s = (r1, s1)"
    by (cases "addSpecial env (metadata sj) (entity sj) vms s")
  with assms obtain vms1 where r1: "r1 = Inr vms1"
    by (cases r1) (auto simp: updateSubject_def)
  obtain r2 s2 where b: "(case parentEntityMetadata (metadata sj) of
              None \<Rightarrow> (Inr vms1, s1)
            | Some pm \<Rightarrow> addSpecial env pm (entity sj) vms1 s1) = (r2, s2)"
    by (cases "(case parentEntityMetadata (metadata sj) of
              None \<Rightarrow> (Inr vms1, s1)
            | Some pm \<Rightarrow> addSpecial env pm (entity sj) vms1 s1)")
  with assms a r1 obtain vms2 where r2: "r2 = Inr vms2"
    by (cases r2) (auto simp: updateSubject_def)
  from assms a r1 b r2 have "forEachS (issueUpdate env (entity sj)) vms2 s2 = (Inr u, s')"
    by (simp add: updateSubject_def)
  with a r1 b r2 show ?thesis by blast
qed

lemma exRemove_eval:
  "removeSubject exEnv exRemovedCat (exState []) =
     (Inr (), (exState [])\<lparr>trace :=
        [Query (QDelete ''animal'' (Some [(''id'', JNum 7)])),
         Query (QDelete ''cat'' (Some [(''id'', JNum 7)]))]\<rparr>)"
  by (simp add: ex_defs ex2_defs removeSubject_def queryUnit_def query_def conditionsOf_def bindE_def getProp_def)

lemma exUnchanged_eval:
  "updateDiffs exUpdateEnv (heap (exState [])) exUnchanged = Inr []"
  by (simp add: ex_defs ex2_defs updateDiffs_def bindE_def)

lemma exChanged_diffs:
  "updateDiffs exUpdateEnv (heap (exState [])) exChanged = Inr [(''post'', exPost, [(''title'', JStr ''a'')])]"
  by (simp add: ex_defs ex2_defs updateDiffs_def bindE_def getMetadata_def getProp_def tableName_def)

lemma exChanged_eval:
  "updateSubject exUpdateEnv exChanged (exState []) =
     (Inr (), (exState [])\<lparr>trace :=
        [Query (QUpdate ''post''
           [(''title'', JStr ''a''), (''updatedAt'', JDate 2000), (''version'', JNum 4)]
           [(''id'', JNum 7)])], clock := 1\<rparr>)"
  unfolding updateSubject_def exChanged_diffs
  by (simp add: ex_defs ex2_defs addSpecial_def addUpdateDate_def addVersion_def newDate_def
        issueUpdate_def queryUnit_def query_def bindE_def getProp_def tableName_def jsPlusOne_def)

lemma qo_refl: "queriesOnly s s"
  by (simp add: queriesOnly_def)

lemma qo_trans: "queriesOnly s s1 \<Longrightarrow> queriesOnly s1 s2 \<Longrightarrow> queriesOnly s s2"
proof -
  assume a: "queriesOnly s s1" and b: "queriesOnly s1 s2"
  from a obtain qs1 where 1: "trace s1 = trace s @ map Query qs1" by (auto simp: queriesOnly_def)
  from b obtain qs2 where 2: "trace s2 = trace s1 @ map Query qs2" by (auto simp: queriesOnly_def)
  from 1 2 have "trace s2 = trace s @ map Query (qs1 @ qs2)" by simp
  then have "\<exists>qs. trace s2 = trace s @ map Query qs" by blast
  with a b show ?thesis by (simp add: queriesOnly_def)
qed

lemma qo_query: "query env c s = (r, s') \<Longrightarrow> queriesOnly s s'"
proof -
  assume "query env c s = (r, s')"
  from query_state[OF this] have "heap s' = heap s" "subjects s' = subjects s"
    "trace s' = trace s @ map Query [c]" by simp_all
  then show ?thesis unfolding queriesOnly_def by (intro conjI exI[of _ "[c]"]) simp_all
qed

lemma qo_queryUnit: "queryUnit env c s = (r, s') \<Longrightarrow> queriesOnly s s'"
proof -
  assume "queryUnit env c s = (r, s')"
  from queryUnit_state[OF this] have "heap s' = heap s" "subjects s' = subjects s"
    "trace s' = trace s @ map Query [c]" by simp_all
  then show ?thesis unfolding queriesOnly_def by (intro conjI exI[of _ "[c]"]) simp_all
qed

lemma qo_updateSubjectAt: "queriesOnly s (updateSubjectAt i f s)"
  by (simp add: queriesOnly_def updateSubjectAt_def)

lemma qo_forEachS:
  assumes "\<And>x s r s'. f x s = (r, s') \<Longrightarrow> queriesOnly s s'"
  shows "forEachS f xs s = (r, s') \<Longrightarrow> queriesOnly s s'"
proof (induction xs arbitrary: s)
  case Nil
  then show ?case by (simp add: qo_refl)
next
  case (Cons x xs)
  obtain r1 s1 where a: "f x s = (r1, s1)" by (cases "f x s")
  note q1 = assms[OF a]
  show ?case
  proof (cases r1)
    case (Inl e)
    with a Cons.prems have "s' = s1" by simp
    with q1 show ?thesis by simp
  next
    case (Inr u)
    with a Cons.prems have "forEachS f xs s1 = (r, s')" by simp
    from qo_trans[OF q1 Cons.IH[OF this]] show ?thesis .
  qed
qed

lemma qo_seqS:
  "\<forall>m \<in> set ms. \<forall>s r s'. m s = (r, s') \<longrightarrow> queriesOnly s s' \<Longrightarrow>
   seqS ms s = (r, s') \<Longrightarrow> queriesOnly s s'"
proof (induction ms arbitrary: s)
  case Nil
  then show ?case by (simp add: qo_refl seqS_def)
next
  case (Cons m ms)
  obtain r1 s1 where a: "m s = (r1, s1)" by (cases "m s")
  from Cons.prems(1) a have q1: "queriesOnly s s1" by simp
  from Cons.prems(1) have rest: "\<forall>m \<in> set ms. \<forall>s r s'. m s = (r, s') \<longrightarrow> queriesOnly s s'"
    by simp
  show ?case
  proof (cases r1)
    case (Inl e)
    with a Cons.prems(2) have "s' = s1" by (simp add: seqS_def)
    with q1 show ?thesis by simp
  next
    case (Inr u)
    with a Cons.prems(2) have "seqS ms s1 = (r, s')" by (simp add: seqS_def)
    from qo_trans[OF q1 Cons.IH[OF rest this]] show ?thesis .
  qed
qed

lemma qo_removeSubject: "removeSubject env sj s = (r, s') \<Longrightarrow> queriesOnly s s'"
  unfolding removeSubject_def
  by (auto split: option.splits sum.splits prod.splits
           intro: qo_refl dest!: qo_queryUnit elim: qo_trans)


lemma qo_insertSubject: "insertSubject env i already s = (r, s') \<Longrightarrow> queriesOnly s s'"
  unfolding insertSubject_def Let_def
  by (auto split: option.splits sum.splits prod.splits if_splits
           intro: qo_refl qo_trans[OF _ qo_updateSubjectAt] dest!: qo_query elim: qo_trans)

lemma qo_executeInsertOperations:
  assumes "executeInsertOperations env ins s = (r, s')"
  shows "queriesOnly s s'"
proof -
  let ?first = "firstInsertSubjects (subjects s) ins"
  let ?second = "secondInsertSubjects (subjects s) ins"
  obtain r1 s1 where a: "forEachS (\<lambda>i. insertSubject env i []) ?first s = (r1, s1)"
    by (cases "forEachS (\<lambda>i. insertSubject env i []) ?first s")
  have q1: "queriesOnly s s1" using qo_forEachS[OF qo_insertSubject a] .
  show ?thesis
  proof (cases r1)
    case (Inl e)
    with a assms have "s' = s1" by (simp add: executeInsertOperations_def)
    with q1 show ?thesis by simp
  next
    case (Inr u)
    obtain r2 s2 where b: "forEachS (\<lambda>i. insertSubject env i ?first) ?second s1 = (r2, s2)"
      by (cases "forEachS (\<lambda>i. insertSubject env i ?first) ?second s1")
    have q2: "queriesOnly s s2" using qo_trans[OF q1 qo_forEachS[OF qo_insertSubject b]] .
    show ?thesis
    proof (cases r2)
      case (Inl e)
      with a Inr b assms have "s' = s2" by (simp add: executeInsertOperations_def)
      with q2 show ?thesis by simp
    next
      case r2: (Inr u2)
      obtain updates thrown where
        bp: "backPatchUpdates env (subjects s2) ?first ins (heap s2) = (updates, thrown)"
        by (cases "backPatchUpdates env (subjects s2) ?first ins (heap s2)")
      obtain r3 s3 where c: "forEachS (queryUnit env) updates s2 = (r3, s3)"
        by (cases "forEachS (queryUnit env) updates s2")
      have q3: "queriesOnly s s3" using qo_trans[OF q2 qo_forEachS[OF qo_queryUnit c]] .
      from a Inr b r2 bp c assms have "s' = s3"
        by (cases r3; cases thrown) (auto simp: executeInsertOperations_def)
      with q3 show ?thesis by simp
    qed
  qed
qed

lemma qo_insertClosureTableValues:
  assumes "insertClosureTableValues env ins i s = (r, s')"
  shows "queriesOnly s s'"
proof (cases "closureNewEntityId (heap s) (subjects s ! i)")
  case (Inl e)
  with assms show ?thesis by (simp add: insertClosureTableValues_def Let_def qo_refl)
next
  case newId: (Inr newEntityId)
  show ?thesis
  proof (cases "closureParentEntityId (heap s) (subjects s) ins (subjects s ! i)")
    case (Inl e)
    with newId assms show ?thesis by (simp add: insertClosureTableValues_def Let_def qo_refl)
  next
    case parentId: (Inr parentEntityId)
    let ?f = "mfields (metadata (subjects s ! i))"
    let ?c = "QInsertIntoClosureTable (t_name (l_table (m_closureJunctionTable ?f)))
                newEntityId parentEntityId (m_hasTreeLevelColumn ?f)"
    obtain r1 s1 where q: "query env ?c s = (r1, s1)" by (cases "query env ?c s")
    note q1 = qo_query[OF q]
    show ?thesis
    proof (cases r1)
      case (Inl e)
      with newId parentId q assms have "s' = s1"
        by (simp add: insertClosureTableValues_def Let_def)
      with q1 show ?thesis by simp
    next
      case (Inr level)
      let ?s2 = "updateSubjectAt i (\<lambda>x. x\<lparr>treeLevel := level\<rparr>) s1"
      have q2: "queriesOnly s ?s2" using qo_trans[OF q1 qo_updateSubjectAt] .
      show ?thesis
      proof (cases "m_hasTreeLevelColumn ?f")
        case True
        with newId parentId q Inr assms have
          "queryUnit env (QUpdate (t_name (m_table ?f)) [(c_fullName (m_treeLevelColumn ?f), level)]
              [(c_fullName (jc_referencedColumn (r_joinColumn (m_treeParentRelation ?f))), newEntityId)])
             ?s2 = (r, s')"
          by (simp add: insertClosureTableValues_def Let_def)
        from qo_trans[OF q2 qo_queryUnit[OF this]] show ?thesis .
      next
        case False
        with newId parentId q Inr assms have "s' = ?s2"
          by (simp add: insertClosureTableValues_def Let_def)
        with q2 show ?thesis by simp
      qed
    qed
  qed
qed

lemma qo_executeInsertClosureTableOperations:
  "executeInsertClosureTableOperations env ins s = (r, s') \<Longrightarrow> queriesOnly s s'"
  unfolding executeInsertClosureTableOperations_def
  by (rule qo_forEachS[OF qo_insertClosureTableValues])

lemma qo_insertJunctionRow:
  "insertJunctionRow env ins relation ownId e s = (r, s') \<Longrightarrow> queriesOnly s s'"
  unfolding insertJunctionRow_def
  by (auto split: sum.splits if_splits intro: qo_refl dest!: qo_queryUnit)

lemma qo_insertJunctions:
  assumes "insertJunctions env ins i ji s = (r, s')"
  shows "queriesOnly s s'"
proof (cases "junctionOwnId env (heap s) (subjects s ! i) (ji_relation ji)")
  case (Inl e)
  with assms show ?thesis by (simp add: insertJunctions_def qo_refl)
next
  case (Inr ownId)
  show ?thesis
  proof (cases "truthy ownId")
    case False
    with Inr assms show ?thesis by (simp add: insertJunctions_def qo_refl)
  next
    case True
    with Inr assms have
      "forEachS (insertJunctionRow env ins (ji_relation ji) ownId) (ji_junctionEntities ji) s = (r, s')"
      by (simp add: insertJunctions_def)
    from qo_forEachS[OF qo_insertJunctionRow this] show ?thesis .
  qed
qed

lemma qo_executeInsertJunctionsOperations:
  "executeInsertJunctionsOperations env ins s = (r, s') \<Longrightarrow> queriesOnly s s'"
  unfolding executeInsertJunctionsOperations_def
  by (rule qo_forEachS[OF qo_forEachS[OF qo_insertJunctions]])

lemma qo_removeJunctions:
  "removeJunctions env i jr s = (r, s') \<Longrightarrow> queriesOnly s s'"
proof -
  assume a: "removeJunctions env i jr s = (r, s')"
  have step: "\<And>f x st r st'. (case f x of Inl e \<Rightarrow> (Inl e, st)
       | Inr conditions \<Rightarrow> queryUnit env (QDelete (t_name (l_table (r_junctionEntityMetadata (jr_relation jr)))) (Some conditions)) st) = (r, st')
     \<Longrightarrow> queriesOnly st st'"
    by (auto split: sum.splits intro: qo_refl dest!: qo_queryUnit)
  show ?thesis
  proof (cases "getOwnEntityRelationId env (jr_relation jr) (heap s)
                  (if hasEntity (subjects s ! i) then entity (subjects s ! i)
                   else databaseEntity (subjects s ! i))")
    case (Inl e)
    with a show ?thesis by (simp add: removeJunctions_def Let_def qo_refl)
  next
    case (Inr ownId)
    with a show ?thesis
      unfolding removeJunctions_def Let_def
      by (simp) (erule qo_forEachS[rotated], erule step)
  qed
qed

lemma qo_executeRemoveJunctionsOperations:
  "executeRemoveJunctionsOperations env s = (r, s') \<Longrightarrow> queriesOnly s s'"
  unfolding executeRemoveJunctionsOperations_def
  by (rule qo_forEachS[OF qo_forEachS[OF qo_removeJunctions]])


lemma qo_addSpecial: "addSpecial env md ent vms s = (r, s') \<Longrightarrow> queriesOnly s s'"
proof -
  assume "addSpecial env md ent vms s = (r, s')"
  from addSpecial_state[OF this] have "heap s' = heap s" "subjects s' = subjects s"
    "trace s' = trace s @ map Query []" by simp_all
  then show ?thesis unfolding queriesOnly_def by (intro conjI exI[of _ "[]"]) simp_all
qed

lemma qo_issueUpdate: "issueUpdate env ent vm s = (r, s') \<Longrightarrow> queriesOnly s s'"
  unfolding issueUpdate_def
  by (auto split: prod.splits sum.splits option.splits intro: qo_refl dest!: qo_queryUnit)

lemma qo_updateSubject:
  assumes "updateSubject env sj s = (r, s')"
  shows "queriesOnly s s'"
proof (cases "updateDiffs env (heap s) sj")
  case (Inl e)
  with assms show ?thesis by (simp add: updateSubject_def qo_refl)
next
  case (Inr vms)
  show ?thesis
  proof (cases "vms = []")
    case True
    with Inr assms show ?thesis by (simp add: updateSubject_def qo_refl)
  next
    case False
    obtain r1 s1 where a: "addSpecial env (metadata sj) (entity sj) vms s = (r1, s1)"
      by (cases "addSpecial env (metadata sj) (entity sj) vms s")
    note q1 = qo_addSpecial[OF a]
    show ?thesis
    proof (cases r1)
      case (Inl e)
      with Inr False a assms have "s' = s1" by (simp add: updateSubject_def)
      with q1 show ?thesis by simp
    next
      case r1: (Inr vms1)
      let ?p = "(case parentEntityMetadata (metadata sj) of
                   None \<Rightarrow> (Inr vms1, s1)
                 | Some pm \<Rightarrow> addSpecial env pm (entity sj) vms1 s1)"
      obtain r2 s2 where b: "?p = (r2, s2)" by (cases ?p)
      have "queriesOnly s1 s2"
        using b by (cases "parentEntityMetadata (metadata sj)") (auto intro: qo_refl qo_addSpecial)
      with q1 have q2: "queriesOnly s s2" by (rule qo_trans)
      show ?thesis
      proof (cases r2)
        case (Inl e)
        with Inr False a r1 b assms have "s' = s2" by (simp add: updateSubject_def)
        with q2 show ?thesis by simp
      next
        case r2: (Inr vms2)
        with Inr False a r1 b assms have
          "forEachS (issueUpdate env (entity sj)) vms2 s2 = (r, s')"
          by (simp add: updateSubject_def)
        from qo_trans[OF q2 qo_forEachS[OF qo_issueUpdate this]] show ?thesis .
      qed
    qed
  qed
qed

lemma qo_executeUpdateOperations:
  "executeUpdateOperations env upd s = (r, s') \<Longrightarrow> queriesOnly s s'"
  unfolding executeUpdateOperations_def
  by (rule qo_forEachS[OF qo_updateSubject])

lemma qo_updateRelations: "updateRelations env sj s = (r, s') \<Longrightarrow> queriesOnly s s'"
  unfolding updateRelations_def
  by (auto split: sum.splits option.splits intro: qo_refl dest!: qo_queryUnit)

lemma qo_executeUpdateRelations:
  "executeUpdateRelations env rel s = (r, s') \<Longrightarrow> queriesOnly s s'"
  unfolding executeUpdateRelations_def
  by (rule qo_forEachS[OF qo_updateRelations])

lemma qo_executeRemoveOperations:
  "executeRemoveOperations env rem s = (r, s') \<Longrightarrow> queriesOnly s s'"
  unfolding executeRemoveOperations_def
  by (rule qo_forEachS[OF qo_removeSubject])

lemma qo_executePhases:
  "executePhases env ins upd rem rel s = (r, s') \<Longrightarrow> queriesOnly s s'"
  unfolding executePhases_def
  apply (erule qo_seqS[rotated])
  apply (simp only: set_simps ball_simps)
  apply (intro conjI allI impI)
        apply (erule qo_executeInsertOperations)
       apply (erule qo_executeInsertClosureTableOperations)
      apply (erule qo_executeInsertJunctionsOperations)
     apply (erule qo_executeRemoveJunctionsOperations)
    apply (erule qo_executeUpdateOperations)
   apply (erule qo_executeUpdateRelations)
   apply (erule qo_executeRemoveOperations)
  apply (rule TrueI)
  done

lemma be_refl: "bodyEvents flag s s"
  unfolding bodyEvents_def by (intro exI[of _ "[]"]) simp

lemma be_trans: "bodyEvents flag s s1 \<Longrightarrow> bodyEvents flag s1 s2 \<Longrightarrow> bodyEvents flag s s2"
proof -
  assume a: "bodyEvents flag s s1" and b: "bodyEvents flag s1 s2"
  from a obtain n1 where 1: "trace s1 = trace s @ n1" "BeginTransaction \<notin> set n1"
    "RollbackTransaction \<notin> set n1" "flag \<or> CommitTransaction \<notin> set n1"
    unfolding bodyEvents_def by blast
  from b obtain n2 where 2: "trace s2 = trace s1 @ n2" "BeginTransaction \<notin> set n2"
    "RollbackTransaction \<notin> set n2" "flag \<or> CommitTransaction \<notin> set n2"
    unfolding bodyEvents_def by blast
  show ?thesis unfolding bodyEvents_def
    using 1 2 by (intro exI[of _ "n1 @ n2"]) auto
qed

lemma be_queriesOnly: "queriesOnly s s' \<Longrightarrow> bodyEvents flag s s'"
proof -
  assume "queriesOnly s s'"
  then obtain qs where "trace s' = trace s @ map Query qs" unfolding queriesOnly_def by blast
  then show ?thesis unfolding bodyEvents_def
    by (intro exI[of _ "map Query qs"]) auto
qed

lemma be_single:
  "trace s' = trace s @ [ev] \<Longrightarrow> ev \<noteq> BeginTransaction \<Longrightarrow> ev \<noteq> RollbackTransaction \<Longrightarrow>
   flag \<or> ev \<noteq> CommitTransaction \<Longrightarrow> bodyEvents flag s s'"
  unfolding bodyEvents_def by (intro exI[of _ "[ev]"]) auto

lemma be_same: "trace s' = trace s \<Longrightarrow> bodyEvents flag s s'"
  unfolding bodyEvents_def by (intro exI[of _ "[]"]) simp

lemma seqS_rel:
  assumes refl: "\<And>s. R s s" and trans: "\<And>a b c. R a b \<Longrightarrow> R b c \<Longrightarrow> R a c"
  shows "\<forall>m \<in> set ms. \<forall>s r s'. m s = (r, s') \<longrightarrow> R s s' \<Longrightarrow> seqS ms s = (r, s') \<Longrightarrow> R s s'"
proof (induction ms arbitrary: s)
  case Nil
  then show ?case by (simp add: refl seqS_def)
next
  case (Cons m ms)
  obtain r1 s1 where a: "m s = (r1, s1)" by (cases "m s")
  from Cons.prems(1) a have q1: "R s s1" by simp
  from Cons.prems(1) have rest: "\<forall>m \<in> set ms. \<forall>s r s'. m s = (r, s') \<longrightarrow> R s s'"
    by simp
  show ?case
  proof (cases r1)
    case (Inl e)
    with a Cons.prems(2) have "s' = s1" by (simp add: seqS_def)
    with q1 show ?thesis by simp
  next
    case (Inr u)
    with a Cons.prems(2) have "seqS ms s1 = (r, s')" by (simp add: seqS_def)
    from trans[OF q1 Cons.IH[OF rest this]] show ?thesis .
  qed
qed

lemma be_broadcastBefore:
  "broadcastBeforeEventsForAll env ins upd rem s = (r, s') \<Longrightarrow> bodyEvents flag s s'"
  unfolding broadcastBeforeEventsForAll_def Let_def logEvent_def
  by (auto split: sum.splits intro!: be_single)

lemma be_broadcastAfter:
  "broadcastAfterEventsForAll env ins upd rem s = (r, s') \<Longrightarrow> bodyEvents flag s s'"
  unfolding broadcastAfterEventsForAll_def Let_def logEvent_def
  by (auto split: sum.splits intro!: be_single)

lemma recompute_fold_state:
  "trace (fold (\<lambda>i st. updateSubjectAt i (f st) st) upd s) = trace s \<and>
   heap (fold (\<lambda>i st. updateSubjectAt i (f st) st) upd s) = heap s \<and>
   db (fold (\<lambda>i st. updateSubjectAt i (f st) st) upd s) = db s"
  by (induction upd arbitrary: s) (simp_all add: updateSubjectAt_def)

lemma recomputeSubjects_state:
  "recomputeSubjects env upd s = (r, s') \<Longrightarrow>
   r = Inr () \<and> trace s' = trace s \<and> heap s' = heap s \<and> db s' = db s"
  unfolding recomputeSubjects_def
  using recompute_fold_state[of "\<lambda>st. recompute env (heap st)" upd s] by auto

lemma be_commit:
  "whenS flag (transactionCall (commitTransaction env) CommitTransaction) s = (r, s')
   \<Longrightarrow> bodyEvents flag s s'"
  unfolding whenS_def transactionCall_def
  by (cases flag; cases "commitTransaction env (db s)")
     (auto intro!: be_single be_refl)

lemma be_onHeap: "onHeap m s = (r, s') \<Longrightarrow> bodyEvents flag s s'"
  unfolding onHeap_def by (cases "m (heap s)") (auto intro!: be_same)

lemma be_executeBody:
  "executeBody env flag ins upd rem rel s = (r, s') \<Longrightarrow> bodyEvents flag s s'"
  unfolding executeBody_def
  apply (erule seqS_rel[where R = "bodyEvents flag", rotated 3])
    apply (rule be_refl)
   apply (erule (1) be_trans)
  apply (simp only: set_simps ball_simps)
  apply (intro conjI allI impI)
        apply (erule be_broadcastBefore)
       apply (drule recomputeSubjects_state, simp add: be_same)
      apply (drule qo_executePhases, erule be_queriesOnly)
     apply (erule be_commit)
    apply (erule be_onHeap)
   apply (erule be_broadcastAfter)
  apply (rule TrueI)
  done

lemma executeBody_unfold:
  "executeBody env flag ins upd rem rel s =
     (case broadcastBeforeEventsForAll env ins upd rem s of
        (Inl e, s1) \<Rightarrow> (Inl e, s1)
      | (Inr u, s1) \<Rightarrow>
          (case recomputeSubjects env upd s1 of
             (Inl e, s2) \<Rightarrow> (Inl e, s2)
           | (Inr u, s2) \<Rightarrow>
               (case executePhases env ins upd rem rel s2 of
                  (Inl e, s3) \<Rightarrow> (Inl e, s3)
                | (Inr u, s3) \<Rightarrow>
                    seqS
                      [whenS flag (transactionCall (commitTransaction env) CommitTransaction),
                       (\<lambda>s. onHeap (updateSpecialColumnsInPersistedEntities env (subjects s)
                                       ins upd rem) s),
                       broadcastAfterEventsForAll env ins upd rem] s3)))"
  by (simp add: executeBody_def seqS_def split: prod.splits sum.splits)

lemma acquireTransaction_state:
  assumes "acquireTransaction env s = (r, flag, s1)" and "provide env (db s) = None"
  shows "flag = (\<not> isTransactionActive env (db s)) \<and> heap s1 = heap s \<and>
         subjects s1 = subjects s \<and>
         trace s1 = trace s @ [Provide, IsTransactionActive] @
                      (if flag then [BeginTransaction] else [])"
  using assms unfolding acquireTransaction_def Let_def logEvent_def transactionCall_def
  by (cases "isTransactionActive env (db s)"; cases "beginTransaction env (db s)")
     (auto split: option.splits)

lemma newEvents_append: "trace s' = trace s @ new \<Longrightarrow> newEvents s s' = new"
  by (simp add: newEvents_def)

lemma exReject_result: "fst (execute exRejectEnv [exNewNote, exNewTag] exInsertState) = Inl (Rejected 1)"
  by code_simp

lemma exReject_trace:
  "trace (snd (execute exRejectEnv [exNewNote, exNewTag] exInsertState)) =
     [Provide, IsTransactionActive, BeginTransaction,
      BroadcastBeforeEventsForAll [0, 1] [] [],
      Query (QInsert ''tag'' [(''name'', JStr ''t'')] (Some exIdColumn)),
      Query (QInsert ''note'' [(''text'', JStr ''n''), (''tag'', JNum 5)] None),
      RollbackTransaction]"
  by code_simp

lemma exReject_heap:
  "heap (snd (execute exRejectEnv [exNewNote, exNewTag] exInsertState)) 2 ''id'' = None"
  by code_simp


lemma pair_fst_snd: "fst p = a \<Longrightarrow> p = (a, snd p)"
  by (cases p) simp

lemma triple_fst_snd: "fst p = a \<Longrightarrow> fst (snd p) = b \<Longrightarrow> p = (a, b, snd (snd p))"
  by (cases p) auto

lemma exReject_valid:
  "List.find (\<lambda>sj. validate exRejectEnv sj \<noteq> None) [exNewNote, exNewTag] = None"
  by code_simp

lemma exReject_provide: "provide exRejectEnv (db exInsertState) = None"
  by code_simp

lemma exReject_inactive: "\<not> isTransactionActive exRejectEnv (db exInsertState)"
  by code_simp

lemma exReject_rollback_fails: "fst (rollbackTransaction exRejectEnv ()) = Some (Rejected 9)"
  by code_simp

lemma exReject_nonempty: "\<not> nothingToExecute [exNewNote, exNewTag]"
  by code_simp

lemma exReject_acquire:
  "acquireTransaction exRejectEnv (exInsertState\<lparr>subjects := exSubs\<rparr>) = (Inr (), True, exAcquired)"
  unfolding exAcquired_def by (rule triple_fst_snd; code_simp)

lemma exReject_before:
  "broadcastBeforeEventsForAll exRejectEnv (subjectsWhere mustBeInserted exSubs)
     (subjectsWhere mustBeUpdated exSubs) (subjectsWhere mustBeRemoved exSubs) exAcquired
   = (Inr (), exBroadcast)"
  unfolding exBroadcast_def by (rule pair_fst_snd; code_simp)

lemma exReject_phases: "exPhases = (Inl (Rejected 1), snd exPhases)"
  by (rule pair_fst_snd; code_simp)

lemma exBroadcast_heap: "heap exBroadcast 2 ''id'' = None \<and> heap exBroadcast 3 ''id'' = None"
  by code_simp

lemma exInsert_phase_result:
  "fst (executeInsertOperations exInsertEnv [0, 1] exInsertState) = Inr ()"
  by code_simp

lemma exInsert_groups:
  "firstInsertSubjects (subjects exInsertState) [0, 1] = [1] \<and>
   secondInsertSubjects (subjects exInsertState) [0, 1] = [0]"
  by code_simp

lemma exInsert_first_trace:
  "trace (snd (forEachS (\<lambda>i. insertSubject exInsertEnv i []) [1] exInsertState)) =
     [Query (QInsert ''tag'' [(''name'', JStr ''t'')] (Some exIdColumn))] \<and>
   newlyGeneratedId
     (subjects (snd (forEachS (\<lambda>i. insertSubject exInsertEnv i []) [1] exInsertState)) ! 1) = JNum 5"
  by code_simp

lemma exInsert_phase_trace:
  "trace (snd (executeInsertOperations exInsertEnv [0, 1] exInsertState)) =
     [Query (QInsert ''tag'' [(''name'', JStr ''t'')] (Some exIdColumn)),
      Query (QInsert ''note'' [(''text'', JStr ''n''), (''tag'', JNum 5)] None)]"
  by code_simp

lemma forEachS_inv:
  assumes inv: "\<And>x s r s'. f x s = (r, s') \<Longrightarrow> I s \<Longrightarrow> I s'"
  shows "forEachS f xs s = (r, s') \<Longrightarrow> I s \<Longrightarrow> I s'"
proof (induction xs arbitrary: s)
  case Nil
  then show ?case by simp
next
  case (Cons x xs)
  obtain r1 s1 where a: "f x s = (r1, s1)" by (cases "f x s")
  from inv[OF a Cons.prems(2)] have i1: "I s1" .
  show ?case
  proof (cases r1)
    case (Inl e)
    with a Cons.prems(1) have "s' = s1" by simp
    with i1 show ?thesis by simp
  next
    case (Inr u)
    with a Cons.prems(1) have "forEachS f xs s1 = (r, s')" by simp
    from Cons.IH[OF this i1] show ?thesis .
  qed
qed

lemma forEachS_fails:
  assumes inv: "\<And>x s r s'. f x s = (r, s') \<Longrightarrow> I s \<Longrightarrow> I s'"
    and bad: "\<And>st. I st \<Longrightarrow> \<exists>e st'. f x0 st = (Inl e, st')"
  shows "x0 \<in> set xs \<Longrightarrow> I s \<Longrightarrow> \<exists>e s'. forEachS f xs s = (Inl e, s')"
proof (induction xs arbitrary: s)
  case Nil
  then show ?case by simp
next
  case (Cons x xs)
  obtain r1 s1 where a: "f x s = (r1, s1)" by (cases "f x s")
  show ?case
  proof (cases r1)
    case (Inl e)
    with a show ?thesis by simp
  next
    case (Inr u)
    from bad[OF Cons.prems(2)] a Inr have "x \<noteq> x0" by auto
    with Cons.prems(1) have mem: "x0 \<in> set xs" by simp
    from inv[OF a Cons.prems(2)] have "I s1" .
    from Cons.IH[OF mem this] a Inr show ?thesis by simp
  qed
qed

lemma insertJunctionRow_state:
  assumes "insertJunctionRow env ins relation ownId e s = (r, s')"
  shows "heap s' = heap s \<and> subjects s' = subjects s"
proof (cases "junctionRelationId (heap s) (map (\<lambda>j. subjects s ! j) ins) relation e")
  case (Inl x)
  with assms show ?thesis by (simp add: insertJunctionRow_def)
next
  case (Inr rid)
  show ?thesis
  proof (cases "truthy rid")
    case False
    with Inr assms show ?thesis by (auto simp: insertJunctionRow_def split: if_splits)
  next
    case True
    with Inr assms have "\<exists>c. queryUnit env c s = (r, s')"
      by (auto simp: insertJunctionRow_def)
    then obtain c where "queryUnit env c s = (r, s')" by blast
    from queryUnit_state[OF this] show ?thesis by simp
  qed
qed

lemma insertJunctions_state:
  assumes "insertJunctions env ins i ji s = (r, s')"
  shows "heap s' = heap s \<and> subjects s' = subjects s"
proof (cases "junctionOwnId env (heap s) (subjects s ! i) (ji_relation ji)")
  case (Inl e)
  with assms show ?thesis by (simp add: insertJunctions_def)
next
  case (Inr ownId)
  show ?thesis
  proof (cases "truthy ownId")
    case False
    with Inr assms show ?thesis by (simp add: insertJunctions_def)
  next
    case True
    with Inr assms have f:
      "forEachS (insertJunctionRow env ins (ji_relation ji) ownId) (ji_junctionEntities ji) s = (r, s')"
      by (simp add: insertJunctions_def)
    have "heap s' = heap s \<and> subjects s' = subjects s"
      by (rule forEachS_inv[where I = "\<lambda>st. heap st = heap s \<and> subjects st = subjects s", OF _ f])
         (auto dest: insertJunctionRow_state)
    then show ?thesis .
  qed
qed

lemma closureLevels_append:
  "closureLevels (xs @ ys) d = closureLevels xs d @ closureLevels ys d"
  by (simp add: closureLevels_def)

lemma closureLevels_inserted:
  "n \<noteq> p \<Longrightarrow> closureLevels (closureInsertedRows rows n p hl) p = []"
  by (auto simp: closureLevels_def closureInsertedRows_def split: option.splits)

lemma maxLevel_after_insert:
  "n \<noteq> p \<Longrightarrow> maxLevel (rows @ closureInsertedRows rows n p hl) p = maxLevel rows p"
  by (simp add: maxLevel_def closureLevels_append closureLevels_inserted)



lemma closureParentEntityId_orphan:
  assumes "getProp h (entity sj) (r_propertyName (m_treeParentRelation (mfields (metadata sj))))
             = Inr pe"
    and "\<not> truthy pe"
    and "findE (hasAsChild h sj) allSubjects = Inr None"
  shows "closureParentEntityId h allSubjects ins sj = Inr (JNum 0)"
  using assms by (simp add: closureParentEntityId_def Let_def bindE_def)

lemma insertClosureTableValues_run:
  assumes "closureNewEntityId (heap s) (subjects s ! i) = Inr newEntityId"
    and "closureParentEntityId (heap s) (subjects s) ins (subjects s ! i) = Inr parentEntityId"
    and "query env
           (QInsertIntoClosureTable
              (t_name (l_table (m_closureJunctionTable (mfields (metadata (subjects s ! i))))))
              newEntityId parentEntityId
              (m_hasTreeLevelColumn (mfields (metadata (subjects s ! i))))) s = (Inr level, s1)"
  shows "insertClosureTableValues env ins i s =
           (if m_hasTreeLevelColumn (mfields (metadata (subjects s ! i))) then
              queryUnit env
                (QUpdate (t_name (m_table (mfields (metadata (subjects s ! i)))))
                   [(c_fullName (m_treeLevelColumn (mfields (metadata (subjects s ! i)))), level)]
                   [(c_fullName (jc_referencedColumn (r_joinColumn
                        (m_treeParentRelation (mfields (metadata (subjects s ! i)))))),
                     newEntityId)])
                (updateSubjectAt i (\<lambda>x. x\<lparr>treeLevel := level\<rparr>) s1)
            else (Inr (), updateSubjectAt i (\<lambda>x. x\<lparr>treeLevel := level\<rparr>) s1))"
  using assms by (simp add: insertClosureTableValues_def Let_def)




lemma exUnsavedParent_facts:
  "getProp (heap exUnsavedParentState) (entity (subjects exUnsavedParentState ! 0))
     (r_propertyName (m_treeParentRelation (mfields (metadata (subjects exUnsavedParentState ! 0)))))
     = Inr (JRef 13) \<and>
   getProp (heap exUnsavedParentState) (JRef 13)
     (c_propertyName (jc_referencedColumn (r_joinColumn
        (m_treeParentRelation (mfields (metadata (subjects exUnsavedParentState ! 0)))))))
     = Inr JUndefined \<and>
   find (\<lambda>x. strictEq (entity x) (JRef 13))
     (map (\<lambda>j. subjects exUnsavedParentState ! j) [0]) = None \<and>
   findE (hasAsChild (heap exUnsavedParentState) (subjects exUnsavedParentState ! 0))
     (subjects exUnsavedParentState) = Inr None"
  by code_simp

lemma exRoot_facts:
  "closureNewEntityId (heap exRootState) (subjects exRootState ! 0) = Inr (JNum 3) \<and>
   getProp (heap exRootState) (entity (subjects exRootState ! 0))
     (r_propertyName (m_treeParentRelation (mfields (metadata (subjects exRootState ! 0)))))
     = Inr JUndefined \<and>
   findE (hasAsChild (heap exRootState) (subjects exRootState ! 0)) (subjects exRootState)
     = Inr None \<and>
   trace (snd (insertClosureTableValues exClosureEnv [0] 0 exRootState)) =
     [Query (QInsertIntoClosureTable ''category_closure'' (JNum 3) (JNum 0) True),
      Query (QUpdate ''category'' [(''level'', JNum 1)] [(''id'', JNum 3)])] \<and>
   db (snd (insertClosureTableValues exClosureEnv [0] 0 exRootState)) =
     [(1, 1, Some 1), (3, 3, Some 1)]"
  by code_simp

lemma acceptedRun_append:
  "acceptedRun env (xs @ ys) d =
     (case acceptedRun env xs d of None \<Rightarrow> None | Some d' \<Rightarrow> acceptedRun env ys d')"
proof (induction xs arbitrary: d)
  case Nil
  then show ?case by simp
next
  case (Cons c cs)
  obtain r d1 where q: "runQuery env c d = (r, d1)" by (cases "runQuery env c d")
  show ?case using q Cons.IH by (cases r) simp_all
qed

lemma aa_refl: "allAccepted env s s"
  unfolding allAccepted_def by (intro exI[of _ "[]"]) simp

lemma aa_same: "trace s' = trace s \<Longrightarrow> db s' = db s \<Longrightarrow> allAccepted env s s'"
  unfolding allAccepted_def by (intro exI[of _ "[]"]) simp

lemma aa_trans: "allAccepted env s s1 \<Longrightarrow> allAccepted env s1 s2 \<Longrightarrow> allAccepted env s s2"
proof -
  assume a: "allAccepted env s s1" and b: "allAccepted env s1 s2"
  from a obtain q1 where 1: "trace s1 = trace s @ map Query q1"
    "acceptedRun env q1 (db s) = Some (db s1)" unfolding allAccepted_def by blast
  from b obtain q2 where 2: "trace s2 = trace s1 @ map Query q2"
    "acceptedRun env q2 (db s1) = Some (db s2)" unfolding allAccepted_def by blast
  show ?thesis unfolding allAccepted_def
    using 1 2 by (intro exI[of _ "q1 @ q2"]) (simp add: acceptedRun_append)
qed

lemma aa_query: "query env c s = (Inr v, s') \<Longrightarrow> allAccepted env s s'"
proof -
  assume q: "query env c s = (Inr v, s')"
  from query_state[OF q] have t: "trace s' = trace s @ map Query [c]"
    and r: "fst (runQuery env c (db s)) = Inr v" and d: "db s' = snd (runQuery env c (db s))"
    by simp_all
  have "acceptedRun env [c] (db s) = Some (db s')"
    using r d by (cases "runQuery env c (db s)") simp
  with t show ?thesis unfolding allAccepted_def by blast
qed

lemma aa_queryUnit: "queryUnit env c s = (Inr u, s') \<Longrightarrow> allAccepted env s s'"
proof -
  assume a: "queryUnit env c s = (Inr u, s')"
  obtain r0 s0 where q: "query env c s = (r0, s0)" by (cases "query env c s")
  with a obtain v where "r0 = Inr v" and "s0 = s'" by (cases r0) (auto simp: queryUnit_def)
  with q aa_query show ?thesis by blast
qed

lemma aa_updateSubjectAt: "allAccepted env s (updateSubjectAt i f s)"
  by (rule aa_same) (simp_all add: updateSubjectAt_def)

lemma aa_forEachS:
  assumes "\<And>x s u s'. f x s = (Inr u, s') \<Longrightarrow> allAccepted env s s'"
  shows "forEachS f xs s = (Inr u, s') \<Longrightarrow> allAccepted env s s'"
proof (induction xs arbitrary: s)
  case Nil
  then show ?case by (simp add: aa_refl)
next
  case (Cons x xs)
  obtain r1 s1 where a: "f x s = (r1, s1)" by (cases "f x s")
  with Cons.prems obtain u1 where r1: "r1 = Inr u1" by (cases r1) auto
  with a Cons.prems have b: "forEachS f xs s1 = (Inr u, s')" by simp
  from aa_trans[OF assms[OF a[unfolded r1]] Cons.IH[OF b]] show ?case .
qed

lemma aa_seqS:
  "\<forall>m \<in> set ms. \<forall>s u s'. m s = (Inr u, s') \<longrightarrow> allAccepted env s s' \<Longrightarrow>
   seqS ms s = (Inr u, s') \<Longrightarrow> allAccepted env s s'"
proof (induction ms arbitrary: s)
  case Nil
  then show ?case by (simp add: aa_refl seqS_def)
next
  case (Cons m ms)
  obtain r1 s1 where a: "m s = (r1, s1)" by (cases "m s")
  with Cons.prems(2) obtain u1 where r1: "r1 = Inr u1" by (cases r1) (auto simp: seqS_def)
  from Cons.prems(1) a r1 have q1: "allAccepted env s s1" by simp
  from Cons.prems(1) have rest: "\<forall>m \<in> set ms. \<forall>s u s'. m s = (Inr u, s') \<longrightarrow> allAccepted env s s'"
    by simp
  from a r1 Cons.prems(2) have "seqS ms s1 = (Inr u, s')" by (simp add: seqS_def)
  from aa_trans[OF q1 Cons.IH[OF rest this]] show ?case .
qed

lemma aa_removeSubject: "removeSubject env sj s = (Inr u, s') \<Longrightarrow> allAccepted env s s'"
  unfolding removeSubject_def
  by (auto split: option.splits sum.splits prod.splits unit.splits
           dest!: aa_queryUnit elim: aa_trans)

lemma aa_insertSubject: "insertSubject env i already s = (Inr u, s') \<Longrightarrow> allAccepted env s s'"
  unfolding insertSubject_def Let_def
  by (auto split: option.splits sum.splits prod.splits if_splits
           intro: aa_trans[OF _ aa_updateSubjectAt] dest!: aa_query elim: aa_trans)


lemma aa_executeInsertOperations:
  assumes "executeInsertOperations env ins s = (Inr u, s')"
  shows "allAccepted env s s'"
proof -
  let ?first = "firstInsertSubjects (subjects s) ins"
  let ?second = "secondInsertSubjects (subjects s) ins"
  obtain r1 s1 where a: "forEachS (\<lambda>i. insertSubject env i []) ?first s = (r1, s1)"
    by (cases "forEachS (\<lambda>i. insertSubject env i []) ?first s")
  with assms obtain u1 where r1: "r1 = Inr u1"
    by (cases r1) (auto simp: executeInsertOperations_def)
  have q1: "allAccepted env s s1" using aa_forEachS[OF aa_insertSubject a[unfolded r1]] .
  obtain r2 s2 where b: "forEachS (\<lambda>i. insertSubject env i ?first) ?second s1 = (r2, s2)"
    by (cases "forEachS (\<lambda>i. insertSubject env i ?first) ?second s1")
  with assms a r1 obtain u2 where r2: "r2 = Inr u2"
    by (cases r2) (auto simp: executeInsertOperations_def)
  have q2: "allAccepted env s1 s2" using aa_forEachS[OF aa_insertSubject b[unfolded r2]] .
  obtain updates thrown where
    bp: "backPatchUpdates env (subjects s2) ?first ins (heap s2) = (updates, thrown)"
    by (cases "backPatchUpdates env (subjects s2) ?first ins (heap s2)")
  obtain r3 s3 where c: "forEachS (queryUnit env) updates s2 = (r3, s3)"
    by (cases "forEachS (queryUnit env) updates s2")
  from assms a r1 b r2 bp c obtain u3 where r3: "r3 = Inr u3" and e: "s' = s3"
    by (cases r3; cases thrown) (auto simp: executeInsertOperations_def)
  have q3: "allAccepted env s2 s3" using aa_forEachS[OF aa_queryUnit c[unfolded r3]] .
  from aa_trans[OF aa_trans[OF q1 q2] q3] e show ?thesis by simp
qed

lemma aa_insertClosureTableValues:
  assumes "insertClosureTableValues env ins i s = (Inr u, s')"
  shows "allAccepted env s s'"
proof (cases "closureNewEntityId (heap s) (subjects s ! i)")
  case (Inl e)
  with assms show ?thesis by (simp add: insertClosureTableValues_def Let_def)
next
  case newId: (Inr newEntityId)
  show ?thesis
  proof (cases "closureParentEntityId (heap s) (subjects s) ins (subjects s ! i)")
    case (Inl e)
    with newId assms show ?thesis by (simp add: insertClosureTableValues_def Let_def)
  next
    case parentId: (Inr parentEntityId)
    let ?f = "mfields (metadata (subjects s ! i))"
    let ?c = "QInsertIntoClosureTable (t_name (l_table (m_closureJunctionTable ?f)))
                newEntityId parentEntityId (m_hasTreeLevelColumn ?f)"
    obtain r1 s1 where q: "query env ?c s = (r1, s1)" by (cases "query env ?c s")
    with newId parentId assms obtain level where r1: "r1 = Inr level"
      by (cases r1) (auto simp: insertClosureTableValues_def Let_def)
    note q1 = aa_query[OF q[unfolded r1]]
    let ?s2 = "updateSubjectAt i (\<lambda>x. x\<lparr>treeLevel := level\<rparr>) s1"
    have q2: "allAccepted env s ?s2" using aa_trans[OF q1 aa_updateSubjectAt] .
    show ?thesis
    proof (cases "m_hasTreeLevelColumn ?f")
      case True
      with newId parentId q r1 assms have
        "queryUnit env (QUpdate (t_name (m_table ?f)) [(c_fullName (m_treeLevelColumn ?f), level)]
            [(c_fullName (jc_referencedColumn (r_joinColumn (m_treeParentRelation ?f))), newEntityId)])
           ?s2 = (Inr u, s')"
        by (simp add: insertClosureTableValues_def Let_def)
      from aa_trans[OF q2 aa_queryUnit[OF this]] show ?thesis .
    next
      case False
      with newId parentId q r1 assms have "s' = ?s2"
        by (simp add: insertClosureTableValues_def Let_def)
      with q2 show ?thesis by simp
    qed
  qed
qed

lemma aa_executeInsertClosureTableOperations:
  "executeInsertClosureTableOperations env ins s = (Inr u, s') \<Longrightarrow> allAccepted env s s'"
  unfolding executeInsertClosureTableOperations_def
  by (rule aa_forEachS[OF aa_insertClosureTableValues])

lemma aa_insertJunctionRow:
  "insertJunctionRow env ins relation ownId e s = (Inr u, s') \<Longrightarrow> allAccepted env s s'"
  unfolding insertJunctionRow_def
  by (auto split: sum.splits if_splits dest!: aa_queryUnit)

lemma aa_insertJunctions:
  assumes "insertJunctions env ins i ji s = (Inr u, s')"
  shows "allAccepted env s s'"
proof (cases "junctionOwnId env (heap s) (subjects s ! i) (ji_relation ji)")
  case (Inl e)
  with assms show ?thesis by (simp add: insertJunctions_def)
next
  case (Inr ownId)
  show ?thesis
  proof (cases "truthy ownId")
    case False
    with Inr assms show ?thesis by (simp add: insertJunctions_def)
  next
    case True
    with Inr assms have
      "forEachS (insertJunctionRow env ins (ji_relation ji) ownId) (ji_junctionEntities ji) s
         = (Inr u, s')"
      by (simp add: insertJunctions_def)
    from aa_forEachS[OF aa_insertJunctionRow this] show ?thesis .
  qed
qed

lemma aa_executeInsertJunctionsOperations:
  "executeInsertJunctionsOperations env ins s = (Inr u, s') \<Longrightarrow> allAccepted env s s'"
  unfolding executeInsertJunctionsOperations_def
  by (rule aa_forEachS[OF aa_forEachS[OF aa_insertJunctions]])

lemma aa_removeJunctions:
  assumes a: "removeJunctions env i jr s = (Inr u, s')"
  shows "allAccepted env s s'"
proof -
  have step: "\<And>f x st u st'. (case f x of Inl e \<Rightarrow> (Inl e, st)
       | Inr conditions \<Rightarrow> queryUnit env (QDelete (t_name (l_table (r_junctionEntityMetadata (jr_relation jr)))) (Some conditions)) st) = (Inr u, st')
     \<Longrightarrow> allAccepted env st st'"
    by (auto split: sum.splits dest!: aa_queryUnit)
  show ?thesis
  proof (cases "getOwnEntityRelationId env (jr_relation jr) (heap s)
                  (if hasEntity (subjects s ! i) then entity (subjects s ! i)
                   else databaseEntity (subjects s ! i))")
    case (Inl e)
    with a show ?thesis by (simp add: removeJunctions_def Let_def)
  next
    case (Inr ownId)
    with a show ?thesis
      unfolding removeJunctions_def Let_def
      by (simp) (erule aa_forEachS[rotated], erule step)
  qed
qed

lemma aa_executeRemoveJunctionsOperations:
  "executeRemoveJunctionsOperations env s = (Inr u, s') \<Longrightarrow> allAccepted env s s'"
  unfolding executeRemoveJunctionsOperations_def
  by (rule aa_forEachS[OF aa_forEachS[OF aa_removeJunctions]])

lemma aa_addSpecial: "addSpecial env md ent vms s = (r, s') \<Longrightarrow> allAccepted env s s'"
proof -
  assume "addSpecial env md ent vms s = (r, s')"
  from addSpecial_state[OF this] show ?thesis by (intro aa_same) simp_all
qed

lemma aa_issueUpdate: "issueUpdate env ent vm s = (Inr u, s') \<Longrightarrow> allAccepted env s s'"
  unfolding issueUpdate_def
  by (auto split: prod.splits sum.splits option.splits dest!: aa_queryUnit)

lemma aa_updateSubject:
  assumes ok: "updateSubject env sj s = (Inr u, s')"
  shows "allAccepted env s s'"
proof (cases "updateDiffs env (heap s) sj")
  case (Inl e)
  with ok show ?thesis by (simp add: updateSubject_def)
next
  case (Inr vms)
  show ?thesis
  proof (cases "vms = []")
    case True
    with Inr ok show ?thesis by (simp add: updateSubject_def aa_refl)
  next
    case False
    from updateSubject_success[OF ok Inr False] obtain vms1 s1 vms2 s2 where
      sp: "addSpecial env (metadata sj) (entity sj) vms s = (Inr vms1, s1)" and
      pp: "(case parentEntityMetadata (metadata sj) of
              None \<Rightarrow> (Inr vms1, s1)
            | Some pm \<Rightarrow> addSpecial env pm (entity sj) vms1 s1) = (Inr vms2, s2)" and
      iss: "forEachS (issueUpdate env (entity sj)) vms2 s2 = (Inr u, s')"
      by blast
    have q1: "allAccepted env s s1" using aa_addSpecial[OF sp] .
    have q2: "allAccepted env s1 s2"
      using pp by (cases "parentEntityMetadata (metadata sj)") (auto intro: aa_refl aa_addSpecial)
    from aa_trans[OF aa_trans[OF q1 q2] aa_forEachS[OF aa_issueUpdate iss]] show ?thesis .
  qed
qed

lemma aa_executeUpdateOperations:
  "executeUpdateOperations env upd s = (Inr u, s') \<Longrightarrow> allAccepted env s s'"
  unfolding executeUpdateOperations_def
  by (rule aa_forEachS[OF aa_updateSubject])

lemma aa_updateRelations: "updateRelations env sj s = (Inr u, s') \<Longrightarrow> allAccepted env s s'"
  unfolding updateRelations_def
  by (auto split: sum.splits option.splits dest!: aa_queryUnit)

lemma aa_executeUpdateRelations:
  "executeUpdateRelations env rel s = (Inr u, s') \<Longrightarrow> allAccepted env s s'"
  unfolding executeUpdateRelations_def
  by (rule aa_forEachS[OF aa_updateRelations])

lemma aa_executeRemoveOperations:
  "executeRemoveOperations env rem s = (Inr u, s') \<Longrightarrow> allAccepted env s s'"
  unfolding executeRemoveOperations_def
  by (rule aa_forEachS[OF aa_removeSubject])

lemma aa_executePhases:
  "executePhases env ins upd rem rel s = (Inr u, s') \<Longrightarrow> allAccepted env s s'"
  unfolding executePhases_def
  apply (erule aa_seqS[rotated])
  apply (simp only: set_simps ball_simps)
  apply (intro conjI allI impI)
         apply (erule aa_executeInsertOperations)
        apply (erule aa_executeInsertClosureTableOperations)
       apply (erule aa_executeInsertJunctionsOperations)
      apply (erule aa_executeRemoveJunctionsOperations)
     apply (erule aa_executeUpdateOperations)
    apply (erule aa_executeUpdateRelations)
   apply (erule aa_executeRemoveOperations)
  apply (rule TrueI)
  done

lemma rejected_statement_fails_phases:
  assumes run: "executePhases env ins upd rem rel s = (r, s')"
    and tr: "trace s' = trace s @ map Query qs"
    and rej: "acceptedRun env qs (db s) = None"
  shows "\<exists>e. r = Inl e"
proof (cases r)
  case (Inl e)
  then show ?thesis by simp
next
  case (Inr u)
  from aa_executePhases[OF run[unfolded Inr]] obtain qs' where
    t: "trace s' = trace s @ map Query qs'" and a: "acceptedRun env qs' (db s) = Some (db s')"
    unfolding allAccepted_def by blast
  from t tr have "map Query qs' = map Query qs" by simp
  then have "qs' = qs" by (simp add: inj_map_eq_map inj_on_def)
  with a rej show ?thesis by simp
qed

lemma map_Query_inj: "map Query a = map Query b \<Longrightarrow> a = b"
  by (simp add: inj_map_eq_map inj_on_def)

lemma exReject_phase_trace:
  "trace (snd exPhases) = trace exBroadcast @ map Query
     [QInsert ''tag'' [(''name'', JStr ''t'')] (Some exIdColumn),
      QInsert ''note'' [(''text'', JStr ''n''), (''tag'', JNum 5)] None]"
  by code_simp

lemma exReject_replay:
  "acceptedRun exRejectEnv
     [QInsert ''tag'' [(''name'', JStr ''t'')] (Some exIdColumn),
      QInsert ''note'' [(''text'', JStr ''n''), (''tag'', JNum 5)] None] (db exBroadcast) = None"
  by code_simp

lemma queryUnit_result:
  assumes "queryUnit env c s = (r, s')"
  shows "r = (case fst (runQuery env c (db s)) of Inl e \<Rightarrow> Inl e | Inr v \<Rightarrow> Inr ())"
  using assms unfolding queryUnit_def query_def
  by (cases "runQuery env c (db s)") (auto split: sum.splits)

lemma insertIntoClosureTable_root:
  assumes "n \<noteq> 0"
  shows "insertIntoClosureTable (JNum n) (JNum 0) hl rows =
           (Inr (case maxLevel rows 0 of
                   None \<Rightarrow> JNum 1
                 | Some l \<Rightarrow> if l \<noteq> 0 then JNum (l + 1) else JNum 1),
            rows @ closureInsertedRows rows n 0 hl)"
  using assms by (simp add: insertIntoClosureTable_def Let_def maxLevel_after_insert)

lemma exRoot_index: "0 < length (subjects exRootState)"
  by code_simp

lemma exRoot_level_column: "m_hasTreeLevelColumn (mfields (metadata (subjects exRootState ! 0)))"
  by code_simp

lemma exRoot_closure_call:
  "QInsertIntoClosureTable ''category_closure'' (JNum 3) (JNum 0) True =
     QInsertIntoClosureTable
       (t_name (l_table (m_closureJunctionTable (mfields (metadata (subjects exRootState ! 0))))))
       (JNum 3) (JNum 0) (m_hasTreeLevelColumn (mfields (metadata (subjects exRootState ! 0))))"
  by code_simp

lemma exRoot_level:
  "JNum 1 = (case maxLevel (db exRootState) 0 of
               None \<Rightarrow> JNum 1
             | Some l \<Rightarrow> if l \<noteq> 0 then JNum (l + 1) else JNum 1)"
  by code_simp

lemma exRoot_level_update:
  "QUpdate ''category'' [(''level'', JNum 1)] [(''id'', JNum 3)] =
     QUpdate (t_name (m_table (mfields (metadata (subjects exRootState ! 0)))))
       [(c_fullName (m_treeLevelColumn (mfields (metadata (subjects exRootState ! 0)))), JNum 1)]
       [(c_fullName (jc_referencedColumn (r_joinColumn
            (m_treeParentRelation (mfields (metadata (subjects exRootState ! 0)))))), JNum 3)]"
  by code_simp

lemma exRoot_update_accepted:
  "fst (runQuery exClosureEnv (QUpdate ''category'' [(''level'', JNum 1)] [(''id'', JNum 3)])
          (snd (runQuery exClosureEnv
                  (QInsertIntoClosureTable ''category_closure'' (JNum 3) (JNum 0) True)
                  (db exRootState)))) = Inr JUndefined"
  by code_simp

lemma exRoot_rows:
  "snd (runQuery exClosureEnv (QUpdate ''category'' [(''level'', JNum 1)] [(''id'', JNum 3)])
          (snd (runQuery exClosureEnv
                  (QInsertIntoClosureTable ''category_closure'' (JNum 3) (JNum 0) True)
                  (db exRootState)))) = [(1, 1, Some 1), (3, 3, Some 1)]"
  by code_simp

lemma exRoot_runner:
  "runQuery exClosureEnv (QInsertIntoClosureTable ''category_closure'' (JNum 3) (JNum 0) True)
     (db exRootState)
   = insertIntoClosureTable (JNum 3) (JNum 0)
       (m_hasTreeLevelColumn (mfields (metadata (subjects exRootState ! 0)))) (db exRootState)"
  by code_simp

lemma exRoot_start: "trace exRootState = [] \<and> db exRootState = [(1, 1, Some 1)]"
  by code_simp

lemma junctionOwnId_resolved:
  assumes "getOwnEntityRelationId env rel h (entity sj) = Inr own"
  shows "junctionOwnId env h sj rel =
           Inr (if truthy own then own
                else if c_isGenerated
                          (if r_isOwning rel then jt_referencedColumn (r_joinTable rel)
                           else jt_inverseReferencedColumn (ir_joinTable (r_inverseRelation rel)))
                then newlyGeneratedId sj
                else if c_isObjectId
                          (if r_isOwning rel then jt_referencedColumn (r_joinTable rel)
                           else jt_inverseReferencedColumn (ir_joinTable (r_inverseRelation rel)))
                then generatedObjectId sj
                else own)"
  using assms
  by (simp add: junctionOwnId_def junctionFirstColumn_def junctionJoinTable_def bindE_def)

lemma junctionRelationId_resolved:
  assumes "r_isManyToManyOwner rel = r_isOwning rel \<and>
           r_isManyToManyNotOwner rel = (\<not> r_isOwning rel)"
    and "getProp h e
           (c_propertyName
              (if r_isOwning rel then jt_inverseReferencedColumn (r_joinTable rel)
               else jt_referencedColumn (ir_joinTable (r_inverseRelation rel)))) = Inr v"
  shows "junctionRelationId h inserted rel e =
           Inr (if truthy v then v
                else (case find (\<lambda>x. strictEq (entity x) e) inserted of
                        None \<Rightarrow> v
                      | Some x \<Rightarrow>
                          if c_isGenerated
                               (if r_isOwning rel then jt_inverseReferencedColumn (r_joinTable rel)
                                else jt_referencedColumn (ir_joinTable (r_inverseRelation rel)))
                          then newlyGeneratedId x
                          else if c_isObjectId
                               (if r_isOwning rel then jt_inverseReferencedColumn (r_joinTable rel)
                                else jt_referencedColumn (ir_joinTable (r_inverseRelation rel)))
                          then generatedObjectId x
                          else v))"
  using assms
  by (cases "r_isOwning rel")
     (simp_all add: junctionRelationId_def junctionSecondColumn_def junctionJoinTable_def bindE_def
        split: option.splits)

lemma junction_rows_run:
  fixes s st :: "'db state"
  assumes len: "length es = length vs"
    and same: "heap st = heap s \<and> subjects st = subjects s"
    and res: "\<And>e v. (e, v) \<in> set (zip es vs) \<Longrightarrow>
                junctionRelationId (heap s) (map (\<lambda>j. subjects s ! j) ins) rel e = Inr (R e v)"
    and row: "\<And>rid. row rid =
                QInsert (t_name (l_table (r_junctionEntityMetadata rel)))
                  (zipObject env
                     (map c_fullName (l_columnsWithoutEmbeddeds (r_junctionEntityMetadata rel)))
                     (if r_isOwning rel then [ownId, rid] else [rid, ownId])) None"
  shows "(list_all truthy (map (\<lambda>(e, v). R e v) (zip es vs)) \<longrightarrow>
            (\<forall>d. acceptedRun env (map row (map (\<lambda>(e, v). R e v) (zip es vs))) (db st) = Some d \<longrightarrow>
               (\<exists>st'. forEachS (insertJunctionRow env ins rel ownId) es st = (Inr (), st') \<and>
                  trace st' = trace st @ map Query (map row (map (\<lambda>(e, v). R e v) (zip es vs))) \<and>
                  db st' = d \<and> heap st' = heap s \<and> subjects st' = subjects s))) \<and>
         (\<not> list_all truthy (map (\<lambda>(e, v). R e v) (zip es vs)) \<longrightarrow>
            (\<exists>err st'. forEachS (insertJunctionRow env ins rel ownId) es st = (Inl err, st')))"
  using len same res
proof (induction es vs arbitrary: st rule: list_induct2)
  case Nil
  then show ?case by simp
next
  case (Cons e es v vs)
  have jr: "junctionRelationId (heap st) (map (\<lambda>j. subjects st ! j) ins) rel e = Inr (R e v)"
    using Cons.prems(1) Cons.prems(2)[of e v] by simp
  have res': "\<And>e' v'. (e', v') \<in> set (zip es vs) \<Longrightarrow>
                junctionRelationId (heap s) (map (\<lambda>j. subjects s ! j) ins) rel e' = Inr (R e' v')"
    using Cons.prems(2) by simp
  show ?case
  proof (cases "truthy (R e v)")
    case False
    with jr have "\<exists>err. insertJunctionRow env ins rel ownId e st = (Inl err, st)"
      by (simp add: insertJunctionRow_def)
    then obtain err where "insertJunctionRow env ins rel ownId e st = (Inl err, st)" by blast
    then have "forEachS (insertJunctionRow env ins rel ownId) (e # es) st = (Inl err, st)" by simp
    with False show ?thesis by simp
  next
    case True
    with jr have step: "insertJunctionRow env ins rel ownId e st = queryUnit env (row (R e v)) st"
      by (simp add: insertJunctionRow_def row)
    obtain r1 s1 where q: "queryUnit env (row (R e v)) st = (r1, s1)"
      by (cases "queryUnit env (row (R e v)) st")
    note qs = queryUnit_state[OF q] and qr = queryUnit_result[OF q]
    obtain x d1 where rq: "runQuery env (row (R e v)) (db st) = (x, d1)"
      by (cases "runQuery env (row (R e v)) (db st)")
    show ?thesis
    proof (cases x)
      case (Inl err)
      with qr rq have "r1 = Inl err" by simp
      with step q have "forEachS (insertJunctionRow env ins rel ownId) (e # es) st = (Inl err, s1)"
        by simp
      moreover have "acceptedRun env (map row (map (\<lambda>(e, v). R e v) (zip (e # es) (v # vs)))) (db st)
                       = None"
        using rq Inl by simp
      ultimately show ?thesis by simp
    next
      case (Inr y)
      with qr rq have r1: "r1 = Inr ()" by simp
      with step q have fe: "forEachS (insertJunctionRow env ins rel ownId) (e # es) st
                          = forEachS (insertJunctionRow env ins rel ownId) es s1"
        by simp
      from qs rq have d1: "db s1 = d1" and t1: "trace s1 = trace st @ [Query (row (R e v))]"
        and same1: "heap s1 = heap s \<and> subjects s1 = subjects s"
        using Cons.prems(1) by simp_all
      have ar: "acceptedRun env (map row (map (\<lambda>(e, v). R e v) (zip (e # es) (v # vs)))) (db st)
                  = acceptedRun env (map row (map (\<lambda>(e, v). R e v) (zip es vs))) (db s1)"
        using rq Inr d1 by simp
      note ih = Cons.IH[OF same1 res']
      show ?thesis
        unfolding fe ar using ih True t1 by simp
    qed
  qed
qed

lemma executePhases_junction_fails:
  assumes "executeInsertOperations env ins s2 = (Inr (), s3)"
    and "executeInsertClosureTableOperations env ins s3 = (Inr (), s4)"
    and "executeInsertJunctionsOperations env ins s4 = (Inl e, s5)"
  shows "executePhases env ins upd rem rel s2 = (Inl e, s5)"
  using assms by (simp add: executePhases_def seqS_def)

lemma execute_fails_in_junctions:
  fixes s0 :: "'db state"
  assumes valid: "List.find (\<lambda>x. validate env x \<noteq> None) subs = None"
    and ne: "\<not> nothingToExecute subs"
    and acq: "acquireTransaction env (s0\<lparr>subjects := subs\<rparr>) = (Inr (), flag, s1)"
    and bef: "broadcastBeforeEventsForAll env (subjectsWhere mustBeInserted subs)
                (subjectsWhere mustBeUpdated subs) (subjectsWhere mustBeRemoved subs) s1
              = (Inr (), s2)"
    and insP: "executeInsertOperations env (subjectsWhere mustBeInserted subs)
                 (snd (recomputeSubjects env (subjectsWhere mustBeUpdated subs) s2)) = (Inr (), s3)"
    and cloP: "executeInsertClosureTableOperations env (subjectsWhere mustBeInserted subs) s3
               = (Inr (), s4)"
    and jun: "executeInsertJunctionsOperations env (subjectsWhere mustBeInserted subs) s4
              = (Inl e, s5)"
  shows "fst (execute env subs s0) = Inl e"
proof -
  let ?ins = "subjectsWhere mustBeInserted subs"
  let ?upd = "subjectsWhere mustBeUpdated subs"
  let ?rem = "subjectsWhere mustBeRemoved subs"
  let ?rel = "subjectsWhere hasRelationUpdates subs"
  have rc: "recomputeSubjects env ?upd s2 = (Inr (), snd (recomputeSubjects env ?upd s2))"
    by (simp add: recomputeSubjects_def)
  note ph = executePhases_junction_fails[OF insP cloP jun, of ?upd ?rem ?rel]
  have body: "executeBody env flag ?ins ?upd ?rem ?rel s1 = (Inl e, s5)"
    unfolding executeBody_unfold bef
    by (simp add: recomputeSubjects_def ph[unfolded recomputeSubjects_def, simplified])
  have "executeTry env ?ins ?upd ?rem ?rel (s0\<lparr>subjects := subs\<rparr>) = (Inl e, flag, s5)"
    by (simp add: executeTry_def acq body)
  with valid ne show ?thesis
    by (simp add: execute_def Let_def catchBlock_def)
qed


lemma map_eq_zip:
  assumes "map f xs = map g ys" and "(x, y) \<in> set (zip xs ys)"
  shows "f x = g y"
proof -
  from assms(1) have "length xs = length ys" by (rule map_eq_imp_length_eq)
  then show ?thesis using assms
    by (induction xs ys rule: list_induct2) auto
qed

lemma exNewLink_relation:
  "exGenCategories = ji_relation exLinkNew"
  by code_simp

lemma exNewLink_manyToMany:
  "r_isManyToManyOwner exGenCategories = r_isOwning exGenCategories \<and>
   r_isManyToManyNotOwner exGenCategories = (\<not> r_isOwning exGenCategories)"
  by code_simp

lemma exNewLink_firstColumn:
  "exIdColumn = (if r_isOwning exGenCategories then jt_referencedColumn (r_joinTable exGenCategories)
                 else jt_inverseReferencedColumn (ir_joinTable (r_inverseRelation exGenCategories)))"
  by code_simp

lemma exNewLink_secondColumn:
  "exIdColumn = (if r_isOwning exGenCategories
                 then jt_inverseReferencedColumn (r_joinTable exGenCategories)
                 else jt_referencedColumn (ir_joinTable (r_inverseRelation exGenCategories)))"
  by code_simp

lemma exNewLink_own:
  "getOwnEntityRelationId exEnv exGenCategories (heap exNewLinkState)
     (entity (subjects exNewLinkState ! 0)) = Inr JUndefined"
  by code_simp

lemma exNewLink_ownId:
  "JNum 5 = (if truthy JUndefined then JUndefined
             else if c_isGenerated exIdColumn then newlyGeneratedId (subjects exNewLinkState ! 0)
             else if c_isObjectId exIdColumn then generatedObjectId (subjects exNewLinkState ! 0)
             else JUndefined)"
  by code_simp

lemma exNewLink_reads:
  "map (\<lambda>e. getProp (heap exNewLinkState) e (c_propertyName exIdColumn))
     (ji_junctionEntities exLinkNew) = map Inr [JUndefined, JNum 9]"
  by code_simp

lemma exNewLink_relatedIds:
  "[JNum 6, JNum 9] =
     map (\<lambda>(e, v).
            if truthy v then v
            else (case find (\<lambda>x. strictEq (entity x) e)
                         (map (\<lambda>j. subjects exNewLinkState ! j) [0, 1]) of
                    None \<Rightarrow> v
                  | Some inserted \<Rightarrow>
                      if c_isGenerated exIdColumn then newlyGeneratedId inserted
                      else if c_isObjectId exIdColumn then generatedObjectId inserted
                      else v))
         (zip (ji_junctionEntities exLinkNew) [JUndefined, JNum 9])"
  by code_simp

lemma exNewLink_rows:
  "[QInsert ''post_categories'' [(''postId'', JNum 5), (''categoryId'', JNum 6)] None,
    QInsert ''post_categories'' [(''postId'', JNum 5), (''categoryId'', JNum 9)] None] =
     map (\<lambda>relatedId.
            QInsert (t_name (l_table (r_junctionEntityMetadata exGenCategories)))
              (zipObject exEnv
                 (map c_fullName (l_columnsWithoutEmbeddeds (r_junctionEntityMetadata exGenCategories)))
                 (if r_isOwning exGenCategories then [JNum 5, relatedId] else [relatedId, JNum 5]))
              None)
         [JNum 6, JNum 9]"
  by code_simp

lemma exNewLink_accepted:
  "acceptedRun exEnv
     [QInsert ''post_categories'' [(''postId'', JNum 5), (''categoryId'', JNum 6)] None,
      QInsert ''post_categories'' [(''postId'', JNum 5), (''categoryId'', JNum 9)] None]
     (db exNewLinkState) = Some ()"
  by code_simp

lemma exNewLink_start: "trace exNewLinkState = []"
  by code_simp

lemma exInverse_relation: "exPosts = ji_relation exLinkPosts"
  by code_simp

lemma exInverse_manyToMany:
  "r_isManyToManyOwner exPosts = r_isOwning exPosts \<and>
   r_isManyToManyNotOwner exPosts = (\<not> r_isOwning exPosts)"
  by code_simp

lemma exInverse_firstColumn:
  "exColumn ''id'' = (if r_isOwning exPosts then jt_referencedColumn (r_joinTable exPosts)
                 else jt_inverseReferencedColumn (ir_joinTable (r_inverseRelation exPosts)))"
  by code_simp

lemma exInverse_secondColumn:
  "exColumn ''id'' = (if r_isOwning exPosts
                 then jt_inverseReferencedColumn (r_joinTable exPosts)
                 else jt_referencedColumn (ir_joinTable (r_inverseRelation exPosts)))"
  by code_simp

lemma exInverse_own:
  "getOwnEntityRelationId exEnv exPosts (heap exJunctionState)
     (entity (subjects exJunctionState ! 1)) = Inr (JNum 9)"
  by code_simp

lemma exInverse_ownId:
  "JNum 9 = (if truthy (JNum 9) then JNum 9
             else if c_isGenerated (exColumn ''id'') then newlyGeneratedId (subjects exJunctionState ! 1)
             else if c_isObjectId (exColumn ''id'') then generatedObjectId (subjects exJunctionState ! 1)
             else JNum 9)"
  by code_simp

lemma exInverse_reads:
  "map (\<lambda>e. getProp (heap exJunctionState) e (c_propertyName (exColumn ''id'')))
     (ji_junctionEntities exLinkPosts) = map Inr [JNum 7]"
  by code_simp

lemma exInverse_relatedIds:
  "[JNum 7] =
     map (\<lambda>(e, v).
            if truthy v then v
            else (case find (\<lambda>x. strictEq (entity x) e)
                         (map (\<lambda>j. subjects exJunctionState ! j) []) of
                    None \<Rightarrow> v
                  | Some inserted \<Rightarrow>
                      if c_isGenerated (exColumn ''id'') then newlyGeneratedId inserted
                      else if c_isObjectId (exColumn ''id'') then generatedObjectId inserted
                      else v))
         (zip (ji_junctionEntities exLinkPosts) [JNum 7])"
  by code_simp

lemma exInverse_rows:
  "[QInsert ''post_categories'' [(''postId'', JNum 7), (''categoryId'', JNum 9)] None] =
     map (\<lambda>relatedId.
            QInsert (t_name (l_table (r_junctionEntityMetadata exPosts)))
              (zipObject exEnv
                 (map c_fullName (l_columnsWithoutEmbeddeds (r_junctionEntityMetadata exPosts)))
                 (if r_isOwning exPosts then [JNum 9, relatedId] else [relatedId, JNum 9]))
              None)
         [JNum 7]"
  by code_simp

lemma exInverse_accepted:
  "acceptedRun exEnv
     [QInsert ''post_categories'' [(''postId'', JNum 7), (''categoryId'', JNum 9)] None]
     (db exJunctionState) = Some ()"
  by code_simp

lemma exInverse_start: "trace exJunctionState = [] \<and> \<not> r_isOwning exPosts"
  by code_simp

lemma exDangling_relation: "exCategories = ji_relation exLinkUnsaved"
  by code_simp

lemma exDangling_manyToMany:
  "r_isManyToManyOwner exCategories = r_isOwning exCategories \<and>
   r_isManyToManyNotOwner exCategories = (\<not> r_isOwning exCategories)"
  by code_simp

lemma exDangling_firstColumn:
  "exColumn ''id'' = (if r_isOwning exCategories then jt_referencedColumn (r_joinTable exCategories)
                 else jt_inverseReferencedColumn (ir_joinTable (r_inverseRelation exCategories)))"
  by code_simp

lemma exDangling_secondColumn:
  "exColumn ''id'' = (if r_isOwning exCategories
                 then jt_inverseReferencedColumn (r_joinTable exCategories)
                 else jt_referencedColumn (ir_joinTable (r_inverseRelation exCategories)))"
  by code_simp

lemma exDangling_own:
  "getOwnEntityRelationId exEnv exCategories (heap exDanglingClosure)
     (entity (subjects exDanglingClosure ! 0)) = Inr (JNum 7)"
  by code_simp

lemma exDangling_ownId:
  "JNum 7 = (if truthy (JNum 7) then JNum 7
             else if c_isGenerated (exColumn ''id'') then newlyGeneratedId (subjects exDanglingClosure ! 0)
             else if c_isObjectId (exColumn ''id'') then generatedObjectId (subjects exDanglingClosure ! 0)
             else JNum 7)"
  by code_simp

lemma exDangling_reads:
  "map (\<lambda>e. getProp (heap exDanglingClosure) e (c_propertyName (exColumn ''id'')))
     (ji_junctionEntities exLinkUnsaved) = map Inr [JNum 9, JUndefined]"
  by code_simp

lemma exDangling_relatedIds:
  "[JNum 9, JUndefined] =
     map (\<lambda>(e, v).
            if truthy v then v
            else (case find (\<lambda>x. strictEq (entity x) e)
                         (map (\<lambda>j. subjects exDanglingClosure ! j) []) of
                    None \<Rightarrow> v
                  | Some inserted \<Rightarrow>
                      if c_isGenerated (exColumn ''id'') then newlyGeneratedId inserted
                      else if c_isObjectId (exColumn ''id'') then generatedObjectId inserted
                      else v))
         (zip (ji_junctionEntities exLinkUnsaved) [JNum 9, JUndefined])"
  by code_simp

lemma exDangling_valid:
  "List.find (\<lambda>x. validate exEnv x \<noteq> None) exDanglingSubs = None"
  by code_simp

lemma exDangling_nonempty: "\<not> nothingToExecute exDanglingSubs"
  by code_simp

lemma exDangling_acquire:
  "acquireTransaction exEnv (exJunctionState\<lparr>subjects := exDanglingSubs\<rparr>)
     = (Inr (), True, exDanglingAcquired)"
  unfolding exDanglingAcquired_def by (rule triple_fst_snd; code_simp)

lemma exDangling_before:
  "broadcastBeforeEventsForAll exEnv (subjectsWhere mustBeInserted exDanglingSubs)
     (subjectsWhere mustBeUpdated exDanglingSubs) (subjectsWhere mustBeRemoved exDanglingSubs)
     exDanglingAcquired
   = (Inr (), exDanglingBroadcast)"
  unfolding exDanglingBroadcast_def by (rule pair_fst_snd; code_simp)

lemma exDangling_inserted:
  "executeInsertOperations exEnv (subjectsWhere mustBeInserted exDanglingSubs)
     (snd (recomputeSubjects exEnv (subjectsWhere mustBeUpdated exDanglingSubs) exDanglingBroadcast))
   = (Inr (), exDanglingInserted)"
  unfolding exDanglingInserted_def by (rule pair_fst_snd; code_simp)

lemma exDangling_closure:
  "executeInsertClosureTableOperations exEnv (subjectsWhere mustBeInserted exDanglingSubs)
     exDanglingInserted
   = (Inr (), exDanglingClosure)"
  unfolding exDanglingClosure_def by (rule pair_fst_snd; code_simp)

lemma exDangling_member:
  "[] = subjectsWhere mustBeInserted exDanglingSubs \<and>
   0 < length (subjects exDanglingClosure) \<and>
   exLinkUnsaved \<in> set (junctionInserts (subjects exDanglingClosure ! 0))"
  by code_simp

lemma exDangling_result:
  "fst (execute exEnv exDanglingSubs exJunctionState) = Inl notPersisted \<and>
   trace (snd (execute exEnv exDanglingSubs exJunctionState)) =
     [Provide, IsTransactionActive, BeginTransaction,
      BroadcastBeforeEventsForAll [] [] [],
      Query (QInsert ''post_categories'' [(''postId'', JNum 7), (''categoryId'', JNum 9)] None),
      RollbackTransaction]"
  by code_simp

section \<open>Remove: the statements of one subject\<close>

text \<open>
  C2 (as amended). A remove that succeeds on a subject whose metadata has a parent entity
  metadata issues exactly two deletes: the first on the parent's table, keyed by the
  \<open>parentPrimaryColumns\<close> read from the database snapshot, the second on the entity's
  own (child) table, keyed by the \<open>primaryColumnsWithParentIdColumns\<close> read from the
  snapshot. Without parent metadata it issues exactly one delete, on the entity's own
  table, keyed by \<open>getEntityIdColumnMap\<close> of the snapshot.
\<close>

theorem remove_statements:
  assumes "removeSubject env sj s = (Inr u, s')"
  shows "case parentEntityMetadata (metadata sj) of
           Some pm \<Rightarrow>
             (\<exists>pc cc.
                conditionsOf (heap s) (databaseEntity sj)
                  (m_parentPrimaryColumns (mfields (metadata sj))) = Inr pc \<and>
                conditionsOf (heap s) (databaseEntity sj)
                  (m_primaryColumnsWithParentIdColumns (mfields (metadata sj))) = Inr cc \<and>
                trace s' = trace s @
                  [Query (QDelete (tableName pm) (Some pc)),
                   Query (QDelete (tableName (metadata sj)) (Some cc))])
         | None \<Rightarrow>
             (\<exists>idMap.
                getEntityIdColumnMap env (metadata sj) (heap s) (databaseEntity sj) = Inr idMap \<and>
                trace s' = trace s @ [Query (QDelete (tableName (metadata sj)) idMap)])"
proof (cases "parentEntityMetadata (metadata sj)")
  case None
  show ?thesis
  proof (cases "getEntityIdColumnMap env (metadata sj) (heap s) (databaseEntity sj)")
    case (Inl e)
    with None assms show ?thesis by (simp add: removeSubject_def)
  next
    case (Inr idMap)
    with None assms have
      "queryUnit env (QDelete (tableName (metadata sj)) idMap) s = (Inr u, s')"
      by (simp add: removeSubject_def tableName_def)
    from queryUnit_state[OF this] None Inr show ?thesis by simp
  qed
next
  case (Some pm)
  show ?thesis
  proof (cases "conditionsOf (heap s) (databaseEntity sj)
                  (m_parentPrimaryColumns (mfields (metadata sj)))")
    case (Inl e)
    with Some assms show ?thesis by (simp add: removeSubject_def)
  next
    case (Inr pc)
    obtain r1 s1 where q1: "queryUnit env (QDelete (tableName pm) (Some pc)) s = (r1, s1)"
      by (cases "queryUnit env (QDelete (tableName pm) (Some pc)) s")
    with Some Inr assms obtain u1 where r1: "r1 = Inr u1"
      by (cases r1) (auto simp: removeSubject_def tableName_def)
    note st1 = queryUnit_state[OF q1]
    show ?thesis
    proof (cases "conditionsOf (heap s) (databaseEntity sj)
                    (m_primaryColumnsWithParentIdColumns (mfields (metadata sj)))")
      case (Inl e)
      with Some Inr q1 r1 st1 assms show ?thesis
        by (simp add: removeSubject_def tableName_def)
    next
      case cc: (Inr cc)
      with Some Inr q1 r1 st1 assms have
        "queryUnit env (QDelete (tableName (metadata sj)) (Some cc)) s1 = (Inr u, s')"
        by (simp add: removeSubject_def tableName_def)
      from queryUnit_state[OF this] st1 Some Inr cc show ?thesis by simp
    qed
  qed
qed

text \<open>
  The order claimed for C2 (child table first, parent table second) is not the order of
  the code: for a cat whose parent table is \<open>animal\<close> the first delete goes to
  \<open>animal\<close>, the second to \<open>cat\<close>.
\<close>

theorem remove_child_first_counterexample:
  "parentEntityMetadata (metadata exRemovedCat) = Some (Metadata (exFields ''animal'') None) \<and>
   tableName (Metadata (exFields ''animal'') None) = ''animal'' \<and>
   tableName (metadata exRemovedCat) = ''cat'' \<and>
   trace (snd (removeSubject exEnv exRemovedCat (exState []))) =
     [Query (QDelete ''animal'' (Some [(''id'', JNum 7)])),
      Query (QDelete ''cat'' (Some [(''id'', JNum 7)]))]"
  unfolding exRemove_eval
  by (simp add: ex_defs ex2_defs tableName_def)

theorem remove_statements_witness:
  "removeSubject exEnv exRemovedCat (exState []) =
     (Inr (), snd (removeSubject exEnv exRemovedCat (exState []))) \<and>
   (\<exists>pc cc. trace (snd (removeSubject exEnv exRemovedCat (exState []))) =
      trace (exState []) @ [Query (QDelete ''animal'' (Some pc)), Query (QDelete ''cat'' (Some cc))])"
proof -
  have h: "removeSubject exEnv exRemovedCat (exState []) =
     (Inr (), snd (removeSubject exEnv exRemovedCat (exState [])))"
    unfolding exRemove_eval by simp
  have p: "parentEntityMetadata (metadata exRemovedCat) = Some (Metadata (exFields ''animal'') None)"
    by (simp add: ex_defs ex2_defs)
  have t: "tableName (Metadata (exFields ''animal'') None) = ''animal''"
     "tableName (metadata exRemovedCat) = ''cat''"
    by (simp_all add: ex_defs ex2_defs tableName_def)
  from remove_statements[OF h] show ?thesis
    unfolding p option.case t using h by blast
qed

section \<open>Update: when a statement is issued\<close>

text \<open>
  C8 (as amended). An update subject whose diffed columns and diffed relations produce
  no value to write issues no statement and changes nothing, whether or not its metadata
  has a version or an update-date column. When the diffs do produce a value and the
  metadata has a version or an update-date column, a successful update writes to the
  subject's own table.
\<close>

theorem update_writes:
  "(updateDiffs env (heap s) sj = Inr [] \<longrightarrow> updateSubject env sj s = (Inr (), s)) \<and>
   (updateDiffs env (heap s) sj = Inr vms \<and> vms \<noteq> [] \<and>
    (m_hasVersionColumn (mfields (metadata sj)) \<or> m_hasUpdateDateColumn (mfields (metadata sj))) \<and>
    updateSubject env sj s = (Inr u, s') \<longrightarrow>
    (\<exists>new vals idMap. trace s' = trace s @ new \<and>
        Query (QUpdate (tableName (metadata sj)) vals idMap) \<in> set new))"
proof (intro conjI impI)
  assume "updateDiffs env (heap s) sj = Inr []"
  then show "updateSubject env sj s = (Inr (), s)"
    by (simp add: updateSubject_def)
next
  assume a: "updateDiffs env (heap s) sj = Inr vms \<and> vms \<noteq> [] \<and>
    (m_hasVersionColumn (mfields (metadata sj)) \<or> m_hasUpdateDateColumn (mfields (metadata sj))) \<and>
    updateSubject env sj s = (Inr u, s')"
  then have d: "updateDiffs env (heap s) sj = Inr vms" and ne: "vms \<noteq> []"
    and has: "m_hasVersionColumn (mfields (metadata sj)) \<or> m_hasUpdateDateColumn (mfields (metadata sj))"
    and ok: "updateSubject env sj s = (Inr u, s')"
    by simp_all
  from updateSubject_success[OF ok d ne] obtain vms1 s1 vms2 s2 where
    sp: "addSpecial env (metadata sj) (entity sj) vms s = (Inr vms1, s1)" and
    pp: "(case parentEntityMetadata (metadata sj) of
            None \<Rightarrow> (Inr vms1, s1)
          | Some pm \<Rightarrow> addSpecial env pm (entity sj) vms1 s1) = (Inr vms2, s2)" and
    iss: "forEachS (issueUpdate env (entity sj)) vms2 s2 = (Inr u, s')"
    by blast
  have own1: "tableName (metadata sj) \<in> set (map fst vms1)"
    using addSpecial_tables[OF sp] has by simp
  have sub: "set (map fst vms1) \<subseteq> set (map fst vms2) \<and> trace s2 = trace s1"
  proof (cases "parentEntityMetadata (metadata sj)")
    case None
    with pp show ?thesis by simp
  next
    case (Some pm)
    with pp have p: "addSpecial env pm (entity sj) vms1 s1 = (Inr vms2, s2)" by simp
    from addSpecial_tables[OF p] addSpecial_state[OF p] show ?thesis
      by (cases "m_hasVersionColumn (mfields pm) \<or> m_hasUpdateDateColumn (mfields pm)") auto
  qed
  with own1 have "tableName (metadata sj) \<in> set (map fst vms2)" by blast
  then obtain vm where vm: "vm \<in> set vms2" "fst vm = tableName (metadata sj)"
    by auto
  have t12: "trace s2 = trace s"
    using addSpecial_state[OF sp] sub by simp
  from issueUpdates_trace[OF iss] obtain new where
    n1: "trace s' = trace s2 @ new" and
    n2: "\<forall>vm \<in> set vms2. \<exists>idMap. Query (QUpdate (fst vm) (snd (snd vm)) idMap) \<in> set new"
    by blast
  from n2 vm obtain idMap where
    "Query (QUpdate (tableName (metadata sj)) (snd (snd vm)) idMap) \<in> set new"
    by metis
  with n1 t12 show "\<exists>new vals idMap. trace s' = trace s @ new \<and>
        Query (QUpdate (tableName (metadata sj)) vals idMap) \<in> set new"
    by auto
qed

text \<open>
  C8 as stated fails: a subject with a version column and an update-date column, and no
  diff, issues nothing.
\<close>

theorem update_forced_write_counterexample:
  "m_hasVersionColumn (mfields (metadata exUnchanged)) \<and>
   m_hasUpdateDateColumn (mfields (metadata exUnchanged)) \<and>
   updateSubject exUpdateEnv exUnchanged (exState []) = (Inr (), exState []) \<and>
   trace (exState []) = []"
  by (simp add: updateSubject_def exUnchanged_eval) (simp add: ex_defs ex2_defs)

theorem update_writes_witness:
  "updateDiffs exUpdateEnv (heap (exState [])) exUnchanged = Inr [] \<and>
   updateSubject exUpdateEnv exUnchanged (exState []) = (Inr (), exState []) \<and>
   updateDiffs exUpdateEnv (heap (exState [])) exChanged =
     Inr [(''post'', exPost, [(''title'', JStr ''a'')])] \<and>
   m_hasVersionColumn (mfields (metadata exChanged)) \<and>
   fst (updateSubject exUpdateEnv exChanged (exState [])) = Inr () \<and>
   (\<exists>new vals idMap.
      trace (snd (updateSubject exUpdateEnv exChanged (exState []))) = trace (exState []) @ new \<and>
      Query (QUpdate (tableName (metadata exChanged)) vals idMap) \<in> set new)"
proof -
  have v: "m_hasVersionColumn (mfields (metadata exChanged))"
    by (simp add: ex_defs ex2_defs)
  have ok: "updateSubject exUpdateEnv exChanged (exState []) =
              (Inr (), snd (updateSubject exUpdateEnv exChanged (exState [])))"
    unfolding exChanged_eval by simp
  have ne: "[(''post'', exPost, [(''title'', JStr ''a'')])] \<noteq> []" by simp
  from update_writes[of exUpdateEnv "exState []" exUnchanged] exUnchanged_eval
  have a: "updateSubject exUpdateEnv exUnchanged (exState []) = (Inr (), exState [])"
    by blast
  from update_writes[of exUpdateEnv "exState []" exChanged
      "[(''post'', exPost, [(''title'', JStr ''a'')])]" "()"
      "snd (updateSubject exUpdateEnv exChanged (exState []))"]
    exChanged_diffs ne v ok
  have b: "\<exists>new vals idMap.
      trace (snd (updateSubject exUpdateEnv exChanged (exState []))) = trace (exState []) @ new \<and>
      Query (QUpdate (tableName (metadata exChanged)) vals idMap) \<in> set new"
    by blast
  from ok have c: "fst (updateSubject exUpdateEnv exChanged (exState [])) = Inr ()"
    by (metis fst_conv)
  from exUnchanged_eval a exChanged_diffs v c b show ?thesis by blast
qed

section \<open>Update: the update date\<close>

text \<open>
  C3. The claim is that the update date written by the update phase is the subject's
  \<open>date\<close>, the value that materialization later puts on the entity. The update phase
  writes \<open>new Date()\<close> instead: with the subject's \<open>date\<close> at 1000 and the clock at
  2000, the statement carries 2000 and the entity receives 1000.
\<close>

theorem update_date_not_subject_date:
  "m_hasUpdateDateColumn (mfields (metadata exChanged)) \<and>
   date exChanged = JDate 1000 \<and>
   trace (snd (updateSubject exUpdateEnv exChanged (exState []))) =
     [Query (QUpdate ''post''
        [(''title'', JStr ''a''), (''updatedAt'', JDate 2000), (''version'', JNum 4)]
        [(''id'', JNum 7)])] \<and>
   snd (updateSpecialColumnsInPersistedEntities exUpdateEnv [exChanged] [] [0] [] exHeap)
       1 ''updatedAt'' = Some (JDate 1000)"
  unfolding exChanged_eval
  by (simp add: ex_defs ex2_defs updateSpecialColumnsInPersistedEntities_def seqS_def whenS_def
        materializeUpdated_def setPropS_def setProp_def getProp_def jsIncrement_def)

section \<open>execute: nothing to do\<close>

text \<open>
  C9. \<open>execute\<close> on an empty subject list returns normally. It adds no event to the
  trace (no query runner is obtained, no transaction call, no broadcast, no statement)
  and leaves the database and the heap as they were.
\<close>

theorem execute_empty:
  "execute env [] s = (Inr (), s\<lparr>subjects := []\<rparr>) \<and>
   trace (snd (execute env [] s)) = trace s \<and>
   db (snd (execute env [] s)) = db s \<and>
   heap (snd (execute env [] s)) = heap s"
  by (simp add: execute_def nothingToExecute_def)

theorem execute_empty_witness:
  "execute exRejectEnv [] exInsertState = (Inr (), exInsertState\<lparr>subjects := []\<rparr>) \<and>
   trace (snd (execute exRejectEnv [] exInsertState)) = []"
  using execute_empty[of exRejectEnv exInsertState]
  by (simp add: exInsertState_def)

section \<open>execute: rollback\<close>

text \<open>
  C5. Let \<open>execute\<close> fail with an error \<open>e\<close> after validation has passed and the query
  runner has been obtained; this covers every failure after the transaction was opened.
  Then \<open>e\<close> is the error with which the \<open>try\<close> block ended, and the flag equals "no
  transaction was active when the query runner was asked". The \<open>try\<close> block itself never
  rolls back. If a transaction was already active, the final state is that of the \<open>try\<close>
  block, and the call has begun, committed and rolled back nothing. Otherwise the final
  state is that of the \<open>try\<close> block followed by exactly one \<open>rollbackTransaction\<close>, of
  whose outcome only the database is kept: its own error is dropped.
\<close>

theorem execute_rollback_discipline:
  assumes res: "execute env subs s = (Inl e, s')"
    and valid: "List.find (\<lambda>sj. validate env sj \<noteq> None) subs = None"
    and prov: "provide env (db s) = None"
  shows "\<exists>s1. executeTry env (subjectsWhere mustBeInserted subs) (subjectsWhere mustBeUpdated subs)
                 (subjectsWhere mustBeRemoved subs) (subjectsWhere hasRelationUpdates subs)
                 (s\<lparr>subjects := subs\<rparr>)
               = (Inl e, \<not> isTransactionActive env (db s), s1) \<and>
              RollbackTransaction \<notin> set (newEvents s s1) \<and>
              (if isTransactionActive env (db s)
               then s' = s1 \<and> BeginTransaction \<notin> set (newEvents s s') \<and>
                    CommitTransaction \<notin> set (newEvents s s')
               else s' = s1\<lparr>db := snd (rollbackTransaction env (db s1)),
                           trace := trace s1 @ [RollbackTransaction]\<rparr>)"
proof -
  let ?ins = "subjectsWhere mustBeInserted subs" and ?upd = "subjectsWhere mustBeUpdated subs"
  let ?rem = "subjectsWhere mustBeRemoved subs" and ?rel = "subjectsWhere hasRelationUpdates subs"
  let ?s0 = "s\<lparr>subjects := subs\<rparr>"
  have ne: "\<not> nothingToExecute subs"
    using res valid by (auto simp: execute_def Let_def)
  obtain r flag s1 where t: "executeTry env ?ins ?upd ?rem ?rel ?s0 = (r, flag, s1)"
    by (cases "executeTry env ?ins ?upd ?rem ?rel ?s0")
  with res valid ne have r: "r = Inl e" and s': "s' = snd (catchBlock env flag e s1)"
    by (cases r; simp add: execute_def Let_def catchBlock_def)+
  obtain ra fa sa where a: "acquireTransaction env ?s0 = (ra, fa, sa)"
    by (cases "acquireTransaction env ?s0")
  from prov have prov0: "provide env (db ?s0) = None" by simp
  from acquireTransaction_state[OF a prov0] have
    fa: "fa = (\<not> isTransactionActive env (db s))" and
    ta: "trace sa = trace s @ [Provide, IsTransactionActive] @ (if fa then [BeginTransaction] else [])"
    by simp_all
  have fl: "flag = fa" and be: "bodyEvents fa sa s1"
  proof -
    show "flag = fa" using t a by (cases ra) (auto simp: executeTry_def split: prod.splits)
    show "bodyEvents fa sa s1"
    proof (cases ra)
      case (Inl x)
      with t a have "s1 = sa" by (simp add: executeTry_def)
      then show ?thesis by (simp add: be_refl)
    next
      case (Inr u)
      obtain rb sb where b: "executeBody env fa ?ins ?upd ?rem ?rel sa = (rb, sb)"
        by (cases "executeBody env fa ?ins ?upd ?rem ?rel sa")
      with t a Inr have "s1 = sb" by (simp add: executeTry_def)
      with be_executeBody[OF b] show ?thesis by simp
    qed
  qed
  from be obtain new where
    n: "trace s1 = trace sa @ new" "BeginTransaction \<notin> set new" "RollbackTransaction \<notin> set new"
       "fa \<or> CommitTransaction \<notin> set new"
    unfolding bodyEvents_def by blast
  have t1: "trace s1 = trace s @ ([Provide, IsTransactionActive] @ (if fa then [BeginTransaction] else []) @ new)"
    using ta n(1) by simp
  note ev1 = newEvents_append[OF t1]
  have norb: "RollbackTransaction \<notin> set (newEvents s s1)"
    unfolding ev1 using n(3) by auto
  show ?thesis
  proof (cases "isTransactionActive env (db s)")
    case True
    with fa fl have nf: "\<not> flag" "\<not> fa" by simp_all
    with s' have eq: "s' = s1" by (simp add: catchBlock_def)
    have "BeginTransaction \<notin> set (newEvents s s1)" "CommitTransaction \<notin> set (newEvents s s1)"
      unfolding ev1 using n nf by auto
    with True t r fl fa norb eq show ?thesis by auto
  next
    case False
    with fa fl have f: "flag" by simp
    with s' have "s' = s1\<lparr>db := snd (rollbackTransaction env (db s1)),
                           trace := trace s1 @ [RollbackTransaction]\<rparr>"
      by (cases "rollbackTransaction env (db s1)") (simp add: catchBlock_def transactionCall_def)
    with False t r fl fa norb show ?thesis by auto
  qed
qed

theorem execute_rollback_discipline_witness:
  "execute exRejectEnv [exNewNote, exNewTag] exInsertState =
     (Inl (Rejected 1), snd (execute exRejectEnv [exNewNote, exNewTag] exInsertState)) \<and>
   List.find (\<lambda>sj. validate exRejectEnv sj \<noteq> None) [exNewNote, exNewTag] = None \<and>
   provide exRejectEnv (db exInsertState) = None \<and>
   \<not> isTransactionActive exRejectEnv (db exInsertState) \<and>
   fst (rollbackTransaction exRejectEnv ()) = Some (Rejected 9) \<and>
   (\<exists>s1. snd (execute exRejectEnv [exNewNote, exNewTag] exInsertState) =
           s1\<lparr>db := snd (rollbackTransaction exRejectEnv (db s1)),
               trace := trace s1 @ [RollbackTransaction]\<rparr> \<and>
         RollbackTransaction \<notin> set (newEvents exInsertState s1))"
proof -
  let ?subs = "[exNewNote, exNewTag]"
  have h: "execute exRejectEnv ?subs exInsertState =
             (Inl (Rejected 1), snd (execute exRejectEnv ?subs exInsertState))"
    by (rule pair_fst_snd[OF exReject_result])
  from execute_rollback_discipline[OF h exReject_valid exReject_provide] exReject_inactive
  have "\<exists>s1. snd (execute exRejectEnv ?subs exInsertState) =
           s1\<lparr>db := snd (rollbackTransaction exRejectEnv (db s1)),
               trace := trace s1 @ [RollbackTransaction]\<rparr> \<and>
         RollbackTransaction \<notin> set (newEvents exInsertState s1)"
    by auto
  with h exReject_valid exReject_provide exReject_inactive exReject_rollback_fails
  show ?thesis by blast
qed

section \<open>execute: no materialization after a failed phase\<close>

text \<open>
  C6. Let validation pass, the transaction be acquired and the before-events be
  broadcast, and let the phases then run. They add only statements to the trace, and if
  replaying these statements on the database meets a rejected one, the phases have
  failed. Whenever the phases fail with an error \<open>e\<close> (a rejected statement, or an error
  thrown while a statement is prepared), \<open>execute\<close> fails with \<open>e\<close>, the heap at the end
  is the heap as the before-events left it, so that no generated id, date, version or
  tree level has been written onto an entity, and neither a commit nor the after-events
  follow.
\<close>

theorem phase_failure_skips_materialization:
  assumes valid: "List.find (\<lambda>sj. validate env sj \<noteq> None) subs = None"
    and ne: "\<not> nothingToExecute subs"
    and acq: "acquireTransaction env (s\<lparr>subjects := subs\<rparr>) = (Inr (), flag, s1)"
    and bef: "broadcastBeforeEventsForAll env (subjectsWhere mustBeInserted subs)
                (subjectsWhere mustBeUpdated subs) (subjectsWhere mustBeRemoved subs) s1
              = (Inr (), s2)"
    and ph: "executePhases env (subjectsWhere mustBeInserted subs)
               (subjectsWhere mustBeUpdated subs) (subjectsWhere mustBeRemoved subs)
               (subjectsWhere hasRelationUpdates subs)
               (snd (recomputeSubjects env (subjectsWhere mustBeUpdated subs) s2))
             = (r, s3)"
  shows "(\<exists>qs. trace s3 = trace s2 @ map Query qs \<and>
               (acceptedRun env qs (db s2) = None \<longrightarrow> (\<exists>e. r = Inl e))) \<and>
         (\<forall>e. r = Inl e \<longrightarrow>
            fst (execute env subs s) = Inl e \<and>
            heap (snd (execute env subs s)) = heap s2 \<and>
            CommitTransaction \<notin> set (newEvents s1 (snd (execute env subs s))) \<and>
            (\<forall>i u d. BroadcastAfterEventsForAll i u d
                        \<notin> set (newEvents s1 (snd (execute env subs s)))))"
proof -
  let ?ins = "subjectsWhere mustBeInserted subs" and ?upd = "subjectsWhere mustBeUpdated subs"
  let ?rem = "subjectsWhere mustBeRemoved subs" and ?rel = "subjectsWhere hasRelationUpdates subs"
  let ?s0 = "s\<lparr>subjects := subs\<rparr>"
  obtain rr sr where rc: "recomputeSubjects env ?upd s2 = (rr, sr)"
    by (cases "recomputeSubjects env ?upd s2")
  from recomputeSubjects_state[OF rc] have rr: "rr = Inr ()" and
    sr: "trace sr = trace s2" "heap sr = heap s2" "db sr = db s2" by simp_all
  from ph rc have ph': "executePhases env ?ins ?upd ?rem ?rel sr = (r, s3)" by simp
  from qo_executePhases[OF ph'] obtain qs where
    h3: "heap s3 = heap sr" and t3: "trace s3 = trace sr @ map Query qs"
    unfolding queriesOnly_def by blast
  have part1: "\<exists>qs. trace s3 = trace s2 @ map Query qs \<and>
               (acceptedRun env qs (db s2) = None \<longrightarrow> (\<exists>e. r = Inl e))"
  proof (intro exI[of _ qs] conjI impI)
    show "trace s3 = trace s2 @ map Query qs" using t3 sr by simp
  next
    assume "acceptedRun env qs (db s2) = None"
    then have "acceptedRun env qs (db sr) = None" using sr by simp
    from rejected_statement_fails_phases[OF ph' t3 this] show "\<exists>e. r = Inl e" .
  qed
  have part2: "\<forall>e. r = Inl e \<longrightarrow>
            fst (execute env subs s) = Inl e \<and>
            heap (snd (execute env subs s)) = heap s2 \<and>
            CommitTransaction \<notin> set (newEvents s1 (snd (execute env subs s))) \<and>
            (\<forall>i u d. BroadcastAfterEventsForAll i u d
                        \<notin> set (newEvents s1 (snd (execute env subs s))))"
  proof (intro allI impI)
    fix e assume re: "r = Inl e"
    have body: "executeBody env flag ?ins ?upd ?rem ?rel s1 = (Inl e, s3)"
      unfolding executeBody_unfold using bef rc rr ph' re by simp
    then have tryb: "executeTry env ?ins ?upd ?rem ?rel ?s0 = (Inl e, flag, s3)"
      using acq by (simp add: executeTry_def)
    then have ex: "execute env subs s = catchBlock env flag e s3"
      using valid ne by (simp add: execute_def Let_def)
    from bef have t2: "trace s2 = trace s1 @ [BroadcastBeforeEventsForAll ?ins ?upd ?rem]"
      by (auto simp: broadcastBeforeEventsForAll_def Let_def logEvent_def split: sum.splits)
    let ?s' = "snd (catchBlock env flag e s3)"
    have hs: "heap ?s' = heap s3"
      by (cases "rollbackTransaction env (db s3)") (simp add: catchBlock_def transactionCall_def)
    have ts: "trace ?s' = trace s1 @ ([BroadcastBeforeEventsForAll ?ins ?upd ?rem] @ map Query qs @
                 (if flag then [RollbackTransaction] else []))"
      using t2 t3 sr
      by (cases "rollbackTransaction env (db s3)") (simp add: catchBlock_def transactionCall_def)
    note ev = newEvents_append[OF ts]
    have "fst (execute env subs s) = Inl e" using ex by (simp add: catchBlock_def)
    moreover have "heap (snd (execute env subs s)) = heap s2" using ex hs h3 sr by simp
    moreover have "CommitTransaction \<notin> set (newEvents s1 (snd (execute env subs s)))"
      unfolding ex ev by auto
    moreover have "\<forall>i u d. BroadcastAfterEventsForAll i u d
                     \<notin> set (newEvents s1 (snd (execute env subs s)))"
      unfolding ex ev by auto
    ultimately show "fst (execute env subs s) = Inl e \<and>
            heap (snd (execute env subs s)) = heap s2 \<and>
            CommitTransaction \<notin> set (newEvents s1 (snd (execute env subs s))) \<and>
            (\<forall>i u d. BroadcastAfterEventsForAll i u d
                        \<notin> set (newEvents s1 (snd (execute env subs s))))"
      by blast
  qed
  from part1 part2 show ?thesis by blast
qed

theorem phase_failure_skips_materialization_witness:
  "List.find (\<lambda>sj. validate exRejectEnv sj \<noteq> None) exSubs = None \<and>
   \<not> nothingToExecute exSubs \<and>
   acquireTransaction exRejectEnv (exInsertState\<lparr>subjects := exSubs\<rparr>) = (Inr (), True, exAcquired) \<and>
   broadcastBeforeEventsForAll exRejectEnv (subjectsWhere mustBeInserted exSubs)
     (subjectsWhere mustBeUpdated exSubs) (subjectsWhere mustBeRemoved exSubs) exAcquired
     = (Inr (), exBroadcast) \<and>
   trace (snd exPhases) = trace exBroadcast @ map Query
     [QInsert ''tag'' [(''name'', JStr ''t'')] (Some exIdColumn),
      QInsert ''note'' [(''text'', JStr ''n''), (''tag'', JNum 5)] None] \<and>
   acceptedRun exRejectEnv
     [QInsert ''tag'' [(''name'', JStr ''t'')] (Some exIdColumn),
      QInsert ''note'' [(''text'', JStr ''n''), (''tag'', JNum 5)] None] (db exBroadcast) = None \<and>
   fst exPhases = Inl (Rejected 1) \<and>
   fst (execute exRejectEnv exSubs exInsertState) = Inl (Rejected 1) \<and>
   heap (snd (execute exRejectEnv exSubs exInsertState)) = heap exBroadcast \<and>
   heap (snd (execute exRejectEnv exSubs exInsertState)) 2 ''id'' = None \<and>
   CommitTransaction \<notin> set (newEvents exAcquired (snd (execute exRejectEnv exSubs exInsertState)))"
proof -
  have v: "List.find (\<lambda>sj. validate exRejectEnv sj \<noteq> None) exSubs = None"
    unfolding exSubs_def by (rule exReject_valid)
  have n: "\<not> nothingToExecute exSubs"
    unfolding exSubs_def by (rule exReject_nonempty)
  have ph: "executePhases exRejectEnv (subjectsWhere mustBeInserted exSubs)
       (subjectsWhere mustBeUpdated exSubs) (subjectsWhere mustBeRemoved exSubs)
       (subjectsWhere hasRelationUpdates exSubs)
       (snd (recomputeSubjects exRejectEnv (subjectsWhere mustBeUpdated exSubs) exBroadcast))
     = (fst exPhases, snd exPhases)"
    by (simp add: exPhases_def)
  note t = phase_failure_skips_materialization[OF v n exReject_acquire exReject_before ph]
  note t1 = conjunct1[OF t] and t2 = conjunct2[OF t]
  from t1 obtain qs where
    q: "trace (snd exPhases) = trace exBroadcast @ map Query qs" and
    imp: "acceptedRun exRejectEnv qs (db exBroadcast) = None \<longrightarrow> (\<exists>e. fst exPhases = Inl e)"
    by (elim exE conjE)
  let ?qs = "[QInsert ''tag'' [(''name'', JStr ''t'')] (Some exIdColumn),
      QInsert ''note'' [(''text'', JStr ''n''), (''tag'', JNum 5)] None]"
  from q[symmetric] exReject_phase_trace
  have "trace exBroadcast @ map Query qs = trace exBroadcast @ map Query ?qs"
    by (rule trans)
  then have "map Query qs = map Query ?qs" by (simp only: same_append_eq)
  then have "qs = ?qs" by (rule map_Query_inj)
  with imp exReject_replay have "\<exists>e. fst exPhases = Inl e" by simp
  from exReject_phases have e1: "fst exPhases = Inl (Rejected 1)" by (metis fst_conv)
  from t2[rule_format, OF e1] have c: "fst (execute exRejectEnv exSubs exInsertState) = Inl (Rejected 1)"
    "heap (snd (execute exRejectEnv exSubs exInsertState)) = heap exBroadcast"
    "CommitTransaction \<notin> set (newEvents exAcquired (snd (execute exRejectEnv exSubs exInsertState)))"
    by simp_all
  from c(2) exBroadcast_heap
  have h2: "heap (snd (execute exRejectEnv exSubs exInsertState)) 2 ''id'' = None" by simp
  note facts = v n exReject_acquire exReject_before exReject_phase_trace exReject_replay e1 c h2
  show ?thesis by (intro conjI; fact facts)
qed

section \<open>Insert: the two groups\<close>

text \<open>
  C1. The insert phase splits the insert subjects into the group whose metadata has
  \<open>hasNonNullableColumns\<close> unset and the group of all the others; the two groups are
  disjoint and together are the insert subjects. All inserts of the first group run
  first, each with an empty list of already inserted subjects; they only issue
  statements and store generated ids on their subjects. If one of them fails, the phase
  fails with its error and no insert of the second group is issued. Otherwise the inserts
  of the second group run from the state the first group has left, each with the first
  group as its already inserted subjects, so that the ids stored by the first group can
  be read when a relation is resolved; what follows them only issues statements.
\<close>

theorem insert_two_groups:
  assumes "executeInsertOperations env ins s = (r, s')"
  shows "set (firstInsertSubjects (subjects s) ins) \<union> set (secondInsertSubjects (subjects s) ins)
           = set ins \<and>
         set (firstInsertSubjects (subjects s) ins) \<inter> set (secondInsertSubjects (subjects s) ins)
           = {} \<and>
         (\<forall>i \<in> set ins. (i \<in> set (firstInsertSubjects (subjects s) ins)) =
              (\<not> m_hasNonNullableColumns (mfields (metadata (subjects s ! i))))) \<and>
         (\<exists>rA sA.
            forEachS (\<lambda>i. insertSubject env i []) (firstInsertSubjects (subjects s) ins) s
              = (rA, sA) \<and>
            queriesOnly s sA \<and>
            (case rA of
               Inl e \<Rightarrow> r = Inl e \<and> s' = sA
             | Inr u \<Rightarrow>
                 (\<exists>rB sB.
                    forEachS (\<lambda>i. insertSubject env i (firstInsertSubjects (subjects s) ins))
                      (secondInsertSubjects (subjects s) ins) sA = (rB, sB) \<and>
                    queriesOnly sA sB \<and> queriesOnly sB s' \<and>
                    (\<forall>e. rB = Inl e \<longrightarrow> r = Inl e \<and> s' = sB))))"
proof -
  let ?first = "firstInsertSubjects (subjects s) ins"
  let ?second = "secondInsertSubjects (subjects s) ins"
  have p1: "set ?first \<union> set ?second = set ins"
    by (auto simp: firstInsertSubjects_def secondInsertSubjects_def)
  have p2: "set ?first \<inter> set ?second = {}"
    by (auto simp: firstInsertSubjects_def secondInsertSubjects_def)
  have p3: "\<forall>i \<in> set ins. (i \<in> set ?first) =
              (\<not> m_hasNonNullableColumns (mfields (metadata (subjects s ! i))))"
    by (simp add: firstInsertSubjects_def)
  obtain rA sA where a: "forEachS (\<lambda>i. insertSubject env i []) ?first s = (rA, sA)"
    by (cases "forEachS (\<lambda>i. insertSubject env i []) ?first s")
  have qA: "queriesOnly s sA" using qo_forEachS[OF qo_insertSubject a] .
  have rest: "case rA of
               Inl e \<Rightarrow> r = Inl e \<and> s' = sA
             | Inr u \<Rightarrow>
                 (\<exists>rB sB.
                    forEachS (\<lambda>i. insertSubject env i ?first) ?second sA = (rB, sB) \<and>
                    queriesOnly sA sB \<and> queriesOnly sB s' \<and>
                    (\<forall>e. rB = Inl e \<longrightarrow> r = Inl e \<and> s' = sB))"
  proof (cases rA)
    case (Inl e)
    with a assms have "r = Inl e \<and> s' = sA" by (simp add: executeInsertOperations_def)
    with Inl show ?thesis by simp
  next
    case (Inr u)
    obtain rB sB where b: "forEachS (\<lambda>i. insertSubject env i ?first) ?second sA = (rB, sB)"
      by (cases "forEachS (\<lambda>i. insertSubject env i ?first) ?second sA")
    have qB: "queriesOnly sA sB" using qo_forEachS[OF qo_insertSubject b] .
    have tail: "queriesOnly sB s' \<and> (\<forall>e. rB = Inl e \<longrightarrow> r = Inl e \<and> s' = sB)"
    proof (cases rB)
      case (Inl e)
      with a Inr b assms have "r = Inl e \<and> s' = sB" by (simp add: executeInsertOperations_def)
      with Inl show ?thesis by (simp add: qo_refl)
    next
      case rB: (Inr u2)
      obtain updates thrown where
        bp: "backPatchUpdates env (subjects sB) ?first ins (heap sB) = (updates, thrown)"
        by (cases "backPatchUpdates env (subjects sB) ?first ins (heap sB)")
      obtain r3 s3 where c: "forEachS (queryUnit env) updates sB = (r3, s3)"
        by (cases "forEachS (queryUnit env) updates sB")
      have q3: "queriesOnly sB s3" using qo_forEachS[OF qo_queryUnit c] .
      from a Inr b rB bp c assms have "s' = s3"
        by (cases r3; cases thrown) (auto simp: executeInsertOperations_def)
      with q3 rB show ?thesis by simp
    qed
    with Inr b qB show ?thesis by auto
  qed
  from p1 p2 p3 a qA rest show ?thesis by blast
qed

theorem insert_two_groups_witness:
  "executeInsertOperations exInsertEnv [0, 1] exInsertState =
     (Inr (), snd (executeInsertOperations exInsertEnv [0, 1] exInsertState)) \<and>
   firstInsertSubjects (subjects exInsertState) [0, 1] = [1] \<and>
   secondInsertSubjects (subjects exInsertState) [0, 1] = [0] \<and>
   (\<exists>rA sA. forEachS (\<lambda>i. insertSubject exInsertEnv i []) [1] exInsertState = (rA, sA) \<and>
       queriesOnly exInsertState sA \<and>
       queriesOnly sA (snd (executeInsertOperations exInsertEnv [0, 1] exInsertState))) \<and>
   trace (snd (forEachS (\<lambda>i. insertSubject exInsertEnv i []) [1] exInsertState)) =
     [Query (QInsert ''tag'' [(''name'', JStr ''t'')] (Some exIdColumn))] \<and>
   newlyGeneratedId
     (subjects (snd (forEachS (\<lambda>i. insertSubject exInsertEnv i []) [1] exInsertState)) ! 1) = JNum 5 \<and>
   trace (snd (executeInsertOperations exInsertEnv [0, 1] exInsertState)) =
     [Query (QInsert ''tag'' [(''name'', JStr ''t'')] (Some exIdColumn)),
      Query (QInsert ''note'' [(''text'', JStr ''n''), (''tag'', JNum 5)] None)]"
proof -
  let ?s' = "snd (executeInsertOperations exInsertEnv [0, 1] exInsertState)"
  have h: "executeInsertOperations exInsertEnv [0, 1] exInsertState = (Inr (), ?s')"
    by (rule pair_fst_snd[OF exInsert_phase_result])
  have g1: "firstInsertSubjects (subjects exInsertState) [0, 1] = [1]"
    and g2: "secondInsertSubjects (subjects exInsertState) [0, 1] = [0]"
    using exInsert_groups by simp_all
  from insert_two_groups[OF h, unfolded g1 g2] obtain rA sA where
    a: "forEachS (\<lambda>i. insertSubject exInsertEnv i []) [1] exInsertState = (rA, sA)" and
    qa: "queriesOnly exInsertState sA" and
    c: "case rA of Inl e \<Rightarrow> Inr () = Inl e \<and> ?s' = sA
        | Inr u \<Rightarrow> (\<exists>rB sB. forEachS (\<lambda>i. insertSubject exInsertEnv i [1]) [0] sA = (rB, sB) \<and>
              queriesOnly sA sB \<and> queriesOnly sB ?s' \<and>
              (\<forall>e. rB = Inl e \<longrightarrow> Inr () = Inl e \<and> ?s' = sB))"
    by blast
  from c have "queriesOnly sA ?s'"
    by (cases rA) (auto intro: qo_trans)
  with a qa have e: "\<exists>rA sA. forEachS (\<lambda>i. insertSubject exInsertEnv i []) [1] exInsertState = (rA, sA) \<and>
       queriesOnly exInsertState sA \<and> queriesOnly sA ?s'" by blast
  from h g1 g2 e exInsert_first_trace exInsert_phase_trace show ?thesis by blast
qed

section \<open>Junction inserts\<close>

text \<open>
  C7. Take a pending junction insert of subject \<open>i\<close> on a many-to-many relation, at the
  state in which the junction phase runs. The subject's own id is what
  \<open>getOwnEntityRelationId\<close> reads from its entity or, if that is falsy, the subject's
  \<open>newlyGeneratedId\<close> when the first join-table column is generated, else its
  \<open>generatedObjectId\<close> when that column is an object id. The id of a linked entity is
  the entity's property named by the second join-table column or, if that is falsy and
  the entity is the entity of one of the insert subjects, that subject's
  \<open>newlyGeneratedId\<close> (generated column) or \<open>generatedObjectId\<close> (object id column).
  There is one statement per linked entity. If the own id and all related ids are
  truthy and the query runner accepts the statements, the junction insert succeeds and
  has issued exactly these statements, one insert into the junction table per linked
  entity, in the order of the entities, with the values \<open>[ownId, relatedId]\<close> when the
  relation is the owning side and \<open>[relatedId, ownId]\<close> when it is not. If the own id
  or one of the related ids is falsy, the junction insert throws, and every \<open>execute\<close>
  that reaches the junction phase in this state, with this junction insert pending,
  fails.
\<close>

theorem junction_inserts:
  fixes s :: "'db state"
  assumes rel: "rel = ji_relation ji"
    and manyToMany: "r_isManyToManyOwner rel = r_isOwning rel \<and>
                     r_isManyToManyNotOwner rel = (\<not> r_isOwning rel)"
    and firstColumn: "firstColumn =
                        (if r_isOwning rel then jt_referencedColumn (r_joinTable rel)
                         else jt_inverseReferencedColumn (ir_joinTable (r_inverseRelation rel)))"
    and secondColumn: "secondColumn =
                        (if r_isOwning rel then jt_inverseReferencedColumn (r_joinTable rel)
                         else jt_referencedColumn (ir_joinTable (r_inverseRelation rel)))"
    and own: "getOwnEntityRelationId env rel (heap s) (entity (subjects s ! i)) = Inr own"
    and ownId: "ownId =
                  (if truthy own then own
                   else if c_isGenerated firstColumn then newlyGeneratedId (subjects s ! i)
                   else if c_isObjectId firstColumn then generatedObjectId (subjects s ! i)
                   else own)"
    and reads: "map (\<lambda>e. getProp (heap s) e (c_propertyName secondColumn)) (ji_junctionEntities ji)
                = map Inr vs"
    and relatedIds: "relatedIds =
                  map (\<lambda>(e, v).
                         if truthy v then v
                         else (case find (\<lambda>x. strictEq (entity x) e) (map (\<lambda>j. subjects s ! j) ins) of
                                 None \<Rightarrow> v
                               | Some inserted \<Rightarrow>
                                   if c_isGenerated secondColumn then newlyGeneratedId inserted
                                   else if c_isObjectId secondColumn then generatedObjectId inserted
                                   else v))
                      (zip (ji_junctionEntities ji) vs)"
    and rows: "rows =
                  map (\<lambda>relatedId.
                         QInsert (t_name (l_table (r_junctionEntityMetadata rel)))
                           (zipObject env
                              (map c_fullName (l_columnsWithoutEmbeddeds (r_junctionEntityMetadata rel)))
                              (if r_isOwning rel then [ownId, relatedId] else [relatedId, ownId]))
                           None)
                      relatedIds"
  shows "length rows = length (ji_junctionEntities ji) \<and>
         (truthy ownId \<and> list_all truthy relatedIds \<longrightarrow>
            (\<forall>d. acceptedRun env rows (db s) = Some d \<longrightarrow>
               (\<exists>s'. insertJunctions env ins i ji s = (Inr (), s') \<and>
                  trace s' = trace s @ map Query rows \<and> db s' = d \<and> heap s' = heap s))) \<and>
         (\<not> (truthy ownId \<and> list_all truthy relatedIds) \<longrightarrow>
            (\<exists>err s'. insertJunctions env ins i ji s = (Inl err, s')) \<and>
            (\<forall>subs s0 flag s1 s2 s3.
               List.find (\<lambda>x. validate env x \<noteq> None) subs = None \<and>
               \<not> nothingToExecute subs \<and>
               acquireTransaction env (s0\<lparr>subjects := subs\<rparr>) = (Inr (), flag, s1) \<and>
               broadcastBeforeEventsForAll env (subjectsWhere mustBeInserted subs)
                 (subjectsWhere mustBeUpdated subs) (subjectsWhere mustBeRemoved subs) s1
                 = (Inr (), s2) \<and>
               executeInsertOperations env (subjectsWhere mustBeInserted subs)
                 (snd (recomputeSubjects env (subjectsWhere mustBeUpdated subs) s2)) = (Inr (), s3) \<and>
               executeInsertClosureTableOperations env (subjectsWhere mustBeInserted subs) s3
                 = (Inr (), s) \<and>
               ins = subjectsWhere mustBeInserted subs \<and>
               i < length (subjects s) \<and> ji \<in> set (junctionInserts (subjects s ! i)) \<longrightarrow>
               (\<exists>err. fst (execute env subs s0) = Inl err)))"
proof -
  let ?es = "ji_junctionEntities ji"
  define R where "R = (\<lambda>e v.
       if truthy v then v
       else (case find (\<lambda>x. strictEq (entity x) e) (map (\<lambda>j. subjects s ! j) ins) of
               None \<Rightarrow> v
             | Some inserted \<Rightarrow>
                 if c_isGenerated secondColumn then newlyGeneratedId inserted
                 else if c_isObjectId secondColumn then generatedObjectId inserted
                 else v))"
  define row where "row = (\<lambda>relatedId.
       QInsert (t_name (l_table (r_junctionEntityMetadata rel)))
         (zipObject env
            (map c_fullName (l_columnsWithoutEmbeddeds (r_junctionEntityMetadata rel)))
            (if r_isOwning rel then [ownId, relatedId] else [relatedId, ownId]))
         None)"
  have rids: "relatedIds = map (\<lambda>(e, v). R e v) (zip ?es vs)"
    unfolding relatedIds R_def ..
  have rws: "rows = map row (map (\<lambda>(e, v). R e v) (zip ?es vs))"
    unfolding rows row_def rids ..
  from reads have len: "length ?es = length vs" by (rule map_eq_imp_length_eq)
  have ownR: "junctionOwnId env (heap s) (subjects s ! i) rel = Inr ownId"
    unfolding ownId firstColumn by (rule junctionOwnId_resolved[OF own])
  have res: "junctionRelationId (heap s) (map (\<lambda>j. subjects s ! j) ins) rel e = Inr (R e v)"
    if "(e, v) \<in> set (zip ?es vs)" for e v
  proof -
    from map_eq_zip[OF reads that]
    have "getProp (heap s) e (c_propertyName secondColumn) = Inr v" .
    from junctionRelationId_resolved[OF manyToMany this[unfolded secondColumn]]
    show ?thesis unfolding R_def secondColumn .
  qed
  have rowE: "row rid =
                QInsert (t_name (l_table (r_junctionEntityMetadata rel)))
                  (zipObject env
                     (map c_fullName (l_columnsWithoutEmbeddeds (r_junctionEntityMetadata rel)))
                     (if r_isOwning rel then [ownId, rid] else [rid, ownId])) None" for rid
    by (simp add: row_def)
  have same: "heap s = heap s \<and> subjects s = subjects s" by simp
  note run = junction_rows_run[where st = s and s = s and R = R and row = row and ownId = ownId
                and env = env, OF len same res rowE]
  have c1: "length rows = length ?es" using len by (simp add: rws)
  have c2: "\<exists>s'. insertJunctions env ins i ji s = (Inr (), s') \<and>
                  trace s' = trace s @ map Query rows \<and> db s' = d \<and> heap s' = heap s"
    if ok: "truthy ownId \<and> list_all truthy relatedIds" and acc: "acceptedRun env rows (db s) = Some d"
    for d
  proof -
    from ok ownR have ij: "insertJunctions env ins i ji s =
        forEachS (insertJunctionRow env ins rel ownId) ?es s"
      by (simp add: insertJunctions_def rel)
    from run ok acc show ?thesis unfolding ij rws rids by blast
  qed
  have fail: "\<exists>err s'. insertJunctions env ins i ji st = (Inl err, s')"
    if bad: "\<not> (truthy ownId \<and> list_all truthy relatedIds)"
      and st: "heap st = heap s \<and> subjects st = subjects s" for st :: "'db state"
  proof (cases "truthy ownId")
    case False
    with ownR st show ?thesis by (simp add: insertJunctions_def rel)
  next
    case True
    with ownR st have ij: "insertJunctions env ins i ji st =
        forEachS (insertJunctionRow env ins rel ownId) ?es st"
      by (simp add: insertJunctions_def rel)
    from True bad have nl: "\<not> list_all truthy (map (\<lambda>(e, v). R e v) (zip ?es vs))"
      by (simp add: rids)
    from junction_rows_run[where st = st and s = s and R = R and row = row and ownId = ownId
                and env = env, OF len st res rowE] nl
    show ?thesis unfolding ij by blast
  qed
  have c3: "\<exists>err s'. insertJunctions env ins i ji s = (Inl err, s')"
    if bad: "\<not> (truthy ownId \<and> list_all truthy relatedIds)"
    using fail[OF bad same] .
  have phase: "\<exists>err s'. executeInsertJunctionsOperations env ins s = (Inl err, s')"
    if bad: "\<not> (truthy ownId \<and> list_all truthy relatedIds)"
      and i: "i < length (subjects s)" and ji: "ji \<in> set (junctionInserts (subjects s ! i))"
    unfolding executeInsertJunctionsOperations_def
  proof (rule forEachS_fails[where I = "\<lambda>x. heap x = heap s \<and> subjects x = subjects s"
          and ?x0.0 = i])
    fix x and a a' :: "'db state" and r
    assume f: "forEachS (insertJunctions env ins x) (junctionInserts (subjects a ! x)) a = (r, a')"
      and sm: "heap a = heap s \<and> subjects a = subjects s"
    show "heap a' = heap s \<and> subjects a' = subjects s"
      by (rule forEachS_inv[where I = "\<lambda>st. heap st = heap s \<and> subjects st = subjects s", OF _ f sm])
         (auto dest: insertJunctions_state)
  next
    fix st :: "'db state" assume sm: "heap st = heap s \<and> subjects st = subjects s"
    show "\<exists>e st'. forEachS (insertJunctions env ins i) (junctionInserts (subjects st ! i)) st
                    = (Inl e, st')"
    proof (rule forEachS_fails[where I = "\<lambda>x. heap x = heap s \<and> subjects x = subjects s"
              and ?x0.0 = ji])
      fix x and a a' :: "'db state" and r
      assume "insertJunctions env ins i x a = (r, a')"
        and "heap a = heap s \<and> subjects a = subjects s"
      with insertJunctions_state show "heap a' = heap s \<and> subjects a' = subjects s"
        by metis
    next
      fix x :: "'db state" assume "heap x = heap s \<and> subjects x = subjects s"
      from fail[OF bad this]
      show "\<exists>e st'. insertJunctions env ins i ji x = (Inl e, st')" .
    next
      show "ji \<in> set (junctionInserts (subjects st ! i))" using ji sm by simp
    next
      show "heap st = heap s \<and> subjects st = subjects s" by (rule sm)
    qed
  next
    show "i \<in> set [0..<length (subjects s)]" using i by simp
  next
    show "heap s = heap s \<and> subjects s = subjects s" by simp
  qed
  have c4: "\<exists>err. fst (execute env subs s0) = Inl err"
    if bad: "\<not> (truthy ownId \<and> list_all truthy relatedIds)"
      and hyp: "List.find (\<lambda>x. validate env x \<noteq> None) subs = None \<and>
               \<not> nothingToExecute subs \<and>
               acquireTransaction env (s0\<lparr>subjects := subs\<rparr>) = (Inr (), flag, s1) \<and>
               broadcastBeforeEventsForAll env (subjectsWhere mustBeInserted subs)
                 (subjectsWhere mustBeUpdated subs) (subjectsWhere mustBeRemoved subs) s1
                 = (Inr (), s2) \<and>
               executeInsertOperations env (subjectsWhere mustBeInserted subs)
                 (snd (recomputeSubjects env (subjectsWhere mustBeUpdated subs) s2)) = (Inr (), s3) \<and>
               executeInsertClosureTableOperations env (subjectsWhere mustBeInserted subs) s3
                 = (Inr (), s) \<and>
               ins = subjectsWhere mustBeInserted subs \<and>
               i < length (subjects s) \<and> ji \<in> set (junctionInserts (subjects s ! i))"
    for subs s0 flag s1 s2 s3
  proof -
    from hyp have valid: "List.find (\<lambda>x. validate env x \<noteq> None) subs = None"
      and ne: "\<not> nothingToExecute subs"
      and acq: "acquireTransaction env (s0\<lparr>subjects := subs\<rparr>) = (Inr (), flag, s1)"
      and bef: "broadcastBeforeEventsForAll env (subjectsWhere mustBeInserted subs)
                 (subjectsWhere mustBeUpdated subs) (subjectsWhere mustBeRemoved subs) s1
                 = (Inr (), s2)"
      and insP: "executeInsertOperations env (subjectsWhere mustBeInserted subs)
                 (snd (recomputeSubjects env (subjectsWhere mustBeUpdated subs) s2)) = (Inr (), s3)"
      and cloP: "executeInsertClosureTableOperations env (subjectsWhere mustBeInserted subs) s3
                 = (Inr (), s)"
      and insE: "ins = subjectsWhere mustBeInserted subs"
      and i: "i < length (subjects s)" and ji: "ji \<in> set (junctionInserts (subjects s ! i))"
      by simp_all
    from phase[OF bad i ji] obtain err s5 where
      "executeInsertJunctionsOperations env ins s = (Inl err, s5)" by blast
    then have jun: "executeInsertJunctionsOperations env (subjectsWhere mustBeInserted subs) s
                      = (Inl err, s5)"
      by (simp add: insE)
    from execute_fails_in_junctions[OF valid ne acq bef insP cloP jun]
    show ?thesis by blast
  qed
  show ?thesis
    apply (intro conjI impI allI)
       apply (rule c1)
      apply (erule (1) c2)
     apply (erule c3)
    apply (erule (1) c4)
    done
qed

theorem junction_inserts_witness:
  "getOwnEntityRelationId exEnv exGenCategories (heap exNewLinkState)
     (entity (subjects exNewLinkState ! 0)) = Inr JUndefined \<and>
   map (\<lambda>e. getProp (heap exNewLinkState) e (c_propertyName exIdColumn))
     (ji_junctionEntities exLinkNew) = map Inr [JUndefined, JNum 9] \<and>
   fst (insertJunctions exEnv [0, 1] 0 exLinkNew exNewLinkState) = Inr () \<and>
   trace (snd (insertJunctions exEnv [0, 1] 0 exLinkNew exNewLinkState)) =
     [Query (QInsert ''post_categories'' [(''postId'', JNum 5), (''categoryId'', JNum 6)] None),
      Query (QInsert ''post_categories'' [(''postId'', JNum 5), (''categoryId'', JNum 9)] None)] \<and>
   \<not> r_isOwning exPosts \<and>
   getOwnEntityRelationId exEnv exPosts (heap exJunctionState)
     (entity (subjects exJunctionState ! 1)) = Inr (JNum 9) \<and>
   map (\<lambda>e. getProp (heap exJunctionState) e (c_propertyName (exColumn ''id'')))
     (ji_junctionEntities exLinkPosts) = map Inr [JNum 7] \<and>
   fst (insertJunctions exEnv [] 1 exLinkPosts exJunctionState) = Inr () \<and>
   trace (snd (insertJunctions exEnv [] 1 exLinkPosts exJunctionState)) =
     [Query (QInsert ''post_categories'' [(''postId'', JNum 7), (''categoryId'', JNum 9)] None)] \<and>
   map (\<lambda>e. getProp (heap exDanglingClosure) e (c_propertyName (exColumn ''id'')))
     (ji_junctionEntities exLinkUnsaved) = map Inr [JNum 9, JUndefined] \<and>
   (\<exists>err. fst (execute exEnv exDanglingSubs exJunctionState) = Inl err) \<and>
   fst (execute exEnv exDanglingSubs exJunctionState) = Inl notPersisted \<and>
   trace (snd (execute exEnv exDanglingSubs exJunctionState)) =
     [Provide, IsTransactionActive, BeginTransaction,
      BroadcastBeforeEventsForAll [] [] [],
      Query (QInsert ''post_categories'' [(''postId'', JNum 7), (''categoryId'', JNum 9)] None),
      RollbackTransaction]"
proof -
  let ?rows = "[QInsert ''post_categories'' [(''postId'', JNum 5), (''categoryId'', JNum 6)] None,
                QInsert ''post_categories'' [(''postId'', JNum 5), (''categoryId'', JNum 9)] None]"
  note a = junction_inserts[OF exNewLink_relation exNewLink_manyToMany exNewLink_firstColumn
             exNewLink_secondColumn exNewLink_own exNewLink_ownId exNewLink_reads
             exNewLink_relatedIds exNewLink_rows]
  have ok: "truthy (JNum 5) \<and> list_all truthy [JNum 6, JNum 9]" by simp
  from a[THEN conjunct2, THEN conjunct1, rule_format, OF ok exNewLink_accepted]
  obtain s' where run: "insertJunctions exEnv [0, 1] 0 exLinkNew exNewLinkState = (Inr (), s')"
    and tr: "trace s' = trace exNewLinkState @ map Query ?rows"
    by blast
  from run have r1: "fst (insertJunctions exEnv [0, 1] 0 exLinkNew exNewLinkState) = Inr ()"
    and s': "snd (insertJunctions exEnv [0, 1] 0 exLinkNew exNewLinkState) = s'"
    by simp_all
  from tr exNewLink_start have tr': "trace s' =
     [Query (QInsert ''post_categories'' [(''postId'', JNum 5), (''categoryId'', JNum 6)] None),
      Query (QInsert ''post_categories'' [(''postId'', JNum 5), (''categoryId'', JNum 9)] None)]"
    by simp
  note v = junction_inserts[OF exInverse_relation exInverse_manyToMany exInverse_firstColumn
             exInverse_secondColumn exInverse_own exInverse_ownId exInverse_reads
             exInverse_relatedIds exInverse_rows]
  have okv: "truthy (JNum 9) \<and> list_all truthy [JNum 7]" by simp
  from v[THEN conjunct2, THEN conjunct1, rule_format, OF okv exInverse_accepted]
  obtain t' where runv: "insertJunctions exEnv [] 1 exLinkPosts exJunctionState = (Inr (), t')"
    and trv: "trace t' = trace exJunctionState @
        map Query [QInsert ''post_categories'' [(''postId'', JNum 7), (''categoryId'', JNum 9)] None]"
    by blast
  from runv have r2: "fst (insertJunctions exEnv [] 1 exLinkPosts exJunctionState) = Inr ()"
    and t': "snd (insertJunctions exEnv [] 1 exLinkPosts exJunctionState) = t'"
    by simp_all
  from exInverse_start have st0: "trace exJunctionState = []" and no: "\<not> r_isOwning exPosts"
    by simp_all
  from trv st0 have trv': "trace t' =
     [Query (QInsert ''post_categories'' [(''postId'', JNum 7), (''categoryId'', JNum 9)] None)]"
    by simp
  note b = junction_inserts[OF exDangling_relation exDangling_manyToMany exDangling_firstColumn
             exDangling_secondColumn exDangling_own exDangling_ownId exDangling_reads
             exDangling_relatedIds refl]
  have bad: "\<not> (truthy (JNum 7) \<and> list_all truthy [JNum 9, JUndefined])" by simp
  from exDangling_member have m1: "[] = subjectsWhere mustBeInserted exDanglingSubs"
    and m2: "0 < length (subjects exDanglingClosure)"
    and m3: "exLinkUnsaved \<in> set (junctionInserts (subjects exDanglingClosure ! 0))"
    by simp_all
  have hyp: "List.find (\<lambda>x. validate exEnv x \<noteq> None) exDanglingSubs = None \<and>
               \<not> nothingToExecute exDanglingSubs \<and>
               acquireTransaction exEnv (exJunctionState\<lparr>subjects := exDanglingSubs\<rparr>)
                 = (Inr (), True, exDanglingAcquired) \<and>
               broadcastBeforeEventsForAll exEnv (subjectsWhere mustBeInserted exDanglingSubs)
                 (subjectsWhere mustBeUpdated exDanglingSubs)
                 (subjectsWhere mustBeRemoved exDanglingSubs) exDanglingAcquired
                 = (Inr (), exDanglingBroadcast) \<and>
               executeInsertOperations exEnv (subjectsWhere mustBeInserted exDanglingSubs)
                 (snd (recomputeSubjects exEnv (subjectsWhere mustBeUpdated exDanglingSubs)
                         exDanglingBroadcast)) = (Inr (), exDanglingInserted) \<and>
               executeInsertClosureTableOperations exEnv (subjectsWhere mustBeInserted exDanglingSubs)
                 exDanglingInserted = (Inr (), exDanglingClosure) \<and>
               [] = subjectsWhere mustBeInserted exDanglingSubs \<and>
               0 < length (subjects exDanglingClosure) \<and>
               exLinkUnsaved \<in> set (junctionInserts (subjects exDanglingClosure ! 0))"
    by (intro conjI exDangling_valid exDangling_nonempty exDangling_acquire exDangling_before
          exDangling_inserted exDangling_closure m1 m2 m3)
  from b[THEN conjunct2, THEN conjunct2, rule_format, OF bad, THEN conjunct2, rule_format, OF hyp]
  have c: "\<exists>err. fst (execute exEnv exDanglingSubs exJunctionState) = Inl err" .
  show ?thesis
    unfolding s' t'
    using exNewLink_own exNewLink_reads r1 tr' no exInverse_own exInverse_reads r2 trv'
      exDangling_reads c exDangling_result[THEN conjunct1] exDangling_result[THEN conjunct2]
    by (intro conjI)
qed

section \<open>Closure table: a child of a persisted parent\<close>



section \<open>Closure table: no parent\<close>

text \<open>
  C10 (as amended). Let the new entity have the numeric id \<open>n\<close>, not zero, let its
  parent property be falsy, let no subject be found that has this entity among its
  children, let the query runner treat the closure insert as the WebSQL runner does and,
  when the entity has a tree level column, accept the update of the level. Then the
  parent id stays \<open>0\<close>, and the closure insertion returns without an error: the closure
  insert is issued with parent id \<open>0\<close> and appends to the closure table a copy of every
  row whose descendant is \<open>0\<close>, followed by the self row \<open>(n, n)\<close> of the new entity;
  the level it returns is stored on the subject; and when the entity has a tree level
  column, that level is written by a separate update issued right after it. No other
  statement is issued and the heap is left as it was.
\<close>

theorem closure_insert_without_parent:
  fixes s :: "closureRow list state"
  assumes i: "i < length (subjects s)"
    and f: "f = mfields (metadata (subjects s ! i))"
    and newId: "closureNewEntityId (heap s) (subjects s ! i) = Inr (JNum n)"
    and n: "n \<noteq> 0"
    and parent: "getProp (heap s) (entity (subjects s ! i))
                   (r_propertyName (m_treeParentRelation f)) = Inr parentEntity"
    and absent: "\<not> truthy parentEntity"
    and scan: "findE (hasAsChild (heap s) (subjects s ! i)) (subjects s) = Inr None"
    and closureCall: "closureCall = QInsertIntoClosureTable (t_name (l_table (m_closureJunctionTable f)))
                         (JNum n) (JNum 0) (m_hasTreeLevelColumn f)"
    and runner: "runQuery env closureCall (db s)
                 = insertIntoClosureTable (JNum n) (JNum 0) (m_hasTreeLevelColumn f) (db s)"
    and level: "level = (case maxLevel (db s) 0 of
                           None \<Rightarrow> JNum 1
                         | Some l \<Rightarrow> if l \<noteq> 0 then JNum (l + 1) else JNum 1)"
    and levelUpdate: "levelUpdate = QUpdate (t_name (m_table f))
                         [(c_fullName (m_treeLevelColumn f), level)]
                         [(c_fullName (jc_referencedColumn (r_joinColumn (m_treeParentRelation f))),
                           JNum n)]"
    and accepted: "m_hasTreeLevelColumn f \<Longrightarrow>
                     fst (runQuery env levelUpdate (snd (runQuery env closureCall (db s)))) = Inr x"
  shows "closureParentEntityId (heap s) (subjects s) ins (subjects s ! i) = Inr (JNum 0) \<and>
         snd (runQuery env closureCall (db s))
           = db s
             @ map (\<lambda>(a, d, l). (a, n, if m_hasTreeLevelColumn f
                                         then map_option (\<lambda>x. x + 1) l else None))
                   (filter (\<lambda>(a, d, l). d = 0) (db s))
             @ [(n, n, if m_hasTreeLevelColumn f then Some 1 else None)] \<and>
         (\<exists>s'. insertClosureTableValues env ins i s = (Inr (), s') \<and>
            trace s' = trace s @ Query closureCall
                         # (if m_hasTreeLevelColumn f then [Query levelUpdate] else []) \<and>
            db s' = (if m_hasTreeLevelColumn f
                     then snd (runQuery env levelUpdate (snd (runQuery env closureCall (db s))))
                     else snd (runQuery env closureCall (db s))) \<and>
            treeLevel (subjects s' ! i) = level \<and>
            heap s' = heap s)"
proof -
  let ?hl = "m_hasTreeLevelColumn f"
  note pz = closureParentEntityId_orphan[OF parent[unfolded f] absent scan, of ins]
  have res: "runQuery env closureCall (db s) = (Inr level, db s @ closureInsertedRows (db s) n 0 ?hl)"
    using runner insertIntoClosureTable_root[OF n] level by simp
  have rows: "snd (runQuery env closureCall (db s))
           = db s
             @ map (\<lambda>(a, d, l). (a, n, if ?hl then map_option (\<lambda>x. x + 1) l else None))
                   (filter (\<lambda>(a, d, l). d = 0) (db s))
             @ [(n, n, if ?hl then Some 1 else None)]"
    using res by (simp add: closureInsertedRows_def)
  obtain r1 s1 where q: "query env closureCall s = (r1, s1)" by (cases "query env closureCall s")
  from query_state[OF q] res have r1: "r1 = Inr level" and
    t1: "trace s1 = trace s @ [Query closureCall]" and sub1: "subjects s1 = subjects s" and
    h1: "heap s1 = heap s" and d1: "db s1 = snd (runQuery env closureCall (db s))"
    by simp_all
  let ?s2 = "updateSubjectAt i (\<lambda>x. x\<lparr>treeLevel := level\<rparr>) s1"
  have lv2: "treeLevel (subjects ?s2 ! i) = level"
    using i sub1 by (simp add: updateSubjectAt_def)
  have t2: "trace ?s2 = trace s @ [Query closureCall]" using t1 by (simp add: updateSubjectAt_def)
  have h2: "heap ?s2 = heap s" using h1 by (simp add: updateSubjectAt_def)
  have d2: "db ?s2 = snd (runQuery env closureCall (db s))" using d1 by (simp add: updateSubjectAt_def)
  note runs = insertClosureTableValues_run[OF newId pz q[unfolded r1 closureCall f],
                folded f, folded closureCall, folded levelUpdate, of ]
  obtain r s' where run: "insertClosureTableValues env ins i s = (r, s')"
    by (cases "insertClosureTableValues env ins i s")
  have fin: "r = Inr () \<and>
             trace s' = trace s @ Query closureCall # (if ?hl then [Query levelUpdate] else []) \<and>
             db s' = (if ?hl then snd (runQuery env levelUpdate (snd (runQuery env closureCall (db s))))
                      else snd (runQuery env closureCall (db s))) \<and>
             treeLevel (subjects s' ! i) = level \<and> heap s' = heap s"
  proof (cases ?hl)
    case True
    with runs run have u: "queryUnit env levelUpdate ?s2 = (r, s')" by simp
    from queryUnit_result[OF u] accepted[OF True] d2 have "r = Inr ()" by simp
    with queryUnit_state[OF u] lv2 t2 h2 d2 True show ?thesis by simp
  next
    case False
    with runs run have "s' = ?s2" "r = Inr ()" by simp_all
    with lv2 t2 h2 d2 False show ?thesis by simp
  qed
  from run fin have "\<exists>s'. insertClosureTableValues env ins i s = (Inr (), s') \<and>
            trace s' = trace s @ Query closureCall
                         # (if ?hl then [Query levelUpdate] else []) \<and>
            db s' = (if ?hl
                     then snd (runQuery env levelUpdate (snd (runQuery env closureCall (db s))))
                     else snd (runQuery env closureCall (db s))) \<and>
            treeLevel (subjects s' ! i) = level \<and>
            heap s' = heap s"
    by blast
  with pz rows show ?thesis by blast
qed

text \<open>
  C10 as stated fails: a parent entity that has no id, with a generated referenced
  column, and that no insert subject holds, makes the closure insertion throw before any
  statement is issued.
\<close>

theorem closure_unresolved_parent_counterexample:
  "getProp (heap exUnsavedParentState) (entity (subjects exUnsavedParentState ! 0))
     (r_propertyName (m_treeParentRelation (mfields (metadata (subjects exUnsavedParentState ! 0)))))
     = Inr (JRef 13) \<and>
   getProp (heap exUnsavedParentState) (JRef 13)
     (c_propertyName (jc_referencedColumn (r_joinColumn
        (m_treeParentRelation (mfields (metadata (subjects exUnsavedParentState ! 0)))))))
     = Inr JUndefined \<and>
   find (\<lambda>x. strictEq (entity x) (JRef 13))
     (map (\<lambda>j. subjects exUnsavedParentState ! j) [0]) = None \<and>
   findE (hasAsChild (heap exUnsavedParentState) (subjects exUnsavedParentState ! 0))
     (subjects exUnsavedParentState) = Inr None \<and>
   fst (insertClosureTableValues exClosureEnv [0] 0 exUnsavedParentState) = Inl TypeError \<and>
   trace (snd (insertClosureTableValues exClosureEnv [0] 0 exUnsavedParentState)) = []"
proof -
  have "fst (insertClosureTableValues exClosureEnv [0] 0 exUnsavedParentState) = Inl TypeError \<and>
        trace (snd (insertClosureTableValues exClosureEnv [0] 0 exUnsavedParentState)) = []"
    by code_simp
  with exUnsavedParent_facts show ?thesis by blast
qed

theorem closure_insert_without_parent_witness:
  "closureNewEntityId (heap exRootState) (subjects exRootState ! 0) = Inr (JNum 3) \<and>
   getProp (heap exRootState) (entity (subjects exRootState ! 0))
     (r_propertyName (m_treeParentRelation (mfields (metadata (subjects exRootState ! 0)))))
     = Inr JUndefined \<and>
   findE (hasAsChild (heap exRootState) (subjects exRootState ! 0)) (subjects exRootState)
     = Inr None \<and>
   db exRootState = [(1, 1, Some 1)] \<and>
   closureParentEntityId (heap exRootState) (subjects exRootState) [0] (subjects exRootState ! 0)
     = Inr (JNum 0) \<and>
   fst (insertClosureTableValues exClosureEnv [0] 0 exRootState) = Inr () \<and>
   trace (snd (insertClosureTableValues exClosureEnv [0] 0 exRootState)) =
     [Query (QInsertIntoClosureTable ''category_closure'' (JNum 3) (JNum 0) True),
      Query (QUpdate ''category'' [(''level'', JNum 1)] [(''id'', JNum 3)])] \<and>
   db (snd (insertClosureTableValues exClosureEnv [0] 0 exRootState)) =
     [(1, 1, Some 1), (3, 3, Some 1)] \<and>
   treeLevel (subjects (snd (insertClosureTableValues exClosureEnv [0] 0 exRootState)) ! 0) = JNum 1"
proof -
  have f1: "closureNewEntityId (heap exRootState) (subjects exRootState ! 0) = Inr (JNum 3)"
    and f2: "getProp (heap exRootState) (entity (subjects exRootState ! 0))
       (r_propertyName (m_treeParentRelation (mfields (metadata (subjects exRootState ! 0)))))
       = Inr JUndefined"
    and f3: "findE (hasAsChild (heap exRootState) (subjects exRootState ! 0)) (subjects exRootState)
       = Inr None"
    using exRoot_facts by simp_all
  note g1 = exRoot_index and g2 = exRoot_level_column and g3 = exRoot_closure_call
    and g4 = exRoot_level and g5 = exRoot_level_update and g6 = exRoot_update_accepted
    and g7 = exRoot_rows
  from exRoot_start have g8: "trace exRootState = []" by simp
  have f0: "\<not> truthy JUndefined" and n: "(3::int) \<noteq> 0" by simp_all
  from exRoot_start have d0: "db exRootState = [(1, 1, Some 1)]" by simp
  from closure_insert_without_parent[OF g1 refl f1 n f2 f0 f3 g3 exRoot_runner g4 g5 g6, of "[0]"]
  obtain s' where
    c1: "closureParentEntityId (heap exRootState) (subjects exRootState) [0]
              (subjects exRootState ! 0) = Inr (JNum 0)" and
    run: "insertClosureTableValues exClosureEnv [0] 0 exRootState = (Inr (), s')" and
    tr: "trace s' = trace exRootState @
           Query (QInsertIntoClosureTable ''category_closure'' (JNum 3) (JNum 0) True)
           # (if m_hasTreeLevelColumn (mfields (metadata (subjects exRootState ! 0)))
              then [Query (QUpdate ''category'' [(''level'', JNum 1)] [(''id'', JNum 3)])] else [])" and
    d: "db s' = (if m_hasTreeLevelColumn (mfields (metadata (subjects exRootState ! 0)))
                 then snd (runQuery exClosureEnv
                        (QUpdate ''category'' [(''level'', JNum 1)] [(''id'', JNum 3)])
                        (snd (runQuery exClosureEnv
                           (QInsertIntoClosureTable ''category_closure'' (JNum 3) (JNum 0) True)
                           (db exRootState))))
                 else snd (runQuery exClosureEnv
                        (QInsertIntoClosureTable ''category_closure'' (JNum 3) (JNum 0) True)
                        (db exRootState)))" and
    lv: "treeLevel (subjects s' ! 0) = JNum 1"
    by blast
  from run have r1: "fst (insertClosureTableValues exClosureEnv [0] 0 exRootState) = Inr ()"
    and s': "snd (insertClosureTableValues exClosureEnv [0] 0 exRootState) = s'"
    by simp_all
  from tr g2 g8 have tr': "trace s' =
     [Query (QInsertIntoClosureTable ''category_closure'' (JNum 3) (JNum 0) True),
      Query (QUpdate ''category'' [(''level'', JNum 1)] [(''id'', JNum 3)])]"
    by simp
  from d g2 g7 have d': "db s' = [(1, 1, Some 1), (3, 3, Some 1)]" by simp
  show ?thesis
    unfolding s' using f1 f2 f3 d0 c1 r1 tr' d' lv by (intro conjI)
qed

end
